(* ===== verification/Prelude.thy ===== *)
theory Prelude
  imports Main "HOL-Library.Word"
begin

text \<open>
  Vocabulary shared by every component of the development: bytes, the outcome of a C function
  that may also end the process or run into undefined behaviour, memory writes into a buffer,
  the two string comparisons of the C library that the sources use, and the \<open>errno\<close> values
  they look at.  The lemma collections declared here are filled by the other theories.
\<close>

named_theorems sys_defs "unfoldings of the system-call wrappers"
named_theorems trace_simps "how the trace observers read one more event"

section \<open>Bytes and buffers\<close>

type_synonym byte = "8 word"

text \<open>
  \<open>overwrite m bs\<close> is the memory \<open>m\<close> after \<open>bs\<close> was stored at its start (\<open>memcpy\<close>,
  \<open>recv\<close> into a buffer): the bytes behind the stored ones keep their old values.
\<close>

definition overwrite :: "byte list \<Rightarrow> byte list \<Rightarrow> byte list" where
  "overwrite m bs = bs @ drop (length bs) m"

lemma length_overwrite [simp]:
  "length bs \<le> length m \<Longrightarrow> length (overwrite m bs) = length m"
  by (simp add: overwrite_def)

lemma take_overwrite [simp]: "take (length bs) (overwrite m bs) = bs"
  by (simp add: overwrite_def)

lemma take_le_overwrite: "n \<le> length bs \<Longrightarrow> take n (overwrite m bs) = take n bs"
  by (simp add: overwrite_def)

lemma overwrite_Nil [simp]: "overwrite m [] = m"
  by (simp add: overwrite_def)

lemma overwrite_full: "length bs = length m \<Longrightarrow> overwrite m bs = bs"
  by (simp add: overwrite_def)

lemma overwrite_length_ge: "length bs \<le> length (overwrite m bs)"
  by (simp add: overwrite_def)

text \<open>
  \<open>poke m i bs\<close> stores \<open>bs\<close> into the array \<open>m\<close> from index \<open>i\<close> on; \<open>None\<close> is an access outside the
  array.
\<close>

definition poke :: "byte list \<Rightarrow> nat \<Rightarrow> byte list \<Rightarrow> byte list option" where
  "poke m i bs =
     (if i + length bs \<le> length m then Some (take i m @ bs @ drop (i + length bs) m) else None)"

lemma poke_Some:
  "poke m i bs = Some m' \<longleftrightarrow>
     i + length bs \<le> length m \<and> m' = take i m @ bs @ drop (i + length bs) m"
  by (auto simp: poke_def)

lemma poke_prefix:
  assumes "take i m = p" and "i + length bs \<le> length m"
  shows "\<exists>m'. poke m i bs = Some m' \<and> take (i + length bs) m' = p @ bs \<and> length m' = length m"
  using assms by (auto simp: poke_def)

text \<open>Characters as bytes, and the digits \<open>%u\<close> prints.\<close>

definition ascii :: "string \<Rightarrow> byte list" where
  "ascii s = map of_char s"

fun decimal :: "nat \<Rightarrow> byte list" where
  "decimal n = (if n < 10 then [of_nat (48 + n)] else decimal (n div 10) @ [of_nat (48 + n mod 10)])"

declare decimal.simps [simp del]

section \<open>Outcome of a C function\<close>

text \<open>
  A function returns a value, ends the process with \<open>exit\<close>, runs into undefined behaviour
  (an access outside an array, \<open>FD_SET\<close> of a descriptor outside the set), or its loop used up
  the fuel the model gives it.
\<close>

datatype 'a outcome = Ret 'a | Exited int | Fault | NoFuel

lemma outcome_cases_not_Ret:
  "(\<forall>v. r \<noteq> Ret v) \<longleftrightarrow> (\<exists>n. r = Exited n) \<or> r = Fault \<or> r = NoFuel"
  by (cases r) auto

text \<open>
  Sequencing of stateful steps: \<open>chain r k\<close> runs \<open>k\<close> on the value and state of \<open>r\<close>; any other
  outcome is passed on with the state it left.
\<close>

fun chain :: "'a outcome \<times> 's \<Rightarrow> ('a \<Rightarrow> 's \<Rightarrow> 'b outcome \<times> 's) \<Rightarrow> 'b outcome \<times> 's" where
  "chain (Ret v, s) k = k v s"
| "chain (Exited n, s) k = (Exited n, s)"
| "chain (Fault, s) k = (Fault, s)"
| "chain (NoFuel, s) k = (NoFuel, s)"

lemma chain_Ret_iff:
  "chain r k = (Ret b, t) \<longleftrightarrow> (\<exists>a s. r = (Ret a, s) \<and> k a s = (Ret b, t))"
  by (cases "(r, k)" rule: chain.cases) auto

lemma chain_Fault_iff:
  "fst (chain r k) = Fault \<longleftrightarrow> fst r = Fault \<or> (\<exists>a s. r = (Ret a, s) \<and> fst (k a s) = Fault)"
  by (cases "(r, k)" rule: chain.cases) auto

lemma chain_fst_Ret:
  "fst r = Ret v \<Longrightarrow> chain r k = k v (snd r)"
  by (cases r) auto

lemma chain_invariant:
  assumes "P (snd r)" and "\<And>a s. r = (Ret a, s) \<Longrightarrow> P s \<Longrightarrow> P (snd (k a s))"
  shows "P (snd (chain r k))"
  using assms by (cases "(r, k)" rule: chain.cases) auto

text \<open>
  \<open>keeps P r\<close>: the step that gave \<open>r\<close> did not run into undefined behaviour and left a state that
  satisfies \<open>P\<close>, also when it ended the process or ran out of fuel.
\<close>

definition keeps :: "('s \<Rightarrow> bool) \<Rightarrow> 'a outcome \<times> 's \<Rightarrow> bool" where
  "keeps P r \<longleftrightarrow> fst r \<noteq> Fault \<and> P (snd r)"

lemma keeps_simps [simp]:
  "keeps P (Ret v, s) \<longleftrightarrow> P s"
  "keeps P (Exited n, s) \<longleftrightarrow> P s"
  "\<not> keeps P (Fault, s)"
  "keeps P (NoFuel, s) \<longleftrightarrow> P s"
  by (simp_all add: keeps_def)

lemma keeps_chain [intro]:
  assumes "keeps P r" and "\<And>a s. r = (Ret a, s) \<Longrightarrow> P s \<Longrightarrow> keeps P (k a s)"
  shows "keeps P (chain r k)"
  using assms by (cases "(r, k)" rule: chain.cases) auto

lemma keeps_chain_weaken:
  assumes "keeps P r" and "\<And>s. P s \<Longrightarrow> Q s" and "\<And>a s. r = (Ret a, s) \<Longrightarrow> P s \<Longrightarrow> keeps Q (k a s)"
  shows "keeps Q (chain r k)"
  using assms by (cases "(r, k)" rule: chain.cases) auto

lemma keepsD: "keeps P (Ret v, s) \<Longrightarrow> P s"
  by simp

text \<open>
  The same with two conditions: a step that returned left a state that satisfies \<open>P\<close>; one that ended
  the process or ran out of fuel stopped in the middle, where only \<open>Q\<close> is promised.
\<close>

fun leaves :: "('s \<Rightarrow> bool) \<Rightarrow> ('s \<Rightarrow> bool) \<Rightarrow> 'a outcome \<times> 's \<Rightarrow> bool" where
  "leaves P Q (Ret v, s) = P s"
| "leaves P Q (Exited n, s) = Q s"
| "leaves P Q (Fault, s) = False"
| "leaves P Q (NoFuel, s) = Q s"

lemma keeps_leaves: "keeps P r \<Longrightarrow> (\<And>s. P s \<Longrightarrow> Q s) \<Longrightarrow> leaves P Q r"
  by (cases "(P, Q, r)" rule: leaves.cases) auto

lemma leaves_keeps: "leaves P Q r \<Longrightarrow> (\<And>s. P s \<Longrightarrow> Q s) \<Longrightarrow> keeps Q r"
  by (cases "(P, Q, r)" rule: leaves.cases) auto

lemma leavesI:
  assumes "fst r \<noteq> Fault" and "Q (snd r)" and "\<And>v s. r = (Ret v, s) \<Longrightarrow> P s"
  shows "leaves P Q r"
  using assms by (cases "(P, Q, r)" rule: leaves.cases) auto

lemma leaves_mono:
  "leaves P Q r \<Longrightarrow> (\<And>s. P s \<Longrightarrow> P' s) \<Longrightarrow> (\<And>s. Q s \<Longrightarrow> Q' s) \<Longrightarrow> leaves P' Q' r"
  by (cases "(P, Q, r)" rule: leaves.cases) auto

lemma leaves_chain [intro]:
  assumes "leaves P W r" and "\<And>a s. r = (Ret a, s) \<Longrightarrow> P s \<Longrightarrow> leaves Q W (k a s)"
  shows "leaves Q W (chain r k)"
  using assms by (cases "(r, k)" rule: chain.cases) auto

lemma leaves_Ret: "leaves P Q r \<Longrightarrow> r = (Ret v, s) \<Longrightarrow> P s"
  by simp

section \<open>C string comparison\<close>

text \<open>
  \<open>strncmp_eq n a b\<close> is \<open>strncmp(a, b, n) == 0\<close> and \<open>strcmp_eq a b\<close> is \<open>strcmp(a, b) == 0\<close>:
  the comparison goes byte by byte and stops after a common terminating zero.  Both are total here
  because the sources compare buffers that hold a terminator or at least \<open>n\<close> bytes; reading past
  the end of a list counts as different.
\<close>

fun strncmp_eq :: "nat \<Rightarrow> byte list \<Rightarrow> byte list \<Rightarrow> bool" where
  "strncmp_eq 0 a b = True"
| "strncmp_eq (Suc n) (x # a) (y # b) = (x = y \<and> (x = 0 \<or> strncmp_eq n a b))"
| "strncmp_eq (Suc n) a b = False"

fun strcmp_eq :: "byte list \<Rightarrow> byte list \<Rightarrow> bool" where
  "strcmp_eq (x # a) (y # b) = (x = y \<and> (x = 0 \<or> strcmp_eq a b))"
| "strcmp_eq a b = False"

lemma strncmp_eq_nonzero:
  assumes "0 \<notin> set (take n b)" and "n \<le> length b" and "n \<le> length a"
  shows "strncmp_eq n a b \<longleftrightarrow> take n a = take n b"
  using assms
proof (induction n a b rule: strncmp_eq.induct)
  case (2 n x a y b)
  then show ?case by (auto simp: take_Cons)
qed auto

lemma strcmp_eq_terminated:
  assumes "0 \<notin> set b" and "length a = length b"
  shows "strcmp_eq (a @ [0]) (b @ [0]) \<longleftrightarrow> a = b"
  using assms(2,1) by (induction a b rule: list_induct2) auto

section \<open>Error numbers\<close>

datatype errno = EINTR | EAGAIN | EBADF | EOTHER nat

text \<open>The number \<open>exit(errno)\<close> passes on (Linux values; \<open>EWOULDBLOCK\<close> is \<open>EAGAIN\<close>).\<close>

fun errno_code :: "errno \<Rightarrow> int" where
  "errno_code EINTR = 4"
| "errno_code EAGAIN = 11"
| "errno_code EBADF = 9"
| "errno_code (EOTHER n) = int n"

section \<open>Lists and sums\<close>

lemma map_sum_eq_Inr [simp]: "map_sum f g r = Inr y \<longleftrightarrow> (\<exists>x. r = Inr x \<and> y = g x)"
  by (cases r) auto

lemma map_sum_eq_Inl [simp]: "map_sum f g r = Inl y \<longleftrightarrow> (\<exists>x. r = Inl x \<and> y = f x)"
  by (cases r) auto

lemma list_update_same_length: "length (xs[i := x]) = length xs"
  by simp

lemma nth_update_cases:
  "i < length xs \<Longrightarrow> xs[i := x] ! j = (if i = j then x else xs ! j)"
  by auto

lemma set_update_le:
  "(\<forall>y \<in> set xs. P y) \<Longrightarrow> P x \<Longrightarrow> \<forall>y \<in> set (xs[i := x]). P y"
  using set_update_subset_insert by fastforce

end
