(* ===== verification/Openssl_Calls.thy ===== *)
theory Openssl_Calls
  imports Prelude
begin

text \<open>
  The calls of the OpenSSL library that \<open>ossl_quic.c\<close> makes, as data: one constructor per function,
  with its arguments and the answer.  They are recorded in the same trace as the system calls, so
  that an answer of the library may depend on everything that happened before.

  A pointer to an OpenSSL object is \<open>None\<close> for \<open>NULL\<close>; every other pointer is named by a number the
  model chooses when the object is created (\<open>Openssl\<close>).
\<close>

type_synonym ptr = "nat option"

text \<open>
  The calls that configure a context.  All of them return an \<open>int\<close> (0 stands for the answer of those
  that return nothing).
\<close>

datatype ctx_setting =
    Set_verify_none
  | Set_alpn_protos "byte list"
  | Set_ciphersuites "byte list"
  | Use_certificate_chain_file "byte list"
  | Use_PrivateKey_file "byte list"
  | Check_private_key
  | Set_min_proto_version_tls13
  | Set_alpn_select_cb

text \<open>
  The \<open>bool\<close> of \<open>Ctx_new\<close> selects the server method.  \<open>Get_conn_close_info\<close> answers with the error
  code and the flags, \<open>Get_event_timeout\<close> with seconds, microseconds and whether the timeout is
  infinite.
\<close>

datatype ssl_call =
    Ctx_new bool ptr
  | Ctx_set ptr ctx_setting int
  | Ctx_free nat
  | Ssl_new ptr ptr
  | Ssl_new_listener ptr ptr
  | Ssl_set_fd ptr int int
  | Ssl_set_connect_state ptr
  | Ssl_listen ptr int
  | Ssl_set_blocking_mode ptr int int
  | Ssl_connect ptr int
  | Ssl_accept_connection ptr ptr
  | Ssl_handle_events ptr int
  | Ssl_shutdown ptr int
  | Ssl_get_error ptr int int
  | Ssl_get_conn_close_info ptr "(nat \<times> nat) option"
  | Ssl_get_event_timeout ptr "(int \<times> int \<times> bool) option"
  | Ssl_net_write_desired ptr bool
  | Ssl_write_ex ptr "byte list" "nat option"
  | Ssl_read_ex ptr nat "byte list option"
  | Ssl_pending ptr nat
  | Ssl_free nat

text \<open>The object a call was given, and the object it created.\<close>

fun call_arg :: "ssl_call \<Rightarrow> ptr" where
  "call_arg (Ctx_new s r) = None"
| "call_arg (Ctx_set p x r) = p"
| "call_arg (Ctx_free h) = Some h"
| "call_arg (Ssl_new p r) = p"
| "call_arg (Ssl_new_listener p r) = p"
| "call_arg (Ssl_set_fd p fd r) = p"
| "call_arg (Ssl_set_connect_state p) = p"
| "call_arg (Ssl_listen p r) = p"
| "call_arg (Ssl_set_blocking_mode p b r) = p"
| "call_arg (Ssl_connect p r) = p"
| "call_arg (Ssl_accept_connection p r) = p"
| "call_arg (Ssl_handle_events p r) = p"
| "call_arg (Ssl_shutdown p r) = p"
| "call_arg (Ssl_get_error p x r) = p"
| "call_arg (Ssl_get_conn_close_info p r) = p"
| "call_arg (Ssl_get_event_timeout p r) = p"
| "call_arg (Ssl_net_write_desired p r) = p"
| "call_arg (Ssl_write_ex p bs r) = p"
| "call_arg (Ssl_read_ex p n r) = p"
| "call_arg (Ssl_pending p r) = p"
| "call_arg (Ssl_free h) = Some h"

fun call_created :: "ssl_call \<Rightarrow> ptr" where
  "call_created (Ctx_new s r) = r"
| "call_created (Ssl_new p r) = r"
| "call_created (Ssl_new_listener p r) = r"
| "call_created (Ssl_accept_connection p r) = r"
| "call_created _ = None"

fun call_freed :: "ssl_call \<Rightarrow> ptr" where
  "call_freed (Ctx_free h) = Some h"
| "call_freed (Ssl_free h) = Some h"
| "call_freed _ = None"

end
