(* ===== verification/Posix.thy ===== *)
theory Posix
  imports Openssl_Calls
begin

text \<open>
  The part of the POSIX socket interface the sources call.  An \<open>os\<close> is an oracle: every call is
  answered by a function of the whole history of calls, so a theorem that holds for every \<open>os\<close>
  holds for every behaviour of the network, the clock and the peer.  The wrappers \<open>sys_...\<close> ask
  the oracle, bound the answer as the interface guarantees (a datagram is cut to the buffer, no
  more bytes are sent than were given, \<open>select\<close> reports watched descriptors only) and append one
  event to the trace.  The trace lists the newest event first.  Calls of the OpenSSL library are
  events of the same trace.
\<close>

section \<open>Types\<close>

record sockaddr_in =
  sin_family :: int
  sin_addr :: "32 word"
  sin_port :: "16 word"

record timeval =
  tv_sec :: int
  tv_usec :: int

abbreviation (input) AF_INET :: int where "AF_INET \<equiv> 2"
abbreviation (input) SOCK_DGRAM :: int where "SOCK_DGRAM \<equiv> 2"
abbreviation (input) FD_SETSIZE :: int where "FD_SETSIZE \<equiv> 1024"

text \<open>\<open>FD_SET\<close> of a descriptor outside the set is undefined behaviour.\<close>

definition fd_set_ok :: "int \<Rightarrow> bool" where
  "fd_set_ok fd \<longleftrightarrow> 0 \<le> fd \<and> fd < FD_SETSIZE"

datatype sockopt = SO_REUSEADDR int | SO_RCVTIMEO timeval

text \<open>
  One event per system call, with its arguments and its answer.  The \<open>bool\<close> of \<open>EvSendto\<close> and
  \<open>EvRecv\<close> is \<open>MSG_DONTWAIT\<close>; the answer of \<open>EvRecv\<close> is the bytes stored and whether the
  datagram was cut (\<open>MSG_TRUNC\<close>).  \<open>EvSelectRW\<close> is a \<open>select\<close> that also watches descriptors for
  writing, answered by the number of ready ones.  \<open>EvCallback\<close> is a call of the user's callback.
\<close>

datatype (discs_sels) event =
    EvSocket "errno + int"
  | EvGetsockopt int "errno + int"
  | EvGetsockname int "errno + sockaddr_in"
  | EvSetsockopt int sockopt "errno option"
  | EvBind int sockaddr_in "errno option"
  | EvListen int int "errno option"
  | EvAccept int "errno + int"
  | EvConnect int sockaddr_in "errno option"
  | EvSendto int "byte list" sockaddr_in bool "errno + nat"
  | EvRecv int nat bool "errno + byte list \<times> bool"
  | EvSend int "byte list" "errno + nat"
  | EvSelect int "int list" "timeval option" "errno + int list"
  | EvClock "(int \<times> int) option"
  | EvClose int "errno option"
  | EvCallback int "byte list"
  | EvSleep int
  | EvSelectRW int "int list" "int list" timeval "errno + nat"
  | EvSsl ssl_call

type_synonym trace = "event list"

record os =
  os_socket :: "trace \<Rightarrow> errno + nat"
  os_getsockopt :: "trace \<Rightarrow> int \<Rightarrow> errno + int"
  os_getsockname :: "trace \<Rightarrow> int \<Rightarrow> errno + sockaddr_in"
  os_setsockopt :: "trace \<Rightarrow> int \<Rightarrow> sockopt \<Rightarrow> errno option"
  os_bind :: "trace \<Rightarrow> int \<Rightarrow> sockaddr_in \<Rightarrow> errno option"
  os_listen :: "trace \<Rightarrow> int \<Rightarrow> errno option"
  os_accept :: "trace \<Rightarrow> int \<Rightarrow> errno + nat"
  os_connect :: "trace \<Rightarrow> int \<Rightarrow> sockaddr_in \<Rightarrow> errno option"
  os_sendto :: "trace \<Rightarrow> int \<Rightarrow> byte list \<Rightarrow> errno + nat"
  os_recv :: "trace \<Rightarrow> int \<Rightarrow> bool \<Rightarrow> errno + byte list"
  os_send :: "trace \<Rightarrow> int \<Rightarrow> byte list \<Rightarrow> errno + nat"
  os_select :: "trace \<Rightarrow> int list \<Rightarrow> timeval option \<Rightarrow> errno + int list"
  os_select_rw :: "trace \<Rightarrow> int list \<Rightarrow> int list \<Rightarrow> timeval \<Rightarrow> errno + nat"
  os_clock :: "trace \<Rightarrow> (int \<times> int) option"
  os_close :: "trace \<Rightarrow> int \<Rightarrow> errno option"
  os_garbage :: "trace \<Rightarrow> byte list"

text \<open>
  The bytes an uninitialised automatic array of \<open>n\<close> bytes holds when it comes into scope.
\<close>

definition garbage :: "os \<Rightarrow> nat \<Rightarrow> trace \<Rightarrow> byte list" where
  "garbage os n tr = take n (os_garbage os tr @ replicate n 0)"

lemma length_garbage [simp]: "length (garbage os n tr) = n"
  by (simp add: garbage_def)

section \<open>System calls\<close>

definition sys_socket :: "os \<Rightarrow> trace \<Rightarrow> (errno + int) \<times> trace" where
  [sys_defs]: "sys_socket os tr =
     (let r = map_sum id int (os_socket os tr) in (r, EvSocket r # tr))"

definition sys_getsockopt :: "os \<Rightarrow> int \<Rightarrow> trace \<Rightarrow> (errno + int) \<times> trace" where
  [sys_defs]: "sys_getsockopt os fd tr =
     (let r = os_getsockopt os tr fd in (r, EvGetsockopt fd r # tr))"

definition sys_getsockname :: "os \<Rightarrow> int \<Rightarrow> trace \<Rightarrow> (errno + sockaddr_in) \<times> trace" where
  [sys_defs]: "sys_getsockname os fd tr =
     (let r = os_getsockname os tr fd in (r, EvGetsockname fd r # tr))"

definition sys_setsockopt :: "os \<Rightarrow> int \<Rightarrow> sockopt \<Rightarrow> trace \<Rightarrow> errno option \<times> trace" where
  [sys_defs]: "sys_setsockopt os fd opt tr =
     (let r = os_setsockopt os tr fd opt in (r, EvSetsockopt fd opt r # tr))"

definition sys_bind :: "os \<Rightarrow> int \<Rightarrow> sockaddr_in \<Rightarrow> trace \<Rightarrow> errno option \<times> trace" where
  [sys_defs]: "sys_bind os fd a tr = (let r = os_bind os tr fd a in (r, EvBind fd a r # tr))"

definition sys_listen :: "os \<Rightarrow> int \<Rightarrow> int \<Rightarrow> trace \<Rightarrow> errno option \<times> trace" where
  [sys_defs]: "sys_listen os fd n tr = (let r = os_listen os tr fd in (r, EvListen fd n r # tr))"

definition sys_accept :: "os \<Rightarrow> int \<Rightarrow> trace \<Rightarrow> (errno + int) \<times> trace" where
  [sys_defs]: "sys_accept os fd tr =
     (let r = map_sum id int (os_accept os tr fd) in (r, EvAccept fd r # tr))"

definition sys_connect :: "os \<Rightarrow> int \<Rightarrow> sockaddr_in \<Rightarrow> trace \<Rightarrow> errno option \<times> trace" where
  [sys_defs]: "sys_connect os fd a tr =
     (let r = os_connect os tr fd a in (r, EvConnect fd a r # tr))"

definition sys_sendto ::
    "os \<Rightarrow> int \<Rightarrow> byte list \<Rightarrow> sockaddr_in \<Rightarrow> bool \<Rightarrow> trace \<Rightarrow> (errno + nat) \<times> trace" where
  [sys_defs]: "sys_sendto os fd bs dst dw tr =
     (let r = map_sum id (min (length bs)) (os_sendto os tr fd bs)
      in (r, EvSendto fd bs dst dw r # tr))"

definition sys_recvmsg ::
    "os \<Rightarrow> int \<Rightarrow> nat \<Rightarrow> bool \<Rightarrow> trace \<Rightarrow> (errno + byte list \<times> bool) \<times> trace" where
  [sys_defs]: "sys_recvmsg os fd cap dw tr =
     (let r = map_sum id (\<lambda>d. (take cap d, cap < length d)) (os_recv os tr fd dw)
      in (r, EvRecv fd cap dw r # tr))"

text \<open>\<open>recv\<close> is \<open>recvmsg\<close> without the flags.\<close>

definition sys_recv ::
    "os \<Rightarrow> int \<Rightarrow> nat \<Rightarrow> bool \<Rightarrow> trace \<Rightarrow> (errno + byte list) \<times> trace" where
  [sys_defs]: "sys_recv os fd cap dw tr =
     (let (r, tr') = sys_recvmsg os fd cap dw tr in (map_sum id fst r, tr'))"

definition sys_send :: "os \<Rightarrow> int \<Rightarrow> byte list \<Rightarrow> trace \<Rightarrow> (errno + nat) \<times> trace" where
  [sys_defs]: "sys_send os fd bs tr =
     (let r = map_sum id (min (length bs)) (os_send os tr fd bs) in (r, EvSend fd bs r # tr))"

text \<open>
  \<open>select\<close> watches the descriptors of \<open>fds\<close> that are below \<open>nfds\<close>; the answer lists the ready
  ones, the empty list being the timeout (return value 0).
\<close>

definition sys_select ::
    "os \<Rightarrow> int \<Rightarrow> int list \<Rightarrow> timeval option \<Rightarrow> trace \<Rightarrow> (errno + int list) \<times> trace" where
  [sys_defs]: "sys_select os nfds fds tv tr =
     (let r = map_sum id (\<lambda>rd. filter (\<lambda>fd. fd < nfds \<and> fd \<in> set rd) fds) (os_select os tr fds tv)
      in (r, EvSelect nfds fds tv r # tr))"

definition sys_select_rw ::
    "os \<Rightarrow> int \<Rightarrow> int list \<Rightarrow> int list \<Rightarrow> timeval \<Rightarrow> trace \<Rightarrow> (errno + nat) \<times> trace" where
  [sys_defs]: "sys_select_rw os nfds rd wr tv tr =
     (let r = os_select_rw os tr rd wr tv in (r, EvSelectRW nfds rd wr tv r # tr))"

definition sys_clock :: "os \<Rightarrow> trace \<Rightarrow> (int \<times> int) option \<times> trace" where
  [sys_defs]: "sys_clock os tr = (let r = os_clock os tr in (r, EvClock r # tr))"

definition sys_close :: "os \<Rightarrow> int \<Rightarrow> trace \<Rightarrow> errno option \<times> trace" where
  [sys_defs]: "sys_close os fd tr = (let r = os_close os tr fd in (r, EvClose fd r # tr))"

text \<open>\<open>nanosleep\<close> as \<open>msleep\<close> of the utilities calls it: its result is ignored.\<close>

definition msleep :: "int \<Rightarrow> trace \<Rightarrow> trace" where
  [sys_defs]: "msleep ms tr = EvSleep ms # tr"

section \<open>Observers of a trace\<close>

text \<open>
  What a trace sent as datagrams on a descriptor, newest first, and which descriptors the traced
  program created with \<open>socket\<close> and has not closed since.
\<close>

fun datagrams :: "int \<Rightarrow> trace \<Rightarrow> byte list list" where
  "datagrams fd [] = []"
| "datagrams fd (EvSendto f bs dst dw r # tr) =
     (if f = fd then bs # datagrams fd tr else datagrams fd tr)"
| "datagrams fd (_ # tr) = datagrams fd tr"

fun live_sockets :: "trace \<Rightarrow> int set" where
  "live_sockets [] = {}"
| "live_sockets (EvSocket (Inr fd) # tr) = insert fd (live_sockets tr)"
| "live_sockets (EvClose fd r # tr) = live_sockets tr - {fd}"
| "live_sockets (_ # tr) = live_sockets tr"

definition closed_fds :: "trace \<Rightarrow> int list" where
  "closed_fds tr = List.map_filter (\<lambda>e. case e of EvClose fd r \<Rightarrow> Some fd | _ \<Rightarrow> None) tr"

definition count_recvs :: "trace \<Rightarrow> nat" where
  "count_recvs tr = length (filter is_EvRecv tr)"

lemma closed_fds_simps [simp, trace_simps]:
  "closed_fds [] = []"
  "closed_fds (EvClose fd r # tr) = fd # closed_fds tr"
  "\<not> is_EvClose e \<Longrightarrow> closed_fds (e # tr) = closed_fds tr"
  by (auto simp: closed_fds_def map_filter_simps split: event.splits)

lemma count_recvs_simps [simp, trace_simps]:
  "count_recvs [] = 0"
  "count_recvs (EvRecv fd n dw r # tr) = Suc (count_recvs tr)"
  "\<not> is_EvRecv e \<Longrightarrow> count_recvs (e # tr) = count_recvs tr"
  by (auto simp: count_recvs_def)

section \<open>Traces extended by events of a kind\<close>

text \<open>\<open>trace_ext P tr t\<close>: every event between \<open>tr\<close> and \<open>t\<close> satisfies \<open>P\<close>.\<close>

definition trace_ext :: "(event \<Rightarrow> bool) \<Rightarrow> trace \<Rightarrow> trace \<Rightarrow> bool" where
  "trace_ext P tr t \<longleftrightarrow> (\<exists>es. t = es @ tr \<and> list_all P es)"

lemma trace_ext_refl [simp]: "trace_ext P tr tr"
  by (simp add: trace_ext_def)

lemma trace_ext_Cons [simp]: "trace_ext P tr t \<Longrightarrow> P e \<Longrightarrow> trace_ext P tr (e # t)"
  by (auto simp: trace_ext_def intro: exI [of _ "e # _"])

lemma trace_ext_trans [trans]: "trace_ext P a b \<Longrightarrow> trace_ext P b c \<Longrightarrow> trace_ext P a c"
  by (auto simp: trace_ext_def)

lemma trace_ext_mono: "trace_ext P a b \<Longrightarrow> (\<And>e. P e \<Longrightarrow> Q e) \<Longrightarrow> trace_ext Q a b"
  by (auto simp: trace_ext_def list_all_iff)

lemma trace_ext_induct [consumes 1, case_names refl step]:
  assumes "trace_ext P tr t" and "R tr"
    and "\<And>e t. trace_ext P tr t \<Longrightarrow> R t \<Longrightarrow> P e \<Longrightarrow> R (e # t)"
  shows "R t"
proof -
  from assms(1) obtain es where "t = es @ tr" "list_all P es" by (auto simp: trace_ext_def)
  then show ?thesis by (induction es arbitrary: t) (auto intro: assms simp: trace_ext_def)
qed

text \<open>System calls only, none of OpenSSL.\<close>

abbreviation sys_ext :: "trace \<Rightarrow> trace \<Rightarrow> bool" where
  "sys_ext \<equiv> trace_ext (\<lambda>e. \<not> is_EvSsl e)"

lemmas sys_ext_induct = trace_ext_induct [where P = "\<lambda>e. \<not> is_EvSsl e", consumes 1, case_names refl step]

lemma sys_ext_calls [simp]:
  assumes "sys_ext tr t"
  shows "sys_ext tr (snd (sys_socket os t))" "sys_ext tr (snd (sys_setsockopt os fd opt t))"
    "sys_ext tr (snd (sys_bind os fd a t))" "sys_ext tr (snd (sys_listen os fd n t))"
    "sys_ext tr (snd (sys_accept os fd t))" "sys_ext tr (snd (sys_connect os fd a t))"
    "sys_ext tr (snd (sys_sendto os fd bs a dw t))" "sys_ext tr (snd (sys_recv os fd cap dw t))"
    "sys_ext tr (snd (sys_send os fd bs t))" "sys_ext tr (snd (sys_select os nfds fds tvo t))"
    "sys_ext tr (snd (sys_select_rw os nfds rd wr tv t))" "sys_ext tr (snd (sys_clock os t))"
    "sys_ext tr (snd (sys_close os fd t))" "sys_ext tr (msleep ms t)"
  using assms by (simp_all add: sys_defs Let_def split_beta)

section \<open>Concrete systems for examples\<close>

text \<open>
  A system in which every call succeeds and nothing ever arrives: sockets are numbered 3, the
  clock stands still, \<open>recv\<close> times out, and a socket is an unbound UDP socket.
\<close>

definition zero_addr :: sockaddr_in where
  "zero_addr = \<lparr>sin_family = 0, sin_addr = 0, sin_port = 0\<rparr>"

definition quiet_os :: os where
  "quiet_os = \<lparr>os_socket = (\<lambda>tr. Inr 3),
     os_getsockopt = (\<lambda>tr fd. Inr SOCK_DGRAM),
     os_getsockname = (\<lambda>tr fd. Inr \<lparr>sin_family = AF_INET, sin_addr = 0, sin_port = 0\<rparr>),
     os_setsockopt = (\<lambda>tr fd opt. None), os_bind = (\<lambda>tr fd a. None),
     os_listen = (\<lambda>tr fd. None), os_accept = (\<lambda>tr fd. Inr 5), os_connect = (\<lambda>tr fd a. None),
     os_sendto = (\<lambda>tr fd bs. Inr (length bs)), os_recv = (\<lambda>tr fd dw. Inl EAGAIN),
     os_send = (\<lambda>tr fd bs. Inr (length bs)), os_select = (\<lambda>tr fds tv. Inr []),
     os_select_rw = (\<lambda>tr rd wr tv. Inr 0), os_clock = (\<lambda>tr. Some (0, 0)), os_close = (\<lambda>tr fd. None),
     os_garbage = (\<lambda>tr. [])\<rparr>"

text \<open>
  The answers of \<open>recv\<close> as a script: the \<open>n\<close>-th call of the trace gets the \<open>n\<close>-th entry, and
  every call after the script times out.
\<close>

definition script_recv :: "(errno + byte list) list \<Rightarrow> trace \<Rightarrow> int \<Rightarrow> bool \<Rightarrow> errno + byte list" where
  "script_recv rs tr fd dw = (if count_recvs tr < length rs then rs ! count_recvs tr else Inl EAGAIN)"

lemma quiet_os_simps [simp]:
  "os_socket quiet_os = (\<lambda>tr. Inr 3)"
  "os_getsockopt quiet_os = (\<lambda>tr fd. Inr SOCK_DGRAM)"
  "os_getsockname quiet_os = (\<lambda>tr fd. Inr \<lparr>sin_family = AF_INET, sin_addr = 0, sin_port = 0\<rparr>)"
  "os_setsockopt quiet_os = (\<lambda>tr fd opt. None)"
  "os_bind quiet_os = (\<lambda>tr fd a. None)"
  "os_listen quiet_os = (\<lambda>tr fd. None)"
  "os_accept quiet_os = (\<lambda>tr fd. Inr 5)"
  "os_connect quiet_os = (\<lambda>tr fd a. None)"
  "os_sendto quiet_os = (\<lambda>tr fd bs. Inr (length bs))"
  "os_recv quiet_os = (\<lambda>tr fd dw. Inl EAGAIN)"
  "os_send quiet_os = (\<lambda>tr fd bs. Inr (length bs))"
  "os_select quiet_os = (\<lambda>tr fds tv. Inr [])"
  "os_select_rw quiet_os = (\<lambda>tr rd wr tv. Inr 0)"
  "os_clock quiet_os = (\<lambda>tr. Some (0, 0))"
  "os_close quiet_os = (\<lambda>tr fd. None)"
  "os_garbage quiet_os = (\<lambda>tr. [])"
  by (simp_all add: quiet_os_def)

section \<open>Facts about the wrappers\<close>

lemma sys_recv_length:
  "sys_recv os fd cap dw tr = (Inr bs, tr') \<Longrightarrow> length bs \<le> cap"
  by (cases "os_recv os tr fd dw") (auto simp: sys_defs Let_def)

lemma sys_send_length:
  "sys_send os fd bs tr = (Inr n, tr') \<Longrightarrow> n \<le> length bs"
  by (cases "os_send os tr fd bs") (auto simp: sys_defs Let_def)

lemma sys_sendto_length:
  "sys_sendto os fd bs dst dw tr = (Inr n, tr') \<Longrightarrow> n \<le> length bs"
  by (cases "os_sendto os tr fd bs") (auto simp: sys_defs Let_def)

lemma sys_close_ledgers [simp]:
  "live_sockets (snd (sys_close os fd tr)) = live_sockets tr - {fd}"
  "closed_fds (snd (sys_close os fd tr)) = fd # closed_fds tr"
  by (simp_all add: sys_defs Let_def)

end
