(* ===== verification/Udp_Transport.thy ===== *)
theory Udp_Transport
  imports Posix
begin

text \<open>
  The datagram transport of \<open>udp_conn/inc/udp_transport.h\<close> and \<open>udp_conn/src/udp_transport.c\<close>: a
  handle over caller-supplied memory, a table of operations with the direct UDP implementation as
  its only instance, and the public functions that check their arguments and dispatch through the
  table.  Pointers that may be \<open>NULL\<close> are options; memory a function writes through a pointer is
  passed in and returned.
\<close>

section \<open>State\<close>

datatype udp_transport_status = UDP_TRANSPORT_OK | UDP_TRANSPORT_ERROR

abbreviation (input) UDP_TRANSPORT_READABLE :: "32 word" where "UDP_TRANSPORT_READABLE \<equiv> 1"
abbreviation (input) TCP_TRANSPORT_READABLE :: "32 word" where "TCP_TRANSPORT_READABLE \<equiv> 2"

unbundle bit_operations_syntax

record udp_transport_data =
  td_fd :: int
  td_owns_fd :: bool
  td_peer :: sockaddr_in

text \<open>The operation tables the sources define: the address of \<open>direct_ops\<close> is the only one.\<close>

datatype udp_transport_ops = Direct_Ops

record udp_transport =
  tp_ops :: "udp_transport_ops option"
  tp_data :: "udp_transport_data option"
  tp_tcp_fd :: int

record udp_config =
  uc_fd :: int
  uc_already_bound :: bool
  uc_take_ownership :: bool
  uc_reuse_address :: bool
  uc_tcp_fd :: int
  uc_local :: sockaddr_in
  uc_peer :: sockaddr_in

section \<open>The direct implementation\<close>

text \<open>
  \<open>direct_send\<close> and its three companions get the dereferenced \<open>transport->data\<close>.  The byte list
  is the memory \<open>buffer\<close> points to, \<open>length\<close> bytes of it are sent.
\<close>

definition direct_send ::
    "os \<Rightarrow> udp_transport_data \<Rightarrow> byte list \<Rightarrow> nat \<Rightarrow> trace \<Rightarrow> udp_transport_status \<times> trace" where
  "direct_send os udp buffer len tr =
     (case sys_sendto os (td_fd udp) (take len buffer) (td_peer udp) True tr of
        (Inl e, tr') \<Rightarrow> (UDP_TRANSPORT_ERROR, tr')
      | (Inr sent, tr') \<Rightarrow>
          (if sent \<noteq> len then (UDP_TRANSPORT_ERROR, tr') else (UDP_TRANSPORT_OK, tr')))"

text \<open>
  \<open>direct_recv\<close> returns the status, the buffer memory, \<open>*received\<close> and the trace.  A datagram that
  was cut is stored in the buffer all the same, but reported as an error.
\<close>

definition direct_recv ::
    "os \<Rightarrow> udp_transport_data \<Rightarrow> byte list option \<Rightarrow> nat \<Rightarrow> nat \<Rightarrow> trace
       \<Rightarrow> udp_transport_status \<times> byte list option \<times> nat \<times> trace" where
  "direct_recv os udp buffer capacity received tr =
     (case sys_recvmsg os (td_fd udp) capacity True tr of
        (Inl e, tr') \<Rightarrow> (UDP_TRANSPORT_ERROR, buffer, received, tr')
      | (Inr (bs, truncated), tr') \<Rightarrow>
          (let buffer' = map_option (\<lambda>m. overwrite m bs) buffer
           in if truncated then (UDP_TRANSPORT_ERROR, buffer', received, tr')
              else (UDP_TRANSPORT_OK, buffer', length bs, tr')))"

definition direct_wait ::
    "os \<Rightarrow> udp_transport_data \<Rightarrow> int \<Rightarrow> timeval option \<Rightarrow> 32 word \<Rightarrow> trace
       \<Rightarrow> udp_transport_status \<times> 32 word \<times> trace" where
  "direct_wait os udp tcp_fd timeout events tr =
     (let udp_fd = td_fd udp
      in if udp_fd < 0 \<or> FD_SETSIZE \<le> udp_fd \<or> tcp_fd < -1 \<or> FD_SETSIZE \<le> tcp_fd
         then (UDP_TRANSPORT_ERROR, events, tr)
         else let read_fds = udp_fd # (if 0 \<le> tcp_fd then [tcp_fd] else []);
                  max_fd = (if 0 \<le> tcp_fd \<and> udp_fd < tcp_fd then tcp_fd else udp_fd)
              in case sys_select os (max_fd + 1) read_fds timeout tr of
                   (Inl e, tr') \<Rightarrow> (UDP_TRANSPORT_ERROR, events, tr')
                 | (Inr ready, tr') \<Rightarrow>
                     (let ev1 = (if udp_fd \<in> set ready then events OR UDP_TRANSPORT_READABLE
                                 else events);
                          ev2 = (if 0 \<le> tcp_fd \<and> tcp_fd \<in> set ready
                                 then ev1 OR TCP_TRANSPORT_READABLE else ev1)
                      in (UDP_TRANSPORT_OK, ev2, tr')))"

definition direct_close ::
    "os \<Rightarrow> udp_transport \<Rightarrow> udp_transport_data \<Rightarrow> trace
       \<Rightarrow> udp_transport_status \<times> udp_transport \<times> trace" where
  "direct_close os transport udp tr =
     (let (result, tr') = (if td_owns_fd udp then sys_close os (td_fd udp) tr else (None, tr));
          data' = \<lparr>td_fd = -1, td_owns_fd = False, td_peer = zero_addr\<rparr>
      in (if result = None then UDP_TRANSPORT_OK else UDP_TRANSPORT_ERROR,
          transport\<lparr>tp_data := Some data', tp_ops := None, tp_tcp_fd := -1\<rparr>, tr'))"

section \<open>Initialisation\<close>

text \<open>The exit \<open>fail:\<close> of \<open>udp_transport_init_udp\<close> closes a socket the function created itself.\<close>

definition init_fail :: "os \<Rightarrow> udp_config \<Rightarrow> int \<Rightarrow> trace \<Rightarrow> trace" where
  "init_fail os config fd tr =
     (if uc_fd config = -1 \<and> 0 \<le> fd then snd (sys_close os fd tr) else tr)"

text \<open>The descriptor to use: the one given, or a new socket (\<open>-1\<close> when \<open>socket\<close> fails).\<close>

definition init_fd :: "os \<Rightarrow> udp_config \<Rightarrow> trace \<Rightarrow> int \<times> trace" where
  "init_fd os config tr =
     (if uc_fd config = -1
      then (case sys_socket os tr of (Inl e, tr') \<Rightarrow> (-1, tr') | (Inr fd, tr') \<Rightarrow> (fd, tr'))
      else (uc_fd config, tr))"

text \<open>The checks of the socket and its binding, in the code's order; \<open>False\<close> is \<open>goto fail\<close>.\<close>

definition init_checks :: "os \<Rightarrow> udp_config \<Rightarrow> int \<Rightarrow> trace \<Rightarrow> bool \<times> trace" where
  "init_checks os config fd tr =
     (if fd < 0 \<or> FD_SETSIZE \<le> fd then (False, tr)
      else case sys_getsockopt os fd tr of
        (Inl e, tr1) \<Rightarrow> (False, tr1)
      | (Inr type, tr1) \<Rightarrow>
         (case sys_getsockname os fd tr1 of
            (Inl e, tr2) \<Rightarrow> (False, tr2)
          | (Inr local, tr2) \<Rightarrow>
              (if type \<noteq> SOCK_DGRAM \<or> sin_family local \<noteq> AF_INET \<or>
                  (uc_already_bound config \<and> sin_port local = 0)
               then (False, tr2)
               else if uc_already_bound config then (True, tr2)
               else let (r3, tr3) = (if uc_reuse_address config
                                     then sys_setsockopt os fd (SO_REUSEADDR 1) tr2
                                     else (None, tr2))
                    in if r3 \<noteq> None then (False, tr3)
                       else let (r4, tr4) = sys_bind os fd (uc_local config) tr3
                            in (r4 = None, tr4))))"

text \<open>The configurations the function refuses before it touches a descriptor.\<close>

definition config_ok :: "udp_config \<Rightarrow> bool" where
  "config_ok c \<longleftrightarrow>
     \<not> (uc_fd c < -1 \<or> FD_SETSIZE \<le> uc_fd c \<or> uc_tcp_fd c < -1 \<or> FD_SETSIZE \<le> uc_tcp_fd c \<or>
        sin_family (uc_local c) \<noteq> AF_INET \<or> sin_family (uc_peer c) \<noteq> AF_INET \<or>
        sin_port (uc_peer c) = 0 \<or> (uc_fd c = -1 \<and> uc_already_bound c))"

definition udp_transport_init_udp ::
    "os \<Rightarrow> udp_transport option \<Rightarrow> udp_config option \<Rightarrow> trace
       \<Rightarrow> udp_transport_status \<times> udp_transport option \<times> trace" where
  "udp_transport_init_udp os transport config tr =
     (case (transport, config) of
        (Some t, Some c) \<Rightarrow>
          (if tp_data t = None \<or> tp_ops t \<noteq> None \<or> \<not> config_ok c
           then (UDP_TRANSPORT_ERROR, transport, tr)
           else let (fd, tr1) = init_fd os c tr;
                    (ok, tr2) = init_checks os c fd tr1
                in if ok
                   then (UDP_TRANSPORT_OK,
                         Some (t\<lparr>tp_data := Some \<lparr>td_fd = fd,
                                   td_owns_fd = (uc_fd c = -1 \<or> uc_take_ownership c),
                                   td_peer = uc_peer c\<rparr>,
                                 tp_tcp_fd := uc_tcp_fd c, tp_ops := Some Direct_Ops\<rparr>),
                         tr2)
                   else (UDP_TRANSPORT_ERROR, transport, init_fail os c fd tr2))
      | _ \<Rightarrow> (UDP_TRANSPORT_ERROR, transport, tr))"

section \<open>The public functions\<close>

definition is_active :: "udp_transport option \<Rightarrow> bool" where
  "is_active transport =
     (case transport of None \<Rightarrow> False | Some t \<Rightarrow> tp_ops t \<noteq> None \<and> tp_data t \<noteq> None)"

text \<open>The calls through \<open>transport->ops\<close>: the table says which implementation runs.\<close>

fun ops_send :: "udp_transport_ops \<Rightarrow> os \<Rightarrow> udp_transport_data \<Rightarrow> byte list \<Rightarrow> nat \<Rightarrow> trace
       \<Rightarrow> udp_transport_status \<times> trace" where
  "ops_send Direct_Ops = direct_send"

fun ops_recv :: "udp_transport_ops \<Rightarrow> os \<Rightarrow> udp_transport_data \<Rightarrow> byte list option \<Rightarrow> nat \<Rightarrow> nat
       \<Rightarrow> trace \<Rightarrow> udp_transport_status \<times> byte list option \<times> nat \<times> trace" where
  "ops_recv Direct_Ops = direct_recv"

fun ops_wait :: "udp_transport_ops \<Rightarrow> os \<Rightarrow> udp_transport_data \<Rightarrow> int \<Rightarrow> timeval option \<Rightarrow> 32 word
       \<Rightarrow> trace \<Rightarrow> udp_transport_status \<times> 32 word \<times> trace" where
  "ops_wait Direct_Ops = direct_wait"

fun ops_close :: "udp_transport_ops \<Rightarrow> os \<Rightarrow> udp_transport \<Rightarrow> udp_transport_data \<Rightarrow> trace
       \<Rightarrow> udp_transport_status \<times> udp_transport \<times> trace" where
  "ops_close Direct_Ops = direct_close"

definition udp_transport_send ::
    "os \<Rightarrow> udp_transport option \<Rightarrow> byte list option \<Rightarrow> nat \<Rightarrow> trace
       \<Rightarrow> udp_transport_status \<times> trace" where
  "udp_transport_send os transport buffer len tr =
     (if \<not> is_active transport \<or> (buffer = None \<and> len \<noteq> 0) then (UDP_TRANSPORT_ERROR, tr)
      else let t = the transport
           in ops_send (the (tp_ops t)) os (the (tp_data t))
                (case buffer of None \<Rightarrow> [] | Some m \<Rightarrow> m) len tr)"

definition udp_transport_recv ::
    "os \<Rightarrow> udp_transport option \<Rightarrow> byte list option \<Rightarrow> nat \<Rightarrow> nat option \<Rightarrow> trace
       \<Rightarrow> udp_transport_status \<times> byte list option \<times> nat option \<times> trace" where
  "udp_transport_recv os transport buffer capacity received tr =
     (let received0 = map_option (\<lambda>_. 0) received
      in if \<not> is_active transport \<or> received = None \<or> (buffer = None \<and> capacity \<noteq> 0)
         then (UDP_TRANSPORT_ERROR, buffer, received0, tr)
         else let t = the transport;
                  (st, buffer', n, tr') =
                    ops_recv (the (tp_ops t)) os (the (tp_data t)) buffer capacity 0 tr
              in (st, buffer', Some n, tr'))"

definition udp_transport_wait ::
    "os \<Rightarrow> udp_transport option \<Rightarrow> timeval option \<Rightarrow> 32 word option \<Rightarrow> trace
       \<Rightarrow> udp_transport_status \<times> 32 word option \<times> trace" where
  "udp_transport_wait os transport timeout events tr =
     (let events0 = map_option (\<lambda>_. 0) events
      in if \<not> is_active transport \<or> events = None then (UDP_TRANSPORT_ERROR, events0, tr)
         else let t = the transport;
                  (st, ev, tr') =
                    ops_wait (the (tp_ops t)) os (the (tp_data t)) (tp_tcp_fd t) timeout 0 tr
              in (st, Some ev, tr'))"

definition udp_transport_set_tcp_fd ::
    "udp_transport option \<Rightarrow> int \<Rightarrow> udp_transport_status \<times> udp_transport option" where
  "udp_transport_set_tcp_fd transport tcp_fd =
     (if \<not> is_active transport \<or> tcp_fd < -1 \<or> FD_SETSIZE \<le> tcp_fd
      then (UDP_TRANSPORT_ERROR, transport)
      else (UDP_TRANSPORT_OK, map_option (\<lambda>t. t\<lparr>tp_tcp_fd := tcp_fd\<rparr>) transport))"

definition udp_transport_close ::
    "os \<Rightarrow> udp_transport option \<Rightarrow> trace
       \<Rightarrow> udp_transport_status \<times> udp_transport option \<times> trace" where
  "udp_transport_close os transport tr =
     (case transport of
        None \<Rightarrow> (UDP_TRANSPORT_ERROR, transport, tr)
      | Some t \<Rightarrow>
         (case tp_ops t of
            None \<Rightarrow> (UDP_TRANSPORT_OK, transport, tr)
          | Some ops \<Rightarrow>
             (case tp_data t of
                None \<Rightarrow> (UDP_TRANSPORT_ERROR, transport, tr)
              | Some udp \<Rightarrow>
                  (let (st, t', tr') = ops_close ops os t udp tr in (st, Some t', tr')))))"

end
