(* ===== verification/Transport_Spec.thy ===== *)
theory Transport_Spec
  imports Udp_Transport
begin

text \<open>
  What \<open>udp_transport.h\<close> promises, proved for the code's model: the contract of an operation table
  as a locale with the direct implementation as its interpretation, the state invariant under any
  sequence of public calls, the ledger of descriptors (no leak, no close of a borrowed descriptor,
  exactly one close of an owned one), and the functional behaviour of receive and wait.
\<close>

section \<open>Any sequence of public calls\<close>

text \<open>
  One public call with its arguments, and the state it leaves in the caller's \<open>udp_transport\<close> and in
  the trace; status and output parameters are the subject of the functional theorems below.
\<close>

datatype (discs_sels) transport_call =
    CInit udp_config
  | CSend "byte list option" nat
  | CRecv "byte list option" nat "nat option"
  | CWait "timeval option" "32 word option"
  | CSetTcp int
  | CClose

fun transport_step :: "os \<Rightarrow> transport_call \<Rightarrow> udp_transport \<times> trace \<Rightarrow> udp_transport \<times> trace" where
  "transport_step os (CInit c) (t, tr) =
     (let (st, t', tr') = udp_transport_init_udp os (Some t) (Some c) tr in (the t', tr'))"
| "transport_step os (CSend b n) (t, tr) = 
     (let (st, tr') = udp_transport_send os (Some t) b n tr in (t, tr'))"
| "transport_step os (CRecv b n r) (t, tr) =
     (let (st, b', r', tr') = udp_transport_recv os (Some t) b n r tr in (t, tr'))"
| "transport_step os (CWait tv ev) (t, tr) =
     (let (st, ev', tr') = udp_transport_wait os (Some t) tv ev tr in (t, tr'))"
| "transport_step os (CSetTcp fd) (t, tr) = (the (snd (udp_transport_set_tcp_fd (Some t) fd)), tr)"
| "transport_step os CClose (t, tr) =
     (let (st, t', tr') = udp_transport_close os (Some t) tr in (the t', tr'))"

definition transport_run ::
    "os \<Rightarrow> transport_call list \<Rightarrow> udp_transport \<times> trace \<Rightarrow> udp_transport \<times> trace" where
  "transport_run os calls s = fold (transport_step os) calls s"

text \<open>
  The instance a caller declares: \<open>static\<close> memory is zero, so there is no operation table and the
  descriptor field holds 0.
\<close>

definition fresh_transport :: udp_transport where
  "fresh_transport = \<lparr>tp_ops = None,
     tp_data = Some \<lparr>td_fd = 0, td_owns_fd = False, td_peer = zero_addr\<rparr>, tp_tcp_fd = 0\<rparr>"

text \<open>
  The state invariant: an active transport has its data, descriptors that fit an \<open>fd_set\<close>, and a
  complete IPv4 peer.
\<close>

definition transport_inv :: "udp_transport \<Rightarrow> bool" where
  "transport_inv t \<longleftrightarrow> tp_data t \<noteq> None \<and>
     (tp_ops t \<noteq> None \<longrightarrow>
        0 \<le> td_fd (the (tp_data t)) \<and> td_fd (the (tp_data t)) < FD_SETSIZE \<and>
        -1 \<le> tp_tcp_fd t \<and> tp_tcp_fd t < FD_SETSIZE \<and>
        sin_family (td_peer (the (tp_data t))) = AF_INET \<and>
        sin_port (td_peer (the (tp_data t))) \<noteq> 0)"

text \<open>The descriptor the transport has to close.\<close>

definition owned_fd :: "udp_transport \<Rightarrow> int set" where
  "owned_fd t = (case (tp_ops t, tp_data t) of
      (Some _, Some d) \<Rightarrow> (if td_owns_fd d then {td_fd d} else {}) | _ \<Rightarrow> {})"

section \<open>What each function does to the ledgers\<close>

text \<open>The two descriptor ledgers of a trace as one value, which most calls leave alone.\<close>

definition ledgers :: "trace \<Rightarrow> int set \<times> int list" where
  "ledgers tr = (live_sockets tr, closed_fds tr)"

fun ledger_neutral :: "event \<Rightarrow> bool" where
  "ledger_neutral (EvSocket r) = False"
| "ledger_neutral (EvClose fd r) = False"
| "ledger_neutral e = True"

lemma ledgers_neutral [simp]: "ledger_neutral e \<Longrightarrow> ledgers (e # tr) = ledgers tr"
  by (cases e; simp add: ledgers_def)

lemma ledgers_eqD:
  "ledgers tr' = ledgers tr \<Longrightarrow> live_sockets tr' = live_sockets tr"
  "ledgers tr' = ledgers tr \<Longrightarrow> closed_fds tr' = closed_fds tr"
  by (simp_all add: ledgers_def)

lemma init_checks_ledgers:
  "init_checks os c fd tr = (ok, tr') \<Longrightarrow> ledgers tr' = ledgers tr"
  by (auto simp: init_checks_def sys_defs Let_def split: prod.splits sum.splits if_splits)

lemma init_checks_ok:
  "init_checks os c fd tr = (True, tr') \<Longrightarrow> 0 \<le> fd \<and> fd < FD_SETSIZE"
  by (auto simp: init_checks_def split: if_splits)

lemma init_fd_ledgers:
  "init_fd os c tr = (fd, tr') \<Longrightarrow>
     closed_fds tr' = closed_fds tr \<and>
     live_sockets tr' = (if uc_fd c = -1 \<and> 0 \<le> fd then insert fd (live_sockets tr)
                         else live_sockets tr)"
  by (cases "os_socket os tr") (auto simp: init_fd_def sys_defs Let_def split: if_splits)

lemma init_fd_given: "uc_fd c \<noteq> -1 \<Longrightarrow> init_fd os c tr = (uc_fd c, tr)"
  by (simp add: init_fd_def)

section \<open>The contract of an operation table\<close>

text \<open>
  \<open>udp_transport_ops_t\<close> is the interface between the public functions and an implementation.  Its
  laws: sending, receiving and waiting leave the descriptor ledgers alone; a receive that succeeds
  delivers at most the capacity and one that fails leaves the count alone; a wait raises only the two
  documented flags, the TCP one only if a TCP descriptor is observed; closing deactivates the
  transport, keeps its memory and closes the descriptor exactly when it is owned.
\<close>

locale transport_ops =
  fixes ops :: udp_transport_ops
  assumes send_ledgers: "ops_send ops os d b n tr = (st, tr') \<Longrightarrow> ledgers tr' = ledgers tr"
    and recv_ledgers: "ops_recv ops os d buf n r tr = (st, buf', r', tr') \<Longrightarrow> ledgers tr' = ledgers tr"
    and wait_ledgers: "ops_wait ops os d fd tv ev tr = (st, ev', tr') \<Longrightarrow> ledgers tr' = ledgers tr"
    and recv_error: "ops_recv ops os d buf n r tr = (UDP_TRANSPORT_ERROR, buf', r', tr') \<Longrightarrow> r' = r"
    and recv_ok: "ops_recv ops os d buf n r tr = (UDP_TRANSPORT_OK, buf', r', tr') \<Longrightarrow> r' \<le> n"
    and wait_flags: "ops_wait ops os d fd tv 0 tr = (st, ev', tr') \<Longrightarrow>
        ev' \<in> {0, 1, 2, 3} \<and> (fd < 0 \<longrightarrow> ev' \<in> {0, 1}) \<and> (st = UDP_TRANSPORT_ERROR \<longrightarrow> ev' = 0)"
    and close_state: "ops_close ops os t d tr = (st, t', tr') \<Longrightarrow>
        tp_ops t' = None \<and> tp_tcp_fd t' = -1 \<and>
        tp_data t' = Some \<lparr>td_fd = -1, td_owns_fd = False, td_peer = zero_addr\<rparr>"
    and close_trace: "ops_close ops os t d tr = (st, t', tr') \<Longrightarrow>
        (if td_owns_fd d then \<exists>r. tr' = EvClose (td_fd d) r # tr else tr' = tr)"
begin

lemma pub_send_ledgers:
  assumes "tp_ops u = Some ops" and "udp_transport_send os (Some u) b n tr = (st, tr')"
  shows "ledgers tr' = ledgers tr"
  using assms by (auto simp: udp_transport_send_def Let_def split: if_splits dest: send_ledgers)

lemma pub_recv_ledgers:
  assumes "tp_ops u = Some ops" and "udp_transport_recv os (Some u) b n r tr = (st, b', r', tr')"
  shows "ledgers tr' = ledgers tr"
  using assms
  by (auto simp: udp_transport_recv_def Let_def split: if_splits prod.splits dest: recv_ledgers)

lemma pub_wait_ledgers:
  assumes "tp_ops u = Some ops" and "udp_transport_wait os (Some u) tv ev tr = (st, ev', tr')"
  shows "ledgers tr' = ledgers tr"
  using assms
  by (auto simp: udp_transport_wait_def Let_def split: if_splits prod.splits dest: wait_ledgers)

lemma pub_recv_count:
  assumes "tp_ops u = Some ops"
    and "udp_transport_recv os (Some u) b n (Some r) tr = (st, b', r', tr')"
  shows "\<exists>k. r' = Some k \<and> k \<le> n \<and> (st = UDP_TRANSPORT_ERROR \<longrightarrow> k = 0)"
  using assms
  by (cases st)
     (auto simp: udp_transport_recv_def Let_def split: if_splits prod.splits
       dest: recv_error recv_ok)

lemma pub_wait_flags:
  assumes "tp_ops u = Some ops"
    and "udp_transport_wait os (Some u) tv (Some ev) tr = (st, ev', tr')"
  shows "\<exists>w. ev' = Some w \<and> w \<in> {0, 1, 2, 3} \<and> (tp_tcp_fd u < 0 \<longrightarrow> w \<in> {0, 1}) \<and>
     (st = UDP_TRANSPORT_ERROR \<longrightarrow> w = 0)"
  using assms
  by (auto simp: udp_transport_wait_def Let_def split: if_splits prod.splits dest!: wait_flags)

lemma pub_close_active:
  assumes "tp_ops u = Some ops" and "tp_data u = Some d"
    and "udp_transport_close os (Some u) tr = (st, t', tr')"
  shows "\<exists>v. t' = Some v \<and> tp_ops v = None \<and> tp_tcp_fd v = -1 \<and>
     tp_data v = Some \<lparr>td_fd = -1, td_owns_fd = False, td_peer = zero_addr\<rparr> \<and>
     (if td_owns_fd d then \<exists>r. tr' = EvClose (td_fd d) r # tr else tr' = tr)"
  using assms close_state [of os u d tr] close_trace [of os u d tr]
  by (auto simp: udp_transport_close_def split: prod.splits)

end

text \<open>The direct UDP implementation keeps the contract.\<close>

lemma direct_wait_flags:
  "direct_wait os udp fd tv 0 tr = (st, ev', tr') \<Longrightarrow>
     ev' \<in> {0, 1, 2, 3} \<and> (fd < 0 \<longrightarrow> ev' \<in> {0, 1}) \<and> (st = UDP_TRANSPORT_ERROR \<longrightarrow> ev' = 0)"
  by (auto simp: direct_wait_def Let_def split: prod.splits sum.splits if_splits)

lemma direct_wait_ledgers:
  "direct_wait os udp fd tv ev tr = (st, ev', tr') \<Longrightarrow> ledgers tr' = ledgers tr"
  by (auto simp: direct_wait_def sys_defs Let_def split: prod.splits sum.splits if_splits)

interpretation direct: transport_ops Direct_Ops
proof unfold_locales
qed (auto simp: direct_send_def direct_recv_def direct_close_def sys_defs Let_def
      split: prod.splits sum.splits if_splits dest: direct_wait_flags direct_wait_ledgers)

section \<open>One public call\<close>

lemma ops_Direct: "tp_ops t = Some ops \<Longrightarrow> tp_ops t = Some Direct_Ops"
  by (cases ops) simp

lemma inactive_calls:
  assumes "tp_ops t = None"
  shows "udp_transport_send os (Some t) b n tr = (UDP_TRANSPORT_ERROR, tr)"
    and "udp_transport_recv os (Some t) b n r tr = (UDP_TRANSPORT_ERROR, b, map_option (\<lambda>_. 0) r, tr)"
    and "udp_transport_wait os (Some t) tv ev tr = (UDP_TRANSPORT_ERROR, map_option (\<lambda>_. 0) ev, tr)"
    and "udp_transport_set_tcp_fd (Some t) fd = (UDP_TRANSPORT_ERROR, Some t)"
    and "udp_transport_close os (Some t) tr = (UDP_TRANSPORT_OK, Some t, tr)"
  using assms
  by (simp_all add: udp_transport_send_def udp_transport_recv_def udp_transport_wait_def
      udp_transport_set_tcp_fd_def udp_transport_close_def is_active_def)

lemma io_step_neutral:
  assumes "case c of CSend b n \<Rightarrow> True | CRecv b n r \<Rightarrow> True | CWait tv ev \<Rightarrow> True | _ \<Rightarrow> False"
    and "transport_step os c (t, tr) = (t', tr')"
  shows "t' = t \<and> ledgers tr' = ledgers tr"
proof (cases "tp_ops t")
  case None
  then show ?thesis using assms by (auto simp: inactive_calls split: transport_call.splits)
next
  case (Some ops)
  then have "tp_ops t = Some Direct_Ops" by (rule ops_Direct)
  then show ?thesis using assms
    by (auto split: transport_call.splits prod.splits
        dest: direct.pub_send_ledgers direct.pub_recv_ledgers direct.pub_wait_ledgers)
qed

lemma set_tcp_step:
  "transport_step os (CSetTcp fd) (t, tr) = (t', tr') \<Longrightarrow> tr' = tr \<and>
     (t' = t \<or> tp_ops t \<noteq> None \<and> -1 \<le> fd \<and> fd < FD_SETSIZE \<and> t' = t\<lparr>tp_tcp_fd := fd\<rparr>)"
  by (auto simp: udp_transport_set_tcp_fd_def is_active_def split: if_splits)

lemma close_step:
  assumes "transport_step os CClose (t, tr) = (t', tr')" and "tp_data t \<noteq> None"
  shows "tp_ops t' = None \<and> tp_data t' \<noteq> None \<and>
     live_sockets tr' = live_sockets tr - owned_fd t \<and>
     closed_fds tr' = (if tp_ops t \<noteq> None \<and> td_owns_fd (the (tp_data t))
                       then td_fd (the (tp_data t)) # closed_fds tr else closed_fds tr)"
proof (cases "tp_ops t")
  case None
  then show ?thesis using assms by (auto simp: inactive_calls owned_fd_def)
next
  case (Some ops)
  then have "tp_ops t = Some Direct_Ops" by (rule ops_Direct)
  then show ?thesis using assms
    by (auto simp: udp_transport_close_def direct_close_def sys_defs Let_def owned_fd_def
        split: prod.splits if_splits)
qed

text \<open>
  Initialisation either refuses the call, or fails after it restored the ledger of open sockets, or
  succeeds with a descriptor it owns or borrows as the configuration says.
\<close>

lemma init_step_cases:
  assumes "udp_transport_init_udp os (Some t) (Some c) tr = (st, t', tr')"
  obtains (error) "st = UDP_TRANSPORT_ERROR" "t' = Some t"
      "live_sockets tr' \<subseteq> live_sockets tr"
      "uc_fd c \<noteq> -1 \<Longrightarrow> ledgers tr' = ledgers tr"
    | (ok) fd where "st = UDP_TRANSPORT_OK" "tp_ops t = None" "tp_data t \<noteq> None" "config_ok c"
      "0 \<le> fd" "fd < FD_SETSIZE" "uc_fd c \<noteq> -1 \<Longrightarrow> fd = uc_fd c"
      "t' = Some (t\<lparr>tp_data := Some \<lparr>td_fd = fd,
              td_owns_fd = (uc_fd c = -1 \<or> uc_take_ownership c), td_peer = uc_peer c\<rparr>,
            tp_tcp_fd := uc_tcp_fd c, tp_ops := Some Direct_Ops\<rparr>)"
      "live_sockets tr' = (if uc_fd c = -1 then insert fd (live_sockets tr) else live_sockets tr)"
      "closed_fds tr' = closed_fds tr"
proof (cases "tp_data t = None \<or> tp_ops t \<noteq> None \<or> \<not> config_ok c")
  case True
  then show ?thesis using assms error by (auto simp: udp_transport_init_udp_def)
next
  case False
  obtain fd tr1 where fd: "init_fd os c tr = (fd, tr1)" by fastforce
  obtain b tr2 where chk: "init_checks os c fd tr1 = (b, tr2)" by fastforce
  note led = init_fd_ledgers [OF fd] init_checks_ledgers [OF chk, THEN ledgers_eqD(1)]
    init_checks_ledgers [OF chk, THEN ledgers_eqD(2)]
  show ?thesis
  proof (cases b)
    case True
    have "0 \<le> fd \<and> fd < FD_SETSIZE" using chk True by (auto dest: init_checks_ok)
    moreover have "uc_fd c \<noteq> -1 \<Longrightarrow> fd = uc_fd c" using fd by (auto simp: init_fd_given)
    ultimately show ?thesis using assms False fd chk led True
      by (intro ok [of fd]) (auto simp: udp_transport_init_udp_def)
  next
    case False': False
    show ?thesis using assms False fd chk led False'
      by (intro error)
         (auto simp: udp_transport_init_udp_def init_fail_def ledgers_def split: if_splits)
  qed
qed

section \<open>Invariant and ledgers along any run\<close>

definition transport_ok :: "udp_transport \<times> trace \<Rightarrow> bool" where
  "transport_ok s \<longleftrightarrow> transport_inv (fst s) \<and> live_sockets (snd s) \<subseteq> owned_fd (fst s)"

lemma transport_step_ok:
  assumes "transport_ok s"
  shows "transport_ok (transport_step os c s)"
proof -
  obtain t tr where s: "s = (t, tr)" by fastforce
  note assms = assms [unfolded s]
  obtain t' tr' where st: "transport_step os c (t, tr) = (t', tr')" by fastforce
  have "transport_ok (t', tr')"
  proof (cases c)
    case (CInit cfg)
    obtain s u tr1 where i: "udp_transport_init_udp os (Some t) (Some cfg) tr = (s, u, tr1)"
      by (metis prod_cases3)
    then show ?thesis using CInit assms st
      by (cases rule: init_step_cases)
         (auto simp: i transport_ok_def transport_inv_def owned_fd_def config_ok_def)
  next
    case (CSetTcp fd)
    with set_tcp_step [of os fd t tr t' tr'] st assms show ?thesis
      by (auto simp del: transport_step.simps simp: transport_ok_def transport_inv_def owned_fd_def)
  next
    case CClose
    then show ?thesis using assms st close_step [of os t tr t' tr']
      by (auto simp: transport_ok_def transport_inv_def owned_fd_def)
  qed (use assms st io_step_neutral [of c os t tr t' tr'] in
        \<open>auto simp: transport_ok_def dest!: ledgers_eqD(1)\<close>)
  then show ?thesis by (simp add: s st)
qed

lemma transport_run_ok:
  "transport_ok s \<Longrightarrow> transport_ok (transport_run os calls s)"
  unfolding transport_run_def
  by (induction calls arbitrary: s) (simp_all add: transport_step_ok)

lemma fresh_transport_ok [simp]: "transport_ok (fresh_transport, [])"
  by (simp add: transport_ok_def transport_inv_def fresh_transport_def)

section \<open>One session: between a successful initialisation and the next one\<close>

lemma data_Direct: "tp_ops t = Some ops \<Longrightarrow> tp_data t = Some d \<Longrightarrow>
    is_active (Some t)"
  by (simp add: is_active_def)

text \<open>
  Inside a session the transport is either still active with the data the initialisation stored, or
  closed, and closing added the owned descriptor to the closed ones.
\<close>

definition session_state ::
    "udp_transport_data \<Rightarrow> int list \<Rightarrow> bool \<Rightarrow> udp_transport \<times> trace \<Rightarrow> bool" where
  "session_state d cl closed s \<longleftrightarrow>
     (if closed
      then tp_ops (fst s) = None \<and> tp_data (fst s) \<noteq> None \<and>
           closed_fds (snd s) = (if td_owns_fd d then td_fd d # cl else cl)
      else tp_ops (fst s) \<noteq> None \<and> tp_data (fst s) = Some d \<and> closed_fds (snd s) = cl)"

lemma session_step:
  assumes "session_state d cl closed s" and "\<not> is_CInit c"
  shows "session_state d cl (closed \<or> c = CClose) (transport_step os c s)"
proof -
  obtain t tr where s: "s = (t, tr)" by fastforce
  obtain t' tr' where st: "transport_step os c (t, tr) = (t', tr')" by fastforce
  have "session_state d cl (closed \<or> c = CClose) (t', tr')"
  proof (cases c)
    case (CSetTcp fd)
    with set_tcp_step [of os fd t tr t' tr'] st assms s show ?thesis
      by (auto simp: session_state_def simp del: transport_step.simps split: if_splits)
  next
    case CClose
    with close_step [of os t tr t' tr'] st assms s show ?thesis
      by (auto simp: session_state_def simp del: transport_step.simps split: if_splits)
  qed (use assms st s io_step_neutral [of c os t tr t' tr'] in
        \<open>auto simp: session_state_def split: if_splits dest!: ledgers_eqD(2)\<close>)
  then show ?thesis by (simp add: s st)
qed

lemma session_run:
  assumes "session_state d cl closed s" and "\<forall>k \<in> set calls. \<not> is_CInit k"
  shows "session_state d cl (closed \<or> CClose \<in> set calls) (transport_run os calls s)"
  using assms unfolding transport_run_def
proof (induction calls arbitrary: closed s)
  case Nil
  then show ?case by simp
next
  case (Cons k calls)
  have "session_state d cl (closed \<or> k = CClose) (transport_step os k s)"
    using Cons.prems by (simp add: session_step)
  from Cons.IH [OF this] Cons.prems show ?case by (simp add: disj_assoc eq_commute)
qed

section \<open>Properties\<close>

text \<open>
  C15. No sequence of public calls leaks a socket: whatever the system answers, starting from the
  zeroed instance the transport stays well formed, every socket it created and did not close is the
  descriptor it still owns, and when it is inactive there is none.
\<close>

theorem transport_no_leak:
  assumes "transport_run os calls (fresh_transport, []) = (t, tr)"
  shows "transport_inv t \<and> live_sockets tr \<subseteq> owned_fd t \<and> (tp_ops t = None \<longrightarrow> live_sockets tr = {})"
  using transport_run_ok [OF fresh_transport_ok, of os calls] assms
  by (auto simp: transport_ok_def owned_fd_def)

definition example_config :: udp_config where
  "example_config = \<lparr>uc_fd = -1, uc_already_bound = False, uc_take_ownership = False,
     uc_reuse_address = True, uc_tcp_fd = -1,
     uc_local = \<lparr>sin_family = AF_INET, sin_addr = 0, sin_port = 0\<rparr>,
     uc_peer = \<lparr>sin_family = AF_INET, sin_addr = 7, sin_port = 2222\<rparr>\<rparr>"

text \<open>The transport after this configuration was initialised on the quiet system, with its trace.\<close>

definition example_state :: "udp_transport \<times> trace" where
  "example_state = transport_step quiet_os (CInit example_config) (fresh_transport, [])"

lemmas example_defs = example_state_def example_config_def fresh_transport_def
  udp_transport_init_udp_def config_ok_def init_fd_def init_checks_def sys_defs Let_def

lemma example_init:
  "udp_transport_init_udp quiet_os (Some fresh_transport) (Some example_config) [] =
     (UDP_TRANSPORT_OK, Some (fst example_state), snd example_state)"
  by (simp add: example_defs)

lemma example_active:
  "tp_ops (fst example_state) = Some Direct_Ops"
  "tp_data (fst example_state) =
     Some \<lparr>td_fd = 3, td_owns_fd = True, td_peer = uc_peer example_config\<rparr>"
  "tp_tcp_fd (fst example_state) = -1"
  by (simp_all add: example_defs)

theorem transport_no_leak_witness:
  "\<exists>t tr. transport_run quiet_os [CInit example_config, CClose] (fresh_transport, []) = (t, tr) \<and>
     transport_inv t \<and> tp_ops t = None \<and> live_sockets tr = {}"
proof -
  let ?r = "transport_run quiet_os [CInit example_config, CClose] (fresh_transport, [])"
  have "tp_ops (fst ?r) = None"
    by (simp add: transport_run_def udp_transport_close_def direct_close_def example_defs)
  then show ?thesis
    using transport_no_leak [of quiet_os "[CInit example_config, CClose]" "fst ?r" "snd ?r"]
    by (metis prod.collapse)
qed

text \<open>
  In a session that began with a successful initialisation, the descriptor is closed exactly once
  if the transport owns it and close was called, and never otherwise: a borrowed descriptor survives
  every call, and closing twice closes once.
\<close>

theorem transport_session_closes:
  assumes "udp_transport_init_udp os (Some t0) (Some c) tr0 = (UDP_TRANSPORT_OK, Some t1, tr1)"
    and "\<forall>k \<in> set calls. \<not> is_CInit k"
    and "transport_run os calls (t1, tr1) = (t2, tr2)"
  shows "(tp_ops t2 = None \<longleftrightarrow> CClose \<in> set calls) \<and>
     closed_fds tr2 =
       (if CClose \<in> set calls \<and> (uc_fd c = -1 \<or> uc_take_ownership c)
        then td_fd (the (tp_data t1)) # closed_fds tr0 else closed_fds tr0)"
proof -
  from assms(1) obtain d where "session_state d (closed_fds tr0) False (t1, tr1)"
    and "tp_data t1 = Some d" and "td_owns_fd d \<longleftrightarrow> uc_fd c = -1 \<or> uc_take_ownership c"
    by (cases rule: init_step_cases) (auto simp: session_state_def)
  from session_run [OF this(1) assms(2), of os] this(2,3) assms(3) show ?thesis
    by (auto simp: session_state_def split: if_splits)
qed

theorem transport_session_closes_witness:
  "\<exists>t tr. transport_run quiet_os [CClose, CClose] example_state = (t, tr) \<and> closed_fds tr = [3]"
proof -
  let ?r = "transport_run quiet_os [CClose, CClose] example_state"
  have "closed_fds (snd ?r) = td_fd (the (tp_data (fst example_state))) # closed_fds []"
    using transport_session_closes [OF example_init, of "[CClose, CClose]" "fst ?r" "snd ?r"]
    by (simp add: example_config_def)
  then show ?thesis by (metis example_active(2) closed_fds_simps(1) option.sel
      prod.collapse udp_transport_data.select_convs(1))
qed

text \<open>
  A failed initialisation is atomic: the caller's transport is untouched, no socket created on
  the way stays open, and a descriptor the caller gave is not closed.
\<close>

theorem transport_init_atomic:
  assumes "udp_transport_init_udp os transport config tr = (UDP_TRANSPORT_ERROR, transport', tr')"
  shows "transport' = transport \<and> live_sockets tr' \<subseteq> live_sockets tr \<and>
     (\<forall>c. config = Some c \<longrightarrow> uc_fd c \<noteq> -1 \<longrightarrow> closed_fds tr' = closed_fds tr)"
proof (cases "transport = None \<or> config = None")
  case True
  then show ?thesis using assms by (auto simp: udp_transport_init_udp_def split: option.splits)
next
  case False
  then obtain t c where tc: "transport = Some t" "config = Some c" by auto
  from assms [unfolded tc] tc show ?thesis
    by (cases rule: init_step_cases) (auto dest: ledgers_eqD)
qed

text \<open>A system whose \<open>bind\<close> fails: the created socket is closed again.\<close>

theorem transport_init_atomic_witness:
  "\<exists>tr. udp_transport_init_udp (quiet_os\<lparr>os_bind := (\<lambda>tr fd a. Some EBADF)\<rparr>) (Some fresh_transport)
       (Some example_config) [] = (UDP_TRANSPORT_ERROR, Some fresh_transport, tr) \<and>
     live_sockets tr = {} \<and> closed_fds tr = [3]"
proof -
  let ?os = "quiet_os\<lparr>os_bind := (\<lambda>tr fd a. Some EBADF)\<rparr>"
  obtain st t tr where r: "udp_transport_init_udp ?os (Some fresh_transport)
      (Some example_config) [] = (st, t, tr)" by (metis prod_cases3)
  then have "st = UDP_TRANSPORT_ERROR" and "closed_fds tr = [3]"
    by (auto simp: example_defs init_fail_def)
  then show ?thesis using transport_init_atomic r by fastforce
qed

text \<open>
  C22. What one transport sends in full, a transport that is handed this datagram receives: the count
  is the length and the first bytes of the buffer are the bytes sent, for a buffer that is large
  enough.
\<close>

theorem transport_roundtrip:
  assumes "udp_transport_send osA (Some a) (Some msg) (length msg) trA = (UDP_TRANSPORT_OK, trA')"
    and "tp_data a = Some da" and "tp_ops b = Some ops" and "tp_data b = Some db"
    and "os_recv osB trB (td_fd db) True = Inr (hd (datagrams (td_fd da) trA'))"
    and "length msg \<le> capacity" and "capacity \<le> length buf"
  shows "\<exists>buf' trB'. udp_transport_recv osB (Some b) (Some buf) capacity (Some n) trB =
     (UDP_TRANSPORT_OK, Some buf', Some (length msg), trB') \<and>
     take (length msg) buf' = msg \<and> length buf' = length buf"
proof -
  have ops: "tp_ops b = Some Direct_Ops" using assms(3) by (rule ops_Direct)
  have act: "is_active (Some a)" using assms(1) by (auto simp: udp_transport_send_def split: if_splits)
  then have "tp_ops a = Some Direct_Ops" by (auto simp: is_active_def intro: ops_Direct)
  then have "hd (datagrams (td_fd da) trA') = msg"
    using assms(1,2) act
    by (auto simp: udp_transport_send_def direct_send_def sys_defs Let_def
        split: prod.splits sum.splits if_splits)
  then show ?thesis using assms(4-7) ops
    by (simp add: udp_transport_recv_def is_active_def direct_recv_def sys_defs Let_def)
qed

theorem transport_roundtrip_witness:
  "\<exists>buf' trB'. udp_transport_recv (quiet_os\<lparr>os_recv := (\<lambda>tr fd dw. Inr [104, 105])\<rparr>)
       (Some (fst example_state)) (Some [0, 0, 0]) 3 (Some 99) [] =
     (UDP_TRANSPORT_OK, Some buf', Some (length [104, 105 :: byte]), trB') \<and>
     take (length [104, 105 :: byte]) buf' = [104, 105] \<and> length buf' = length [0, 0, 0 :: byte]"
proof -
  obtain tr where snd: "udp_transport_send quiet_os (Some (fst example_state)) (Some [104, 105])
      (length [104, 105 :: byte]) [] = (UDP_TRANSPORT_OK, tr)"
      and "datagrams 3 tr = [[104, 105]]"
    by (simp add: udp_transport_send_def is_active_def example_active direct_send_def sys_defs Let_def)
  then show ?thesis
    by (intro transport_roundtrip [OF snd example_active(2) example_active(1) example_active(2)])
       simp_all
qed

text \<open>
  Receiving on an active transport reports exactly one of three results: a system error (no
  count, buffer untouched), a datagram that fits (its bytes and its length), or a truncated datagram
  (an error with count zero although the buffer holds the cut bytes).
\<close>

theorem transport_recv_result:
  assumes "tp_ops t = Some ops" and "tp_data t = Some d"
  shows "udp_transport_recv os (Some t) (Some buf) capacity (Some n) tr =
     (case os_recv os tr (td_fd d) True of
        Inl e \<Rightarrow> (UDP_TRANSPORT_ERROR, Some buf, Some 0, EvRecv (td_fd d) capacity True (Inl e) # tr)
      | Inr m \<Rightarrow>
          (if length m \<le> capacity
           then (UDP_TRANSPORT_OK, Some (overwrite buf m), Some (length m),
                 EvRecv (td_fd d) capacity True (Inr (m, False)) # tr)
           else (UDP_TRANSPORT_ERROR, Some (overwrite buf (take capacity m)), Some 0,
                 EvRecv (td_fd d) capacity True (Inr (take capacity m, True)) # tr)))"
  using assms(2) ops_Direct [OF assms(1)]
  by (auto simp: udp_transport_recv_def is_active_def direct_recv_def sys_defs Let_def
      split: sum.splits)

theorem transport_recv_result_witness:
  "udp_transport_recv (quiet_os\<lparr>os_recv := (\<lambda>tr fd dw. Inr [1, 2, 3])\<rparr>) (Some (fst example_state))
     (Some [0, 0]) 2 (Some 99) [] =
   (UDP_TRANSPORT_ERROR, Some [1, 2], Some 0, [EvRecv 3 2 True (Inr ([1, 2], True))])"
  by (subst transport_recv_result [OF example_active(1,2)]) (simp add: overwrite_def)

text \<open>
  Waiting tells exactly what is ready: on success the UDP flag is set iff the system reports the
  UDP descriptor, the TCP flag iff a TCP descriptor is observed and reported, and no other bit is
  ever set; both flags can come together.
\<close>

theorem transport_wait_exact:
  assumes "transport_inv t" and "tp_ops t = Some ops" and "tp_data t = Some d"
    and "os_select os tr (td_fd d # (if 0 \<le> tp_tcp_fd t then [tp_tcp_fd t] else [])) timeout = Inr ready"
  shows "\<exists>tr'. udp_transport_wait os (Some t) timeout (Some ev) tr =
     (UDP_TRANSPORT_OK,
      Some ((if td_fd d \<in> set ready then UDP_TRANSPORT_READABLE else 0) OR
            (if 0 \<le> tp_tcp_fd t \<and> tp_tcp_fd t \<in> set ready then TCP_TRANSPORT_READABLE else 0)), tr')"
  using assms ops_Direct [OF assms(2)]
  by (auto simp: udp_transport_wait_def is_active_def direct_wait_def transport_inv_def sys_defs
      Let_def)

theorem transport_wait_exact_witness:
  "\<exists>tr'. udp_transport_wait (quiet_os\<lparr>os_select := (\<lambda>tr fds tv. Inr [3])\<rparr>) (Some (fst example_state))
     None (Some 99) [] = (UDP_TRANSPORT_OK, Some 1, tr')"
proof -
  have "transport_inv (fst example_state)"
    by (simp add: transport_inv_def example_active) (simp add: example_config_def)
  from transport_wait_exact [OF this example_active(1,2),
      of "quiet_os\<lparr>os_select := (\<lambda>tr fds tv. Inr [3])\<rparr>" "[]" None "[3]" 99]
  show ?thesis by (simp add: example_active(3))
qed

end
