(* ===== verification/Conn.thy ===== *)
theory Conn
  imports Posix
begin

text \<open>
  The connection object of \<open>udp_conn/inc/udp_conn.h\<close>: statuses, the UDP and TCP sessions, the control
  block and the table of backend operations.  The object is a record with an option for every pointer
  that the code compares with \<open>NULL\<close>; the backend's configuration and data are type parameters, as
  they are \<open>void *\<close> in the source, and so is the memory of the application that the callback
  works on.  The record also carries the trace of system calls, so that a
  function on connections is a function on the whole state the code can change.
\<close>

section \<open>Statuses\<close>

datatype udp_conn_status =
    UDP_CONN_NOT_APPLICABLE | UDP_CONN_WITH_TCP_TUNNELING | UDP_CONN_WITHOUT_TCP_TUNNELING
  | UDP_CONN_NOT_CLOSED | UDP_CONN_OK | UDP_CONN_ERR | UDP_CONN_ALREADY_INIT | UDP_CONN_NOT_INIT
  | UDP_CONN_TCP_BIND_ERROR | UDP_CONN_TCP_HP_ERROR | UDP_CONN_CONNECT_ERROR
  | UDP_CONN_UNKNOWN_MODE | UDP_CONN_CLOSED | UDP_CONN_OK_TRUNCATED

fun status_code :: "udp_conn_status \<Rightarrow> int" where
  "status_code UDP_CONN_NOT_APPLICABLE = 4"
| "status_code UDP_CONN_WITH_TCP_TUNNELING = 3"
| "status_code UDP_CONN_WITHOUT_TCP_TUNNELING = 2"
| "status_code UDP_CONN_NOT_CLOSED = 1"
| "status_code UDP_CONN_OK = 0"
| "status_code UDP_CONN_ERR = -1"
| "status_code UDP_CONN_ALREADY_INIT = -2"
| "status_code UDP_CONN_NOT_INIT = -3"
| "status_code UDP_CONN_TCP_BIND_ERROR = -4"
| "status_code UDP_CONN_TCP_HP_ERROR = -5"
| "status_code UDP_CONN_CONNECT_ERROR = -6"
| "status_code UDP_CONN_UNKNOWN_MODE = -7"
| "status_code UDP_CONN_CLOSED = -8"
| "status_code UDP_CONN_OK_TRUNCATED = -9"

text \<open>\<open>status < 0\<close>\<close>

definition is_err :: "udp_conn_status \<Rightarrow> bool" where
  "is_err st \<longleftrightarrow> status_code st < 0"

lemma is_err_simps [simp]:
  "\<not> is_err UDP_CONN_NOT_APPLICABLE" "\<not> is_err UDP_CONN_WITH_TCP_TUNNELING"
  "\<not> is_err UDP_CONN_WITHOUT_TCP_TUNNELING" "\<not> is_err UDP_CONN_NOT_CLOSED" "\<not> is_err UDP_CONN_OK"
  "is_err UDP_CONN_ERR" "is_err UDP_CONN_ALREADY_INIT" "is_err UDP_CONN_NOT_INIT"
  "is_err UDP_CONN_TCP_BIND_ERROR" "is_err UDP_CONN_TCP_HP_ERROR" "is_err UDP_CONN_CONNECT_ERROR"
  "is_err UDP_CONN_UNKNOWN_MODE" "is_err UDP_CONN_CLOSED" "is_err UDP_CONN_OK_TRUNCATED"
  by (simp_all add: is_err_def)

lemma status_code_0 [simp]: "status_code st = 0 \<longleftrightarrow> st = UDP_CONN_OK"
  by (cases st) simp_all

section \<open>The connection object\<close>

abbreviation (input) TCP_MTU_SIZE :: nat where "TCP_MTU_SIZE \<equiv> 1024"

record udp_session =
  us_socket_fd :: int
  us_ka_miss_threshold :: int
  us_dst :: sockaddr_in
  us_src :: sockaddr_in

record tcp_session =
  ts_socket_fd :: int
  ts_accepted_sock :: int
  ts_reuse :: int
  ts_local :: sockaddr_in

record udp_conn_ctrl =
  cc_mode :: char
  cc_init :: int
  cc_read_fds :: "int list"

record ('c, 'd, 'a) udp_conn =
  c_udp :: "udp_session option"
  c_tcp :: "tcp_session option"
  c_ctrl :: "udp_conn_ctrl option"
  c_callback :: bool
  c_config :: "'c option"
  c_data :: "'d option"
  c_app :: 'a
  c_trace :: trace

text \<open>
  A backend operation runs on the connection and has an outcome.  \<open>('c, 'd, 'a) callback\<close> is the user's
  \<open>udp_conn_callback\<close>: it gets the reason and the payload and may do what an operation may do, since
  it may call the public functions.
\<close>

type_synonym ('c, 'd, 'a, 'r) op = "('c, 'd, 'a) udp_conn \<Rightarrow> 'r outcome \<times> ('c, 'd, 'a) udp_conn"
type_synonym ('c, 'd, 'a) callback = "int \<Rightarrow> byte list \<Rightarrow> ('c, 'd, 'a, unit) op"

text \<open>
  \<open>udp_conn_generic_api_t\<close>.  Members that the code compares with \<open>NULL\<close> are options.  Output
  parameters are passed in and returned, with \<open>None\<close> for a null pointer.
\<close>

record ('c, 'd, 'a) udp_conn_api =
  api_init :: "('c, 'd, 'a, udp_conn_status) op"
  api_deinit :: "('c, 'd, 'a, udp_conn_status) op"
  api_is_closed :: "('c, 'd, 'a) udp_conn \<Rightarrow> udp_conn_status"
  api_get_timeout :: "timeval \<Rightarrow> ('c, 'd, 'a, udp_conn_status \<times> timeval) op"
  api_process_events :: "('c, 'd, 'a, udp_conn_status) op option"
  api_pending_data :: "('c, 'd, 'a, nat) op option"
  api_hole_punching :: "('c, 'd, 'a, udp_conn_status) op"
  api_connect :: "('c, 'd, 'a, udp_conn_status) op"
  api_udp_send :: "byte list \<Rightarrow> nat option \<Rightarrow> ('c, 'd, 'a, udp_conn_status \<times> nat option) op"
  api_udp_recv :: "byte list option \<Rightarrow> nat \<Rightarrow> nat option
      \<Rightarrow> ('c, 'd, 'a, udp_conn_status \<times> byte list option \<times> nat option) op"
  api_udp_send_ka :: "('c, 'd, 'a, udp_conn_status) op"
  api_disconnect :: "('c, 'd, 'a, udp_conn_status) op"

text \<open>A system call of the connection, and a call of the user's callback.\<close>

definition on_trace :: "(trace \<Rightarrow> 'r \<times> trace) \<Rightarrow> ('c, 'd, 'a) udp_conn \<Rightarrow> 'r \<times> ('c, 'd, 'a) udp_conn" where
  "on_trace f c = (let (r, tr) = f (c_trace c) in (r, c\<lparr>c_trace := tr\<rparr>))"

definition run_callback :: "('c, 'd, 'a) callback \<Rightarrow> int \<Rightarrow> byte list \<Rightarrow> ('c, 'd, 'a, unit) op" where
  "run_callback cb reason bs c =
     (if c_callback c then cb reason bs (c\<lparr>c_trace := EvCallback reason bs # c_trace c\<rparr>)
      else (Fault, c))"

section \<open>The public wrappers of the header\<close>

definition udp_conn_init :: "('c, 'd, 'a) udp_conn_api \<Rightarrow> ('c, 'd, 'a, udp_conn_status) op" where
  "udp_conn_init api conn = api_init api conn"

definition udp_conn_deinit :: "('c, 'd, 'a) udp_conn_api \<Rightarrow> ('c, 'd, 'a, udp_conn_status) op" where
  "udp_conn_deinit api conn = api_deinit api conn"

definition udp_conn_send ::
    "('c, 'd, 'a) udp_conn_api \<Rightarrow> byte list \<Rightarrow> nat option \<Rightarrow> ('c, 'd, 'a, udp_conn_status \<times> nat option) op" where
  "udp_conn_send api buf sent_bytes conn = api_udp_send api buf sent_bytes conn"

definition udp_conn_recv ::
    "('c, 'd, 'a) udp_conn_api \<Rightarrow> byte list option \<Rightarrow> nat \<Rightarrow> nat option
       \<Rightarrow> ('c, 'd, 'a, udp_conn_status \<times> byte list option \<times> nat option) op" where
  "udp_conn_recv api buf nbytes recv_bytes conn = api_udp_recv api buf nbytes recv_bytes conn"

definition udp_conn_disconnect :: "('c, 'd, 'a) udp_conn_api \<Rightarrow> ('c, 'd, 'a, udp_conn_status) op" where
  "udp_conn_disconnect api conn = api_disconnect api conn"

section \<open>Facts\<close>

lemma on_trace_frame [simp]:
  "c_udp (snd (on_trace f c)) = c_udp c"
  "c_tcp (snd (on_trace f c)) = c_tcp c"
  "c_ctrl (snd (on_trace f c)) = c_ctrl c"
  "c_callback (snd (on_trace f c)) = c_callback c"
  "c_config (snd (on_trace f c)) = c_config c"
  "c_data (snd (on_trace f c)) = c_data c"
  "c_app (snd (on_trace f c)) = c_app c"
  "c_trace (snd (on_trace f c)) = snd (f (c_trace c))"
  by (simp_all add: on_trace_def split: prod.splits)

lemma fst_on_trace [simp]: "fst (on_trace f c) = fst (f (c_trace c))"
  by (simp add: on_trace_def split: prod.splits)

lemma on_trace_eq: "on_trace f c = (fst (f (c_trace c)), c\<lparr>c_trace := snd (f (c_trace c))\<rparr>)"
  by (simp add: on_trace_def split: prod.splits)

section \<open>Descriptors\<close>

text \<open>
  The descriptors \<open>select\<close> will watch are absent (-1) or fit an \<open>fd_set\<close>, also after \<open>tcp_bind\<close> in
  server mode took the tunnel's socket for the accepted one.
\<close>

definition fd_ok :: "int \<Rightarrow> bool" where
  "fd_ok fd \<longleftrightarrow> -1 \<le> fd \<and> fd < FD_SETSIZE"

definition fds_ok :: "('c, 'd, 'a) udp_conn \<Rightarrow> bool" where
  "fds_ok c \<longleftrightarrow> (\<forall>us. c_udp c = Some us \<longrightarrow> fd_ok (us_socket_fd us)) \<and>
     (\<forall>ts. c_tcp c = Some ts \<longrightarrow> fd_ok (ts_accepted_sock ts) \<and> ts_socket_fd ts < FD_SETSIZE)"

lemma fd_ok_minus_1 [simp]: "fd_ok (-1)"
  by (simp add: fd_ok_def)

lemma fds_ok_frame [simp]:
  "fds_ok (c\<lparr>c_trace := t\<rparr>) = fds_ok c" "fds_ok (c\<lparr>c_ctrl := k\<rparr>) = fds_ok c"
  "fds_ok (c\<lparr>c_data := d\<rparr>) = fds_ok c" "fds_ok (c\<lparr>c_app := a\<rparr>) = fds_ok c"
  by (simp_all add: fds_ok_def)

end
