(* ===== verification/Chownat.thy ===== *)
theory Chownat
  imports Conn
begin

text \<open>
  The CHOWNAT backend, \<open>chownat/inc/chownat.h\<close> and \<open>chownat/src/chownat.c\<close>: hole punching with the
  control messages \<open>01\<close>, \<open>02\<close>, \<open>03\<close>, data packets \<open>09\<close> with an 8-bit sequence number, retransmission
  requests \<open>08\<close>, and the table of operations it offers to \<open>udp_connection\<close>.
\<close>

section \<open>Data and configuration\<close>

text \<open>
  The macro \<open>size\<close> is \<open>TCP_MTU_SIZE+3\<close> without brackets: as an array bound it is 1027, and the
  expression \<open>size-3\<close> is \<open>TCP_MTU_SIZE+3-3\<close>, that is 1024.
\<close>

abbreviation (input) chownat_size :: nat where "chownat_size \<equiv> 1027"
abbreviation (input) chownat_slots :: nat where "chownat_slots \<equiv> 256"

abbreviation (input) CHOWNAT_UDP_CONNECTED :: int where "CHOWNAT_UDP_CONNECTED \<equiv> 0"
abbreviation (input) CHOWNAT_UDP_RECV_DATA :: int where "CHOWNAT_UDP_RECV_DATA \<equiv> 1"
abbreviation (input) CHOWNAT_UDP_LOST_DATA :: int where "CHOWNAT_UDP_LOST_DATA \<equiv> 2"
abbreviation (input) CHOWNAT_UDP_DATA_SENT :: int where "CHOWNAT_UDP_DATA_SENT \<equiv> 4"

record chownat_data =
  cd_closed :: int
  cd_id :: int
  cd_expected :: int
  cd_buffer :: "byte list list"
  cd_sizes :: "nat list"

record chownat_config =
  cf_udp_recv_timeout_sec :: int
  cf_reuse :: int
  cf_conn_max_attempts :: int
  cf_dconn_max_attempts :: int

type_synonym 'a chownat_conn = "(chownat_config, chownat_data, 'a) udp_conn"
type_synonym ('a, 'r) chownat_op = "(chownat_config, chownat_data, 'a, 'r) op"
type_synonym 'a chownat_callback = "(chownat_config, chownat_data, 'a) callback"

text \<open>The zeroed retransmission store of \<open>memset\<close>.\<close>

definition zero_buffer :: "byte list list" where
  "zero_buffer = replicate chownat_slots (replicate chownat_size 0)"

definition zero_sizes :: "nat list" where
  "zero_sizes = replicate chownat_slots 0"

section \<open>Wire format\<close>

text \<open>The literals \<open>"01\n"\<close>, \<open>"02\n"\<close>, \<open>"03\n"\<close>, \<open>"08"\<close>, \<open>"09"\<close> and the keep-alive \<open>"\0"\<close> as bytes.\<close>

definition msg01 :: "byte list" where "msg01 = [0x30, 0x31, 0x0A]"
definition msg02 :: "byte list" where "msg02 = [0x30, 0x32, 0x0A]"
definition msg03 :: "byte list" where "msg03 = [0x30, 0x33, 0x0A]"
definition msg08 :: "byte list" where "msg08 = [0x30, 0x38]"
definition msg09 :: "byte list" where "msg09 = [0x30, 0x39]"
definition msg_ka :: "byte list" where "msg_ka = [0]"

lemmas msg_defs = msg01_def msg02_def msg03_def msg08_def msg09_def msg_ka_def

text \<open>A data packet, and the request for a retransmission, which is sent with its final zero byte.\<close>

definition data_packet :: "byte \<Rightarrow> byte list \<Rightarrow> byte list" where
  "data_packet i payload = msg09 @ [i] @ payload"

definition request_packet :: "byte \<Rightarrow> byte list" where
  "request_packet i = msg08 @ [i, 0]"

section \<open>Initialisation and the simple operations\<close>

definition set_data :: "chownat_data \<Rightarrow> 'a chownat_conn \<Rightarrow> 'a chownat_conn" where
  "set_data d conn = conn\<lparr>c_data := Some d\<rparr>"

definition chownat_init :: "os \<Rightarrow> ('a, udp_conn_status) chownat_op" where
  "chownat_init os conn =
     (case (c_data conn, c_config conn, c_udp conn, c_ctrl conn) of
        (Some d, Some cfg, Some us, Some k) \<Rightarrow>
          (if \<not> c_callback conn then (Ret UDP_CONN_ERR, conn)
           else if cc_init k \<noteq> 0 then (Ret UDP_CONN_ALREADY_INIT, conn)
           else let fd = us_socket_fd us;
                    tv = \<lparr>tv_sec = cf_udp_recv_timeout_sec cfg, tv_usec = 0\<rparr>;
                    (r1, c1) = on_trace (sys_setsockopt os fd (SO_RCVTIMEO tv)) conn
                in if r1 \<noteq> None then (Ret UDP_CONN_ERR, snd (on_trace (sys_close os fd) c1))
                   else let (r2, c2) = on_trace (sys_setsockopt os fd (SO_REUSEADDR (cf_reuse cfg))) c1
                   in if r2 \<noteq> None then (Ret UDP_CONN_ERR, snd (on_trace (sys_close os fd) c2))
                   else let (r3, c3) = on_trace (sys_bind os fd (us_src us)) c2
                   in if r3 \<noteq> None then (Ret UDP_CONN_ERR, c3)
                   else (Ret UDP_CONN_OK,
                         c3\<lparr>c_data := Some (d\<lparr>cd_id := 0, cd_expected := 0, cd_buffer := zero_buffer,
                                               cd_sizes := zero_sizes, cd_closed := 0\<rparr>),
                            c_ctrl := Some (k\<lparr>cc_init := 1\<rparr>)\<rparr>))
      | _ \<Rightarrow> (Ret UDP_CONN_ERR, conn))"

definition chownat_is_closed :: "'a chownat_conn \<Rightarrow> udp_conn_status" where
  "chownat_is_closed conn =
     (case c_data conn of
        None \<Rightarrow> UDP_CONN_ERR
      | Some d \<Rightarrow> (if cd_closed d \<noteq> 0 then UDP_CONN_CLOSED else UDP_CONN_OK))"

definition chownat_get_timeout :: "timeval \<Rightarrow> ('a, udp_conn_status \<times> timeval) chownat_op" where
  "chownat_get_timeout tv conn =
     (case c_ctrl conn of
        None \<Rightarrow> (Ret (UDP_CONN_ERR, tv), conn)
      | Some k \<Rightarrow>
          (if cc_init k = 0 then (Ret (UDP_CONN_NOT_INIT, tv), conn)
           else (Ret (UDP_CONN_OK, tv\<lparr>tv_sec := 5, tv_usec := 0\<rparr>), conn)))"

text \<open>A failing \<open>sendto\<close> of the keep-alive ends the process.\<close>

definition chownat_udp_send_ka :: "os \<Rightarrow> ('a, udp_conn_status) chownat_op" where
  "chownat_udp_send_ka os conn =
     (case (c_udp conn, c_data conn, c_ctrl conn) of
        (Some us, Some d, Some k) \<Rightarrow>
          (if cc_init k = 0 then (Ret UDP_CONN_NOT_INIT, conn)
           else if cd_closed d \<noteq> 0 then (Ret UDP_CONN_CLOSED, conn)
           else case on_trace (sys_sendto os (us_socket_fd us) msg_ka (us_dst us) False) conn of
                  (Inl e, c1) \<Rightarrow> (Exited (errno_code e), c1)
                | (Inr n, c1) \<Rightarrow> (Ret UDP_CONN_OK, c1))
      | _ \<Rightarrow> (Ret UDP_CONN_ERR, conn))"

section \<open>Hole punching\<close>

text \<open>
  \<open>recv(fd, buffer, 3, 0)\<close> into a four-byte buffer whose last byte is then set to zero; \<open>None\<close> when
  \<open>recv\<close> fails.
\<close>

definition recv3 :: "os \<Rightarrow> int \<Rightarrow> byte list \<Rightarrow> trace \<Rightarrow> byte list option \<times> trace" where
  "recv3 os fd buffer tr =
     (case sys_recv os fd 3 False tr of
        (Inl e, tr') \<Rightarrow> (None, tr')
      | (Inr bs, tr') \<Rightarrow> (Some ((overwrite buffer bs)[3 := 0]), tr'))"

text \<open>
  The client: \<open>attempts\<close> counts down.  Every round sends \<open>01\<close> and waits; the answer \<open>03\<close> is
  confirmed with \<open>03\<close>.
\<close>

fun hole_punching_client ::
    "os \<Rightarrow> int \<Rightarrow> sockaddr_in \<Rightarrow> nat \<Rightarrow> trace \<Rightarrow> udp_conn_status \<times> trace" where
  "hole_punching_client os fd dst 0 tr = (UDP_CONN_ERR, tr)"
| "hole_punching_client os fd dst (Suc attempts) tr =
     (let (_, tr1) = sys_sendto os fd msg01 dst False tr
      in case recv3 os fd (garbage os 4 tr1) tr1 of
           (None, tr2) \<Rightarrow> hole_punching_client os fd dst attempts tr2
         | (Some buffer, tr2) \<Rightarrow>
             (if strncmp_eq 3 buffer (msg03 @ [0])
              then (UDP_CONN_OK, snd (sys_sendto os fd msg03 dst False tr2))
              else hole_punching_client os fd dst attempts tr2))"

text \<open>
  The server's inner loop, entered after a \<open>01\<close>: it answers \<open>03\<close> until the client's \<open>03\<close> arrives.
  Only a failing \<open>recv\<close> uses up an attempt, so the loop takes fuel.  \<open>None\<close> is the way back to the
  outer loop.
\<close>

fun hole_punching_confirm ::
    "os \<Rightarrow> int \<Rightarrow> sockaddr_in \<Rightarrow> nat \<Rightarrow> nat \<Rightarrow> byte list \<Rightarrow> trace
       \<Rightarrow> (udp_conn_status option \<times> byte list) outcome \<times> trace" where
  "hole_punching_confirm os fd dst fuel 0 buffer tr = (Ret (None, buffer), tr)"
| "hole_punching_confirm os fd dst 0 (Suc attempts) buffer tr = (NoFuel, tr)"
| "hole_punching_confirm os fd dst (Suc fuel) (Suc attempts) buffer tr =
     (let (_, tr1) = sys_sendto os fd msg03 dst False tr
      in case recv3 os fd buffer tr1 of
           (None, tr2) \<Rightarrow> hole_punching_confirm os fd dst fuel attempts buffer tr2
         | (Some buffer', tr2) \<Rightarrow>
             (if strcmp_eq buffer' (msg03 @ [0]) then (Ret (Some UDP_CONN_OK, buffer'), tr2)
              else hole_punching_confirm os fd dst fuel (Suc attempts) buffer' tr2))"

text \<open>The server's outer loop: it keeps the mapping open with keep-alives until a \<open>01\<close> arrives.\<close>

fun hole_punching_server ::
    "os \<Rightarrow> int \<Rightarrow> sockaddr_in \<Rightarrow> nat \<Rightarrow> nat \<Rightarrow> nat \<Rightarrow> byte list \<Rightarrow> ('a, udp_conn_status) chownat_op" where
  "hole_punching_server os fd dst fuel max_attempts 0 buffer conn = (Ret UDP_CONN_ERR, conn)"
| "hole_punching_server os fd dst 0 max_attempts (Suc attempts) buffer conn = (NoFuel, conn)"
| "hole_punching_server os fd dst (Suc fuel) max_attempts (Suc attempts) buffer conn =
     (case on_trace (recv3 os fd buffer) conn of
        (None, c1) \<Rightarrow> chain (chownat_udp_send_ka os c1) (\<lambda>_ c2.
            hole_punching_server os fd dst fuel max_attempts attempts buffer c2)
      | (Some buffer', c1) \<Rightarrow>
          (if strncmp_eq 3 buffer' (msg01 @ [0])
           then chain (on_trace (hole_punching_confirm os fd dst fuel max_attempts buffer') c1)
                  (\<lambda>(res, buffer'') c2.
                    case res of
                      Some st \<Rightarrow> (Ret st, c2)
                    | None \<Rightarrow> hole_punching_server os fd dst fuel max_attempts (Suc attempts) buffer'' c2)
           else hole_punching_server os fd dst fuel max_attempts (Suc attempts) buffer' c1))"

definition chownat_hole_punching :: "os \<Rightarrow> nat \<Rightarrow> ('a, udp_conn_status) chownat_op" where
  "chownat_hole_punching os fuel conn =
     (case (c_config conn, c_udp conn, c_ctrl conn) of
        (Some cfg, Some us, Some k) \<Rightarrow>
          (let max_attempts = nat (cf_conn_max_attempts cfg)
           in if cc_init k = 0 then (Ret UDP_CONN_NOT_INIT, conn)
              else if cc_mode k = CHR ''c''
              then (let (st, c1) = on_trace (hole_punching_client os (us_socket_fd us) (us_dst us)
                                               max_attempts) conn
                    in (Ret st, c1))
              else if cc_mode k = CHR ''s''
              then hole_punching_server os (us_socket_fd us) (us_dst us) fuel max_attempts
                     max_attempts (garbage os 4 (c_trace conn)) conn
              else (Ret UDP_CONN_ERR, conn))
      | _ \<Rightarrow> (Ret UDP_CONN_ERR, conn))"

definition chownat_connect :: "'a chownat_callback \<Rightarrow> ('a, udp_conn_status) chownat_op" where
  "chownat_connect cb conn =
     (case (c_data conn, c_ctrl conn) of
        (Some d, Some k) \<Rightarrow>
          (if cc_init k = 0 then (Ret UDP_CONN_NOT_INIT, conn)
           else chain (run_callback cb CHOWNAT_UDP_CONNECTED [] conn) (\<lambda>_ c1. (Ret UDP_CONN_OK, c1)))
      | _ \<Rightarrow> (Ret UDP_CONN_ERR, conn))"

section \<open>Disconnecting\<close>

text \<open>
  The active side: \<open>02\<close> until \<open>03\<close> comes back, which is confirmed with \<open>03\<close>; every other answer
  and every timeout uses up an attempt.
\<close>

fun disconnect_send_loop :: "os \<Rightarrow> int \<Rightarrow> sockaddr_in \<Rightarrow> nat \<Rightarrow> byte list \<Rightarrow> trace \<Rightarrow> trace" where
  "disconnect_send_loop os fd dst 0 buffer tr = tr"
| "disconnect_send_loop os fd dst (Suc attempts) buffer tr =
     (let (_, tr1) = sys_sendto os fd msg02 dst False tr
      in case recv3 os fd buffer tr1 of
           (None, tr2) \<Rightarrow> disconnect_send_loop os fd dst attempts buffer tr2
         | (Some buffer', tr2) \<Rightarrow>
             (if strcmp_eq buffer' (msg03 @ [0])
              then snd (sys_sendto os fd msg03 dst False tr2)
              else disconnect_send_loop os fd dst attempts buffer' tr2))"

text \<open>The TCP clean-up of the active side closes positive descriptors only.\<close>

definition close_tcp_guarded :: "os \<Rightarrow> 'a chownat_conn \<Rightarrow> 'a chownat_conn" where
  "close_tcp_guarded os conn =
     (case c_tcp conn of
        None \<Rightarrow> conn
      | Some ts \<Rightarrow>
          (let (ts1, c1) = (if 0 < ts_socket_fd ts
                            then (ts\<lparr>ts_socket_fd := -1\<rparr>, snd (on_trace (sys_close os (ts_socket_fd ts)) conn))
                            else (ts, conn));
               (ts2, c2) = (if 0 < ts_accepted_sock ts1
                            then (ts1\<lparr>ts_accepted_sock := -1\<rparr>, snd (on_trace (sys_close os (ts_accepted_sock ts1)) c1))
                            else (ts1, c1))
           in c2\<lparr>c_tcp := Some ts2\<rparr>))"

definition finish_disconnect :: "chownat_data \<Rightarrow> 'a chownat_conn \<Rightarrow> 'a chownat_conn" where
  "finish_disconnect d conn = set_data (d\<lparr>cd_id := 0, cd_expected := 0, cd_closed := 1\<rparr>) conn"

definition chownat_disconnect_send :: "os \<Rightarrow> ('a, udp_conn_status) chownat_op" where
  "chownat_disconnect_send os conn =
     (case (c_config conn, c_data conn, c_udp conn, c_ctrl conn) of
        (Some cfg, Some d, Some us, Some k) \<Rightarrow>
          (if cc_init k = 0 then (Ret UDP_CONN_NOT_INIT, conn)
           else if cd_closed d \<noteq> 0 then (Ret UDP_CONN_CLOSED, conn)
           else let tr1 = disconnect_send_loop os (us_socket_fd us) (us_dst us)
                            (nat (cf_conn_max_attempts cfg))
                            (garbage os 4 (c_trace conn)) (c_trace conn);
                    c1 = close_tcp_guarded os (conn\<lparr>c_trace := tr1\<rparr>)
                in (Ret UDP_CONN_OK, finish_disconnect d c1))
      | _ \<Rightarrow> (Ret UDP_CONN_ERR, conn))"

text \<open>
  The passive side, after a \<open>02\<close>: \<open>03\<close> until \<open>03\<close> comes back.  Only a failing \<open>recv\<close> uses up an
  attempt.
\<close>

fun disconnect_recv_loop ::
    "os \<Rightarrow> int \<Rightarrow> sockaddr_in \<Rightarrow> nat \<Rightarrow> nat \<Rightarrow> byte list \<Rightarrow> trace \<Rightarrow> unit outcome \<times> trace" where
  "disconnect_recv_loop os fd dst fuel 0 buffer tr = (Ret (), tr)"
| "disconnect_recv_loop os fd dst 0 (Suc attempts) buffer tr = (NoFuel, tr)"
| "disconnect_recv_loop os fd dst (Suc fuel) (Suc attempts) buffer tr =
     (let (_, tr1) = sys_sendto os fd msg03 dst False tr
      in case recv3 os fd buffer tr1 of
           (None, tr2) \<Rightarrow> disconnect_recv_loop os fd dst fuel attempts buffer tr2
         | (Some buffer', tr2) \<Rightarrow>
             (if strcmp_eq buffer' (msg03 @ [0]) then (Ret (), tr2)
              else disconnect_recv_loop os fd dst fuel (Suc attempts) buffer' tr2))"

text \<open>Its TCP clean-up closes both descriptors unconditionally.\<close>

definition close_tcp_always :: "os \<Rightarrow> 'a chownat_conn \<Rightarrow> 'a chownat_conn" where
  "close_tcp_always os conn =
     (case c_tcp conn of
        None \<Rightarrow> conn
      | Some ts \<Rightarrow>
          (let c1 = snd (on_trace (sys_close os (ts_socket_fd ts)) conn);
               c2 = snd (on_trace (sys_close os (ts_accepted_sock ts)) c1)
           in c2\<lparr>c_tcp := Some (ts\<lparr>ts_socket_fd := -1, ts_accepted_sock := -1\<rparr>)\<rparr>))"

definition chownat_disconnect_recv :: "os \<Rightarrow> nat \<Rightarrow> ('a, udp_conn_status) chownat_op" where
  "chownat_disconnect_recv os fuel conn =
     (case (c_config conn, c_data conn, c_udp conn, c_ctrl conn) of
        (Some cfg, Some d, Some us, Some k) \<Rightarrow>
          (if cc_init k = 0 then (Ret UDP_CONN_NOT_INIT, conn)
           else if cd_closed d \<noteq> 0 then (Ret UDP_CONN_CLOSED, conn)
           else chain (on_trace (disconnect_recv_loop os (us_socket_fd us) (us_dst us) fuel
                         (nat (cf_conn_max_attempts cfg)) (garbage os 4 (c_trace conn))) conn)
                  (\<lambda>_ c1. (Ret UDP_CONN_OK, finish_disconnect d (close_tcp_always os c1))))
      | _ \<Rightarrow> (Ret UDP_CONN_ERR, conn))"

text \<open>Deinitialisation: disconnect when still open, then close what is left.\<close>

definition close_positive :: "os \<Rightarrow> int \<Rightarrow> ('c, 'd, 'a) udp_conn \<Rightarrow> ('c, 'd, 'a) udp_conn" where
  "close_positive os fd conn = (if 0 < fd then snd (on_trace (sys_close os fd) conn) else conn)"

definition chownat_deinit :: "os \<Rightarrow> ('a, udp_conn_status) chownat_op" where
  "chownat_deinit os conn =
     (case (c_udp conn, c_ctrl conn, c_data conn) of
        (Some us, Some k, Some d) \<Rightarrow>
          (if cc_init k = 0 then (Ret UDP_CONN_NOT_INIT, conn)
           else chain (if cd_closed d = 0 then chownat_disconnect_send os conn else (Ret UDP_CONN_OK, conn))
                  (\<lambda>_ c1.
                    let c2 = close_positive os (us_socket_fd us) c1;
                        c3 = (case c_tcp c2 of
                                None \<Rightarrow> c2
                              | Some ts \<Rightarrow> close_positive os (ts_socket_fd ts)
                                             (close_positive os (ts_accepted_sock ts) c2))
                    in (Ret UDP_CONN_OK, c3\<lparr>c_ctrl := Some (k\<lparr>cc_init := 0\<rparr>)\<rparr>)))
      | _ \<Rightarrow> (Ret UDP_CONN_ERR, conn))"

section \<open>Sending data\<close>

text \<open>
  The payload is stored in the slot of its sequence number, the number advances, and the packet is
  sent; the slot is used up even if \<open>sendto\<close> fails.  An index outside the slots or a payload that
  does not fit the slot or the packet is undefined behaviour.  \<open>*sent_bytes\<close> is the \<open>size_t\<close> of
  \<open>sent - 3\<close>.
\<close>

definition next_seq :: "int \<Rightarrow> int" where
  "next_seq n = (if n + 1 = 256 then 0 else n + 1)"

definition chownat_udp_send ::
    "os \<Rightarrow> 'a chownat_callback \<Rightarrow> byte list \<Rightarrow> nat option \<Rightarrow> ('a, udp_conn_status \<times> nat option) chownat_op" where
  "chownat_udp_send os cb buf sent_bytes conn =
     (case (c_udp conn, c_data conn, c_ctrl conn) of
        (Some us, Some d, Some k) \<Rightarrow>
          (if cc_init k = 0 then (Ret (UDP_CONN_NOT_INIT, sent_bytes), conn)
           else if cd_closed d \<noteq> 0 then (Ret (UDP_CONN_CLOSED, sent_bytes), conn)
           else if length buf > TCP_MTU_SIZE + 3 - 3 then (Ret (UDP_CONN_ERR, sent_bytes), conn)
           else if cd_id d < 0 \<or> int (length (cd_buffer d)) \<le> cd_id d \<or>
                   chownat_size < length buf + 3 then (Fault, conn)
           else let i = nat (cd_id d);
                    d1 = d\<lparr>cd_buffer := (cd_buffer d)[i := overwrite (cd_buffer d ! i) buf],
                           cd_sizes := (cd_sizes d)[i := length buf],
                           cd_id := next_seq (cd_id d)\<rparr>;
                    packet = data_packet (word_of_int (cd_id d)) buf
                in case on_trace (sys_sendto os (us_socket_fd us) packet (us_dst us) False)
                          (set_data d1 conn) of
                     (Inl e, c1) \<Rightarrow> (Ret (UDP_CONN_ERR, sent_bytes), c1)
                   | (Inr sent, c1) \<Rightarrow>
                       (let sent' = map_option (\<lambda>_. nat ((int sent - 3) mod 2 ^ 64)) sent_bytes
                        in chain (run_callback cb CHOWNAT_UDP_DATA_SENT buf c1)
                             (\<lambda>_ c2. (Ret (UDP_CONN_OK, sent'), c2))))
      | _ \<Rightarrow> (Ret (UDP_CONN_ERR, sent_bytes), conn))"

section \<open>Receiving\<close>

text \<open>
  The retransmission loop of a request \<open>08\<close>: \<open>for (uint8_t i = got; i < id; i++)\<close>, where the counter
  is one byte and \<open>id\<close> an \<open>int\<close>.  The datagram is built in an array of \<open>size\<close> bytes, and as many bytes
  are sent as the payload has.
\<close>

fun retransmit ::
    "os \<Rightarrow> int \<Rightarrow> sockaddr_in \<Rightarrow> chownat_data \<Rightarrow> nat \<Rightarrow> byte \<Rightarrow> trace \<Rightarrow> unit outcome \<times> trace" where
  "retransmit os fd dst d 0 i tr = (NoFuel, tr)"
| "retransmit os fd dst d (Suc fuel) i tr =
     (if \<not> uint i < cd_id d then (Ret (), tr)
      else if length (cd_sizes d) \<le> unat i \<or> length (cd_buffer d) \<le> unat i \<or>
              chownat_size < cd_sizes d ! unat i + 3 then (Fault, tr)
      else let n = cd_sizes d ! unat i;
               outbuf = data_packet i (take n (cd_buffer d ! unat i));
               (_, tr1) = sys_sendto os fd (take n outbuf) dst False tr
           in retransmit os fd dst d fuel (i + 1) tr1)"

definition on_request :: "os \<Rightarrow> 'a chownat_callback \<Rightarrow> nat \<Rightarrow> udp_session \<Rightarrow> chownat_data
      \<Rightarrow> byte list \<Rightarrow> ('a, udp_conn_status) chownat_op" where
  "on_request os cb fuel us d msg conn =
     chain (on_trace (retransmit os (us_socket_fd us) (us_dst us) d fuel (msg ! 2)) conn) (\<lambda>_ c1.
       chain (run_callback cb CHOWNAT_UDP_LOST_DATA msg c1) (\<lambda>_ c2. (Ret UDP_CONN_OK, c2)))"

text \<open>
  A data packet: the expected one is delivered, cut to the caller's buffer, and the expectation
  advances; any other is answered with a request for the expected one.  Writing behind the end of the
  caller's buffer is undefined behaviour.
\<close>

definition on_data :: "os \<Rightarrow> 'a chownat_callback \<Rightarrow> udp_session \<Rightarrow> chownat_data \<Rightarrow> byte list \<Rightarrow> byte list
      \<Rightarrow> nat \<Rightarrow> ('a, udp_conn_status \<times> byte list option \<times> nat option) chownat_op" where
  "on_data os cb us d msg buf nbytes conn =
     (let got = msg ! 2
      in if uint got \<noteq> cd_expected d
         then (Ret (UDP_CONN_OK, Some buf, Some 0),
               snd (on_trace (sys_sendto os (us_socket_fd us)
                                (request_packet (word_of_int (cd_expected d))) (us_dst us) False) conn))
         else let d1 = d\<lparr>cd_expected := next_seq (cd_expected d)\<rparr>;
                  payload = drop 3 msg;
                  copied = min (length payload) nbytes;
                  buf' = overwrite buf (take copied payload)
              in if length buf < copied then (Fault, conn)
                 else chain (run_callback cb CHOWNAT_UDP_RECV_DATA (take copied payload) (set_data d1 conn))
                   (\<lambda>_ c1. (Ret (if copied < length payload then UDP_CONN_OK_TRUNCATED else UDP_CONN_OK,
                                 Some buf', Some copied), c1)))"

definition set_closed :: "'a chownat_conn \<Rightarrow> 'a chownat_conn" where
  "set_closed conn = conn\<lparr>c_data := map_option (\<lambda>d. d\<lparr>cd_closed := 1\<rparr>) (c_data conn)\<rparr>"

definition chownat_udp_recv ::
    "os \<Rightarrow> 'a chownat_callback \<Rightarrow> nat \<Rightarrow> byte list option \<Rightarrow> nat \<Rightarrow> nat option
       \<Rightarrow> ('a, udp_conn_status \<times> byte list option \<times> nat option) chownat_op" where
  "chownat_udp_recv os cb fuel buf nbytes recv_bytes conn =
     (case (c_udp conn, c_data conn, c_ctrl conn) of
        (Some us, Some d, Some k) \<Rightarrow>
          (case (buf, recv_bytes) of
             (Some m, Some _) \<Rightarrow>
               (if cc_init k = 0 then (Ret (UDP_CONN_NOT_INIT, buf, Some 0), conn)
                else if cd_closed d \<noteq> 0 then (Ret (UDP_CONN_CLOSED, buf, Some 0), conn)
                else case on_trace (sys_recv os (us_socket_fd us) chownat_size False) conn of
                       (Inl e, c1) \<Rightarrow> (Ret (UDP_CONN_ERR, buf, Some 0), set_closed c1)
                     | (Inr msg, c1) \<Rightarrow>
                         (if length msg < 3 then (Ret (UDP_CONN_OK, buf, Some 0), c1)
                          else if strncmp_eq 3 msg (msg02 @ [0])
                          then chain (chownat_disconnect_recv os fuel c1)
                                 (\<lambda>_ c2. (Ret (UDP_CONN_ERR, buf, Some 0), set_closed c2))
                          else if strncmp_eq 3 msg (msg03 @ [0]) then (Ret (UDP_CONN_OK, buf, Some 0), c1)
                          else if strncmp_eq 2 msg (msg08 @ [0])
                          then chain (on_request os cb fuel us d msg c1)
                                 (\<lambda>st c2. (Ret (st, buf, Some 0), c2))
                          else if strncmp_eq 2 msg (msg09 @ [0])
                          then on_data os cb us d msg m nbytes c1
                          else (Ret (UDP_CONN_OK, buf, Some 0), c1)))
           | _ \<Rightarrow> (Ret (UDP_CONN_ERR, buf, recv_bytes), conn))
      | _ \<Rightarrow> (Ret (UDP_CONN_ERR, buf, recv_bytes), conn))"

section \<open>The table of operations\<close>

definition chownat_api :: "os \<Rightarrow> 'a chownat_callback \<Rightarrow> nat \<Rightarrow> (chownat_config, chownat_data, 'a) udp_conn_api" where
  "chownat_api os cb fuel = \<lparr>
     api_init = chownat_init os,
     api_deinit = chownat_deinit os,
     api_is_closed = chownat_is_closed,
     api_get_timeout = chownat_get_timeout,
     api_process_events = None,
     api_pending_data = None,
     api_hole_punching = chownat_hole_punching os fuel,
     api_connect = chownat_connect cb,
     api_udp_send = chownat_udp_send os cb,
     api_udp_recv = chownat_udp_recv os cb fuel,
     api_udp_send_ka = chownat_udp_send_ka os,
     api_disconnect = chownat_disconnect_send os\<rparr>"

end
