(* ===== verification/Api_Calls.thy ===== *)
theory Api_Calls
  imports Conn
begin

text \<open>
  Sequences of calls through a backend's table of operations, as an application or the main loop may
  make them: the optional operations are called only if the table has them.
\<close>

text \<open>One call through the table of operations, its results dropped.\<close>

datatype api_call = KInit | KDeinit | KTimeout timeval | KHolePunching | KConnect
  | KSend "byte list" "nat option" | KRecv "byte list option" nat "nat option" | KSendKa | KDisconnect
  | KProcess | KPending

definition drop_result :: "'r outcome \<times> 's \<Rightarrow> unit outcome \<times> 's" where
  "drop_result r = chain r (\<lambda>_ s. (Ret (), s))"

fun api_step :: "('c, 'd, 'a) udp_conn_api \<Rightarrow> api_call \<Rightarrow> ('c, 'd, 'a, unit) op" where
  "api_step api KInit c = drop_result (udp_conn_init api c)"
| "api_step api KDeinit c = drop_result (udp_conn_deinit api c)"
| "api_step api (KTimeout tv) c = drop_result (api_get_timeout api tv c)"
| "api_step api KHolePunching c = drop_result (api_hole_punching api c)"
| "api_step api KConnect c = drop_result (api_connect api c)"
| "api_step api (KSend b n) c = drop_result (udp_conn_send api b n c)"
| "api_step api (KRecv b n r) c = drop_result (udp_conn_recv api b n r c)"
| "api_step api KSendKa c = drop_result (api_udp_send_ka api c)"
| "api_step api KDisconnect c = drop_result (udp_conn_disconnect api c)"
| "api_step api KProcess c =
     (case api_process_events api of None \<Rightarrow> (Ret (), c) | Some p \<Rightarrow> drop_result (p c))"
| "api_step api KPending c =
     (case api_pending_data api of None \<Rightarrow> (Ret (), c) | Some q \<Rightarrow> drop_result (q c))"

fun api_steps :: "('c, 'd, 'a) udp_conn_api \<Rightarrow> api_call list \<Rightarrow> ('c, 'd, 'a, unit) op" where
  "api_steps api [] c = (Ret (), c)"
| "api_steps api (k # ks) c = chain (api_step api k c) (\<lambda>_ c'. api_steps api ks c')"

text \<open>The receive buffer has the size the caller states.\<close>

fun call_ok :: "api_call \<Rightarrow> bool" where
  "call_ok (KRecv (Some m) n r) = (n \<le> length m)"
| "call_ok _ = True"

lemma drop_result_keeps [simp]: "keeps P (drop_result r) = keeps P r"
  by (cases r; cases "fst r") (auto simp: drop_result_def)

end
