(* ===== verification/Chownat_Inv.thy ===== *)
theory Chownat_Inv
  imports Chownat Api_Calls
begin

text \<open>
  Memory safety of the CHOWNAT backend: the well-formedness of its data, the invariant of an
  initialised connection, and the proof that every operation keeps it and never touches memory
  outside its arrays.  The user's callback is an interface: it has to keep the invariant.
\<close>

section \<open>Well-formed data\<close>

definition chownat_wf :: "chownat_data \<Rightarrow> bool" where
  "chownat_wf d \<longleftrightarrow>
     length (cd_buffer d) = 256 \<and> (\<forall>row \<in> set (cd_buffer d). length row = chownat_size) \<and>
     length (cd_sizes d) = 256 \<and> (\<forall>n \<in> set (cd_sizes d). n \<le> TCP_MTU_SIZE) \<and>
     0 \<le> cd_id d \<and> cd_id d < 256 \<and> 0 \<le> cd_expected d \<and> cd_expected d < 256"

definition chownat_inv :: "'a chownat_conn \<Rightarrow> bool" where
  "chownat_inv conn \<longleftrightarrow> c_udp conn \<noteq> None \<and> c_config conn \<noteq> None \<and> c_callback conn \<and> fds_ok conn \<and>
     (case (c_data conn, c_ctrl conn) of
        (Some d, Some k) \<Rightarrow> cc_init k \<noteq> 0 \<longrightarrow> chownat_wf d
      | _ \<Rightarrow> False)"

lemma chownat_invE:
  assumes "chownat_inv c"
  obtains us cfg d k where "c_udp c = Some us" "c_config c = Some cfg" "c_data c = Some d"
    "c_ctrl c = Some k" "c_callback c" "cc_init k \<noteq> 0 \<Longrightarrow> chownat_wf d" "fds_ok c"
  using assms by (auto simp: chownat_inv_def split: option.splits)

lemma chownat_inv_trace [simp]: "chownat_inv (c\<lparr>c_trace := t\<rparr>) = chownat_inv c"
  by (simp add: chownat_inv_def)

lemma chownat_inv_on_trace [simp]: "chownat_inv (snd (on_trace f c)) = chownat_inv c"
  by (simp add: on_trace_eq)

lemma on_trace_pair: "on_trace f c = (r, c') \<Longrightarrow> c' = c\<lparr>c_trace := c_trace c'\<rparr>"
  by (auto simp: on_trace_def split: prod.splits)

lemma next_seq_range [simp]:
  "0 \<le> n \<Longrightarrow> n < 256 \<Longrightarrow> 0 \<le> next_seq n \<and> next_seq n < 256"
  by (simp add: next_seq_def)

lemma wf_zero [simp]: "chownat_wf (d\<lparr>cd_id := 0, cd_expected := 0, cd_buffer := zero_buffer,
    cd_sizes := zero_sizes\<rparr>)"
  by (simp add: chownat_wf_def zero_buffer_def zero_sizes_def)

lemma wf_closed [simp]:
  "chownat_wf (d\<lparr>cd_closed := n\<rparr>) = chownat_wf d"
  "chownat_wf d \<Longrightarrow> chownat_wf (d\<lparr>cd_id := 0, cd_expected := 0\<rparr>)"
  by (simp_all add: chownat_wf_def)

lemma wf_expected: "chownat_wf d \<Longrightarrow> chownat_wf (d\<lparr>cd_expected := next_seq (cd_expected d)\<rparr>)"
  by (simp add: chownat_wf_def)

lemma wf_store:
  assumes "chownat_wf d" and "length buf \<le> TCP_MTU_SIZE" and "i = nat (cd_id d)"
  shows "chownat_wf (d\<lparr>cd_buffer := (cd_buffer d)[i := overwrite (cd_buffer d ! i) buf],
     cd_sizes := (cd_sizes d)[i := length buf], cd_id := next_seq (cd_id d)\<rparr>)"
proof -
  have "i < length (cd_buffer d)" using assms by (auto simp: chownat_wf_def)
  then have "length (cd_buffer d ! i) = chownat_size" using assms(1) by (auto simp: chownat_wf_def)
  then have "length (overwrite (cd_buffer d ! i) buf) = chownat_size" using assms(2) by simp
  then show ?thesis using assms
    by (auto simp: chownat_wf_def dest!: set_update_subset_insert [THEN subsetD])
qed

text \<open>A connection that differs only in trace, TCP session and application memory.\<close>

lemma chownat_inv_data:
  "chownat_inv c \<Longrightarrow> c_ctrl c = Some k \<Longrightarrow> cc_init k \<noteq> 0 \<longrightarrow> chownat_wf d \<Longrightarrow>
     chownat_inv (c\<lparr>c_data := Some d\<rparr>)"
  by (auto simp: chownat_inv_def split: option.splits)

lemma chownat_inv_set_closed: "chownat_inv c \<Longrightarrow> chownat_inv (set_closed c)"
  by (auto simp: chownat_inv_def set_closed_def split: option.splits)

section \<open>Loops on the trace never leave their arrays\<close>

lemma below_id:
  assumes "uint (i :: byte) < cd_id d" and "chownat_wf d"
  shows "unat i < 255"
proof -
  have "uint i < 255" using assms unfolding chownat_wf_def by linarith
  then show ?thesis by (metis of_nat_less_iff of_nat_numeral of_nat_unat)
qed

lemma retransmit_keeps:
  assumes "chownat_wf d"
  shows "fst (retransmit os fd dst d fuel i tr) \<noteq> Fault"
  using assms
proof (induction fuel arbitrary: i tr)
  case (Suc fuel)
  show ?case
  proof (cases "uint i < cd_id d")
    case True
    then have i: "unat i < 256" using Suc.prems by (fastforce dest: below_id)
    then have "cd_sizes d ! unat i \<in> set (cd_sizes d)" using Suc.prems by (simp add: chownat_wf_def)
    then have "\<not> TCP_MTU_SIZE < cd_sizes d ! unat i"
      using Suc.prems unfolding chownat_wf_def not_less by blast
    with i Suc True show ?thesis by (simp add: chownat_wf_def Let_def split: prod.splits)
  qed simp
qed simp

text \<open>The counter is one byte and \<open>id\<close> is at most 255: 256 rounds are enough.\<close>

lemma retransmit_returns:
  assumes "chownat_wf d" and "256 - unat i < fuel"
  shows "\<exists>tr'. retransmit os fd dst d fuel i tr = (Ret (), tr')"
  using assms
proof (induction fuel arbitrary: i tr)
  case (Suc fuel)
  show ?case
  proof (cases "uint i < cd_id d")
    case True
    then have lt: "unat i < 255" using Suc.prems by (fastforce dest: below_id)
    then have next_i: "unat (i + 1) = unat i + 1" by (simp add: unat_word_ariths)
    have "fst (retransmit os fd dst d (Suc fuel) i tr) \<noteq> Fault"
      using Suc.prems(1) by (rule retransmit_keeps)
    with True Suc next_i lt show ?thesis by (auto simp: Let_def split: prod.splits if_splits)
  qed simp
qed simp

lemma confirm_keeps: "fst (hole_punching_confirm os fd dst fuel n buf tr) \<noteq> Fault"
  by (induction os fd dst fuel n buf tr rule: hole_punching_confirm.induct)
     (auto split: prod.splits option.splits)

lemma disconnect_recv_loop_keeps: "fst (disconnect_recv_loop os fd dst fuel n buf tr) \<noteq> Fault"
  by (induction os fd dst fuel n buf tr rule: disconnect_recv_loop.induct)
     (auto split: prod.splits option.splits)

lemma keeps_on_trace:
  "chownat_inv c \<Longrightarrow> fst (f (c_trace c)) \<noteq> Fault \<Longrightarrow> keeps chownat_inv (on_trace f c)"
  by (simp add: keeps_def)

section \<open>The operations without a callback\<close>

lemma keeps_pair: "x \<noteq> Fault \<Longrightarrow> P s \<Longrightarrow> keeps P (x, s)"
  by (simp add: keeps_def)

lemma init_keeps: "chownat_inv c \<Longrightarrow> keeps chownat_inv (chownat_init os c)"
  by (erule chownat_invE)
     (auto simp: chownat_init_def on_trace_eq Let_def chownat_inv_def wf_zero split: option.splits)

lemma send_ka_keeps: "chownat_inv c \<Longrightarrow> keeps chownat_inv (chownat_udp_send_ka os c)"
  by (auto simp: chownat_udp_send_ka_def on_trace_eq split: option.splits sum.splits prod.splits)

lemma server_keeps:
  "chownat_inv c \<Longrightarrow> keeps chownat_inv (hole_punching_server os fd dst fuel m n buf c)"
proof (induction os fd dst fuel m n buf c rule: hole_punching_server.induct)
  case (3 os fd dst fuel m n buf c)
  then show ?case
    by (auto simp: Let_def on_trace_eq confirm_keeps send_ka_keeps
        split: prod.splits option.splits intro!: keeps_chain keeps_pair)
qed simp_all

lemma hole_punching_keeps:
  "chownat_inv c \<Longrightarrow> keeps chownat_inv (chownat_hole_punching os fuel c)"
  by (auto simp: chownat_hole_punching_def on_trace_eq server_keeps Let_def split: option.splits)

lemma close_tcp_guarded_frame [simp]:
  "c_udp (close_tcp_guarded os c) = c_udp c" "c_ctrl (close_tcp_guarded os c) = c_ctrl c"
  "c_config (close_tcp_guarded os c) = c_config c" "c_data (close_tcp_guarded os c) = c_data c"
  "c_callback (close_tcp_guarded os c) = c_callback c" "c_app (close_tcp_guarded os c) = c_app c"
  by (auto simp: close_tcp_guarded_def Let_def split: option.splits)

lemma close_tcp_always_frame [simp]:
  "c_udp (close_tcp_always os c) = c_udp c" "c_ctrl (close_tcp_always os c) = c_ctrl c"
  "c_config (close_tcp_always os c) = c_config c" "c_data (close_tcp_always os c) = c_data c"
  "c_callback (close_tcp_always os c) = c_callback c" "c_app (close_tcp_always os c) = c_app c"
  by (auto simp: close_tcp_always_def Let_def split: option.splits)

lemma close_tcp_fds:
  "fds_ok c \<Longrightarrow> fds_ok (close_tcp_guarded os c)" "fds_ok c \<Longrightarrow> fds_ok (close_tcp_always os c)"
  by (auto simp: close_tcp_guarded_def close_tcp_always_def fds_ok_def Let_def split: option.splits)

lemma close_positive_fds [simp]: "fds_ok (close_positive os fd c) = fds_ok c"
  by (simp add: close_positive_def on_trace_eq)

lemma close_positive_frame [simp]:
  "c_udp (close_positive os fd c) = c_udp c" "c_ctrl (close_positive os fd c) = c_ctrl c"
  "c_config (close_positive os fd c) = c_config c" "c_data (close_positive os fd c) = c_data c"
  "c_callback (close_positive os fd c) = c_callback c" "c_app (close_positive os fd c) = c_app c"
  "c_tcp (close_positive os fd c) = c_tcp c"
  by (auto simp: close_positive_def)

lemma finish_keeps:
  assumes "chownat_inv c" and "c_data c = Some d" and "c_ctrl c = Some k"
    and "c_udp c' = c_udp c" "c_ctrl c' = c_ctrl c" "c_config c' = c_config c"
    and "c_callback c' = c_callback c" and "fds_ok c \<Longrightarrow> fds_ok c'"
  shows "chownat_inv (finish_disconnect d c')"
  using assms by (auto simp: chownat_inv_def finish_disconnect_def set_data_def)

lemma disconnect_send_keeps:
  "chownat_inv c \<Longrightarrow> keeps chownat_inv (chownat_disconnect_send os c)"
  by (auto simp: chownat_disconnect_send_def Let_def split: option.splits intro!: finish_keeps close_tcp_fds)

lemma disconnect_recv_keeps:
  "chownat_inv c \<Longrightarrow> keeps chownat_inv (chownat_disconnect_recv os fuel c)"
  by (auto simp: chownat_disconnect_recv_def on_trace_eq disconnect_recv_loop_keeps
      split: option.splits intro!: keeps_chain keeps_pair finish_keeps close_tcp_fds)

lemma chain_const_keeps:
  "keeps P r \<Longrightarrow> keeps P (chain r (\<lambda>_ c. (Ret v, c)))"
  by (rule keeps_chain) auto

lemma deinit_keeps: "chownat_inv c \<Longrightarrow> keeps chownat_inv (chownat_deinit os c)"
  by (auto simp: chownat_deinit_def Let_def disconnect_send_keeps split: option.splits
      intro!: keeps_chain) (auto simp: chownat_inv_def split: option.splits)

section \<open>The operations that call the user\<close>

text \<open>
  What the backend relies on when it calls the user's function: it may send, disconnect, and change
  the application's memory, but it must leave the connection well formed.
\<close>

locale chownat_user =
  fixes cb :: "'a chownat_callback"
  assumes cb_keeps: "chownat_inv c \<Longrightarrow> keeps chownat_inv (cb reason bs c)"
begin

lemma run_callback_keeps: "chownat_inv c \<Longrightarrow> keeps chownat_inv (run_callback cb reason bs c)"
  by (auto simp: run_callback_def cb_keeps chownat_inv_def elim: chownat_invE)

lemma connect_keeps: "chownat_inv c \<Longrightarrow> keeps chownat_inv (chownat_connect cb c)"
  by (auto simp: chownat_connect_def run_callback_keeps split: option.splits intro!: keeps_chain)

lemma udp_send_keeps:
  assumes "chownat_inv c"
  shows "keeps chownat_inv (chownat_udp_send os cb buf n c)"
  using assms
proof (rule chownat_invE)
  fix us cfg d k
  assume c: "c_udp c = Some us" "c_config c = Some cfg" "c_data c = Some d"
    "c_ctrl c = Some k" "c_callback c" "cc_init k \<noteq> 0 \<Longrightarrow> chownat_wf d"
  show ?thesis
  proof (cases "cc_init k = 0")
    case True
    with c assms show ?thesis by (simp add: chownat_udp_send_def)
  next
    case False
    with c have "chownat_wf d" by simp
    moreover from this have "0 \<le> cd_id d" "cd_id d < 256" "length (cd_buffer d) = 256"
      by (simp_all add: chownat_wf_def)
    ultimately show ?thesis using c assms
      by (auto simp: chownat_udp_send_def Let_def on_trace_eq set_data_def
          split: sum.splits intro!: keeps_chain run_callback_keeps chownat_inv_data wf_store)
  qed
qed

lemma on_request_keeps:
  "chownat_inv c \<Longrightarrow> chownat_wf d \<Longrightarrow> keeps chownat_inv (on_request os cb fuel us d msg c)"
  by (auto simp: on_request_def on_trace_eq retransmit_keeps
      intro!: keeps_chain keeps_pair run_callback_keeps)

lemma on_data_keeps:
  assumes "chownat_inv c" and "c_ctrl c = Some k" and "chownat_wf d" and "n \<le> length buf"
  shows "keeps chownat_inv (on_data os cb us d msg buf n c)"
  using assms
  by (auto simp: on_data_def Let_def set_data_def
      intro!: keeps_chain run_callback_keeps chownat_inv_data wf_expected)

lemma udp_recv_keeps:
  assumes "chownat_inv c" and "\<And>m. buf = Some m \<Longrightarrow> n \<le> length m"
  shows "keeps chownat_inv (chownat_udp_recv os cb fuel buf n r c)"
  using assms(1)
proof (rule chownat_invE)
  fix us cfg d k
  assume c: "c_udp c = Some us" "c_config c = Some cfg" "c_data c = Some d"
    "c_ctrl c = Some k" "c_callback c" "cc_init k \<noteq> 0 \<Longrightarrow> chownat_wf d"
  then show ?thesis using assms
    by (auto simp: chownat_udp_recv_def on_trace_eq split: option.splits sum.splits
        intro!: keeps_chain on_request_keeps on_data_keeps disconnect_recv_keeps chownat_inv_set_closed)
qed

end

end
