(* ===== verification/Chownat_App.thy ===== *)
theory Chownat_App
  imports Chownat_Inv
begin

text \<open>
  An application on top of the CHOWNAT backend, \<open>tests/WebRTC/test_chownat_udp\<close>: a request/response
  protocol of three rounds that lives in the connection's callback and calls the public functions
  from inside it.  It is the model's instance of the callback contract, and the memory safety of the
  whole backend is stated here.
\<close>

section \<open>The application's memory and messages\<close>

record udp_test_app =
  ap_completed_rounds :: nat
  ap_test_failed :: bool

abbreviation (input) TEST_ROUNDS :: nat where "TEST_ROUNDS \<equiv> 3"

definition test_message :: "string \<Rightarrow> nat \<Rightarrow> byte list" where
  "test_message kind round = ascii ''UDP '' @ ascii kind @ ascii '' '' @ decimal round"

section \<open>The callback\<close>

definition fail_test ::
    "(chownat_config, chownat_data, udp_test_app) udp_conn_api \<Rightarrow> (udp_test_app, unit) chownat_op" where
  "fail_test api conn =
     chain (udp_conn_disconnect api (conn\<lparr>c_app := (c_app conn)\<lparr>ap_test_failed := True\<rparr>\<rparr>))
       (\<lambda>_ c. (Ret (), c))"

text \<open>\<open>send_message\<close>: a message that does not fit its array of 64 bytes, an error and a short count fail
  the test.\<close>

definition send_message ::
    "(chownat_config, chownat_data, udp_test_app) udp_conn_api \<Rightarrow> string \<Rightarrow> nat
       \<Rightarrow> (udp_test_app, bool) chownat_op" where
  "send_message api kind round conn =
     (let message = test_message kind round; len = length message
      in if 64 \<le> len then chain (fail_test api conn) (\<lambda>_ c. (Ret False, c))
         else chain (udp_conn_send api message (Some 0) conn) (\<lambda>(st, sent) c.
                if is_err st \<or> sent \<noteq> Some len then chain (fail_test api c) (\<lambda>_ c'. (Ret False, c'))
                else (Ret True, c)))"

text \<open>After a validated round: the client asks again, or disconnects when all rounds are done.\<close>

definition round_completed ::
    "(chownat_config, chownat_data, udp_test_app) udp_conn_api \<Rightarrow> char \<Rightarrow> (udp_test_app, unit) chownat_op" where
  "round_completed api mode conn =
     (let rounds = ap_completed_rounds (c_app conn) + 1;
          c1 = conn\<lparr>c_app := (c_app conn)\<lparr>ap_completed_rounds := rounds\<rparr>\<rparr>
      in if mode \<noteq> CHR ''c'' then (Ret (), c1)
         else if rounds < TEST_ROUNDS
         then chain (send_message api ''request'' rounds c1) (\<lambda>_ c2. (Ret (), c2))
         else chain (udp_conn_disconnect api c1) (\<lambda>st c2.
                if is_err st then (Ret (), c2\<lparr>c_app := (c_app c2)\<lparr>ap_test_failed := True\<rparr>\<rparr>)
                else (Ret (), c2)))"

definition calback_body ::
    "(chownat_config, chownat_data, udp_test_app) udp_conn_api \<Rightarrow> udp_test_app chownat_callback" where
  "calback_body api reason data_in conn =
     (if ap_test_failed (c_app conn) \<or> c_tcp conn \<noteq> None then (Ret (), conn)
      else case c_ctrl conn of
        None \<Rightarrow> (if reason \<noteq> CHOWNAT_UDP_CONNECTED \<and> reason \<noteq> CHOWNAT_UDP_RECV_DATA
                 then (Ret (), conn) else (Fault, conn))
      | Some k \<Rightarrow>
          (if reason = CHOWNAT_UDP_CONNECTED
           then (if cc_mode k = CHR ''c''
                 then chain (send_message api ''request'' 0 conn) (\<lambda>_ c. (Ret (), c))
                 else (Ret (), conn))
           else if reason \<noteq> CHOWNAT_UDP_RECV_DATA then (Ret (), conn)
           else let rounds = ap_completed_rounds (c_app conn);
                    expected = test_message (if cc_mode k = CHR ''c'' then ''response'' else ''request'') rounds
                in if TEST_ROUNDS \<le> rounds \<or> 64 \<le> length expected \<or> data_in \<noteq> expected
                   then fail_test api conn
                   else if cc_mode k = CHR ''s''
                   then chain (send_message api ''response'' rounds conn) (\<lambda>ok c.
                          if ok then round_completed api (cc_mode k) c else (Ret (), c))
                   else round_completed api (cc_mode k) conn))"

text \<open>
  The callback sends, sending calls the callback again: \<open>depth\<close> bounds the nesting.  The nested call
  has the reason \<open>CHOWNAT_UDP_DATA_SENT\<close> and returns at once, so two levels are enough.
\<close>

fun udp_conn_calback :: "os \<Rightarrow> nat \<Rightarrow> nat \<Rightarrow> udp_test_app chownat_callback" where
  "udp_conn_calback os fuel 0 reason data_in conn = (NoFuel, conn)"
| "udp_conn_calback os fuel (Suc depth) reason data_in conn =
     calback_body (chownat_api os (udp_conn_calback os fuel depth) fuel) reason data_in conn"

section \<open>The callback keeps the contract\<close>

lemma chownat_inv_app [simp]: "chownat_inv (c\<lparr>c_app := a\<rparr>) = chownat_inv c"
  by (simp add: chownat_inv_def)

context chownat_user
begin

lemma api_send_keeps:
  "chownat_inv c \<Longrightarrow> keeps chownat_inv (udp_conn_send (chownat_api os cb fuel) buf n c)"
  by (simp add: udp_conn_send_def chownat_api_def udp_send_keeps)

lemma api_disconnect_keeps:
  "chownat_inv c \<Longrightarrow> keeps chownat_inv (udp_conn_disconnect (chownat_api os cb fuel) c)"
  by (simp add: udp_conn_disconnect_def chownat_api_def disconnect_send_keeps)

end

lemma fail_test_keeps:
  "chownat_user cb \<Longrightarrow> chownat_inv c \<Longrightarrow> keeps chownat_inv (fail_test (chownat_api os cb fuel) c)"
  by (auto simp: fail_test_def intro!: keeps_chain chownat_user.api_disconnect_keeps)

lemma send_message_keeps:
  "chownat_user cb \<Longrightarrow> chownat_inv c \<Longrightarrow>
     keeps chownat_inv (send_message (chownat_api os cb fuel) kind n c)"
  by (auto simp: send_message_def Let_def split: prod.splits
      intro!: keeps_chain fail_test_keeps chownat_user.api_send_keeps)

lemma round_completed_keeps:
  "chownat_user cb \<Longrightarrow> chownat_inv c \<Longrightarrow>
     keeps chownat_inv (round_completed (chownat_api os cb fuel) m c)"
  by (auto simp: round_completed_def Let_def
      intro!: keeps_chain send_message_keeps chownat_user.api_disconnect_keeps)

lemma calback_body_keeps:
  assumes "chownat_user cb" and "chownat_inv c"
  shows "keeps chownat_inv (calback_body (chownat_api os cb fuel) reason bs c)"
  using assms(2)
proof (rule chownat_invE)
  fix us cfg d k
  assume "c_ctrl c = Some k"
  with assms show ?thesis
    by (auto simp: calback_body_def Let_def
        intro!: keeps_chain send_message_keeps fail_test_keeps round_completed_keeps)
qed

lemma calback_user: "chownat_user (udp_conn_calback os fuel depth)"
proof (induction depth)
  case 0
  show ?case by unfold_locales simp
next
  case (Suc depth)
  show ?case by unfold_locales (simp add: calback_body_keeps [OF Suc])
qed

interpretation udp_test: chownat_user "udp_conn_calback os fuel depth" for os fuel depth
  by (rule calback_user)

section \<open>Memory safety of every sequence of calls\<close>

lemma get_timeout_keeps: "P c \<Longrightarrow> keeps P (chownat_get_timeout tv c)"
  by (auto simp: chownat_get_timeout_def split: option.splits)

lemma chownat_step_keeps:
  assumes "chownat_user cb" and "chownat_inv c" and "call_ok k"
  shows "keeps chownat_inv (api_step (chownat_api os cb fuel) k c)"
  using assms(2,3)
  by (cases k)
     (auto simp: udp_conn_init_def udp_conn_deinit_def udp_conn_send_def udp_conn_recv_def
        udp_conn_disconnect_def chownat_api_def init_keeps deinit_keeps get_timeout_keeps
        hole_punching_keeps send_ka_keeps disconnect_send_keeps
        intro: chownat_user.connect_keeps [OF assms(1)] chownat_user.udp_send_keeps [OF assms(1)]
          chownat_user.udp_recv_keeps [OF assms(1)])

text \<open>
  C10. Memory safety of the CHOWNAT backend: from any well-formed connection and for any behaviour of
  system and peer, no sequence of calls accesses memory outside the retransmission store, the packet
  arrays or the caller's buffer, and the connection stays well formed, also when the process exits.
  The user's callback has to keep the connection well formed.
\<close>

theorem chownat_memory_safe:
  assumes "chownat_user cb" and "chownat_inv c" and "\<forall>k \<in> set ks. call_ok k"
  shows "keeps chownat_inv (api_steps (chownat_api os cb fuel) ks c)"
  using assms(2,3)
proof (induction ks arbitrary: c)
  case (Cons k ks)
  then show ?case using chownat_step_keeps [OF assms(1)] by auto
qed simp

text \<open>The global objects of the test program, before and after \<open>udp_conn_init\<close>.\<close>

definition test_addr :: sockaddr_in where
  "test_addr = \<lparr>sin_family = AF_INET, sin_addr = 7, sin_port = 2222\<rparr>"

definition test_session :: udp_session where
  "test_session = \<lparr>us_socket_fd = 3, us_ka_miss_threshold = 20, us_dst = test_addr,
     us_src = test_addr\<lparr>sin_addr := 0\<rparr>\<rparr>"

definition fresh_data :: chownat_data where
  "fresh_data = \<lparr>cd_closed = 0, cd_id = 0, cd_expected = 0, cd_buffer = zero_buffer,
     cd_sizes = zero_sizes\<rparr>"

lemma fresh_data_wf [simp]: "chownat_wf fresh_data"
  by (simp add: chownat_wf_def fresh_data_def zero_buffer_def zero_sizes_def)

definition test_conn :: "char \<Rightarrow> udp_test_app chownat_conn" where
  "test_conn mode = \<lparr>c_udp = Some test_session,
     c_tcp = None, c_ctrl = Some \<lparr>cc_mode = mode, cc_init = 0, cc_read_fds = []\<rparr>, c_callback = True,
     c_config = Some \<lparr>cf_udp_recv_timeout_sec = 1, cf_reuse = 1, cf_conn_max_attempts = 20,
       cf_dconn_max_attempts = 20\<rparr>,
     c_data = Some fresh_data,
     c_app = \<lparr>ap_completed_rounds = 0, ap_test_failed = False\<rparr>, c_trace = []\<rparr>"

lemma test_conn_inv: "chownat_inv (test_conn m)"
  by (simp add: chownat_inv_def test_conn_def fds_ok_def fd_ok_def test_session_def)

theorem chownat_memory_safe_witness:
  "keeps chownat_inv (api_steps (chownat_api quiet_os (udp_conn_calback quiet_os 9 2) 9)
     [KInit, KConnect, KSend (replicate 2000 1) None, KRecv (Some [0, 0]) 2 (Some 7), KDisconnect]
     (test_conn CHR ''c''))"
  by (rule chownat_memory_safe) (simp_all add: calback_user test_conn_inv)

end
