(* ===== verification/Chownat_Stream.thy ===== *)
theory Chownat_Stream
  imports Chownat_App
begin

text \<open>
  The data plane of the CHOWNAT backend: the abstract wire messages and what receiving each of them
  does, the retransmission store after any number of sends, what a request brings back, and the
  delivery of a message sequence in order over a network that loses, repeats and reorders datagrams.
\<close>

section \<open>Wire messages\<close>

datatype wire = Keepalive | Bye | Handshake | Request byte | Data byte "byte list" | Unknown

definition parse :: "byte list \<Rightarrow> wire" where
  "parse m =
     (if length m < 3 then Keepalive
      else if take 3 m = msg02 then Bye
      else if take 3 m = msg03 then Handshake
      else if take 2 m = msg08 then Request (m ! 2)
      else if take 2 m = msg09 then Data (m ! 2) (drop 3 m)
      else Unknown)"

text \<open>The datagrams the code sends, as text.\<close>

fun print :: "wire \<Rightarrow> byte list" where
  "print Keepalive = msg_ka"
| "print Bye = msg02"
| "print Handshake = msg03"
| "print (Request i) = request_packet i"
| "print (Data i p) = data_packet i p"
| "print Unknown = msg01"

lemma strncmp_tags:
  "3 \<le> length m \<Longrightarrow> strncmp_eq 3 m (msg02 @ [0]) \<longleftrightarrow> take 3 m = msg02"
  "3 \<le> length m \<Longrightarrow> strncmp_eq 3 m (msg03 @ [0]) \<longleftrightarrow> take 3 m = msg03"
  "3 \<le> length m \<Longrightarrow> strncmp_eq 3 m (msg01 @ [0]) \<longleftrightarrow> take 3 m = msg01"
  "3 \<le> length m \<Longrightarrow> strncmp_eq 2 m (msg08 @ [0]) \<longleftrightarrow> take 2 m = msg08"
  "3 \<le> length m \<Longrightarrow> strncmp_eq 2 m (msg09 @ [0]) \<longleftrightarrow> take 2 m = msg09"
  by (subst strncmp_eq_nonzero; simp add: msg_defs)+

lemma parse_short: "length m < 3 \<Longrightarrow> parse m = Keepalive"
  by (simp add: parse_def)

lemma parse_print: "parse (print w) = w"
  by (cases w) (simp_all add: parse_def msg_defs data_packet_def request_packet_def numeral_3_eq_3)

text \<open>
  The five kinds of datagram are told apart: each of the datagrams the code builds is read back as
  the message it was built for, with its number and its payload.
\<close>

theorem chownat_wire_roundtrip:
  "parse (data_packet i p) = Data i p \<and> parse (request_packet i) = Request i \<and>
   parse msg02 = Bye \<and> parse msg03 = Handshake \<and> parse msg_ka = Keepalive"
  using parse_print [of "Data i p"] parse_print [of "Request i"] parse_print [of Bye]
    parse_print [of Handshake] parse_print [of Keepalive]
  by simp

section \<open>An open connection with a passive user\<close>

text \<open>
  Every application of the repository returns at once from its callback when the connection has a
  TCP tunnel; such a user changes at most its own memory.
\<close>

definition passive_user :: "'a chownat_callback \<Rightarrow> bool" where
  "passive_user cb \<longleftrightarrow>
     (\<forall>reason bs c. c_tcp c \<noteq> None \<longrightarrow> (\<exists>a. cb reason bs c = (Ret (), c\<lparr>c_app := a\<rparr>)))"

definition open_conn :: "udp_session \<Rightarrow> chownat_data \<Rightarrow> 'a chownat_conn \<Rightarrow> bool" where
  "open_conn us d c \<longleftrightarrow> chownat_inv c \<and> c_udp c = Some us \<and> c_data c = Some d \<and> c_tcp c \<noteq> None \<and>
     cd_closed d = 0 \<and> (\<exists>k. c_ctrl c = Some k \<and> cc_init k \<noteq> 0)"

lemma open_connE:
  assumes "open_conn us d c"
  obtains k where "c_udp c = Some us" "c_data c = Some d" "c_ctrl c = Some k" "cc_init k \<noteq> 0"
    "cd_closed d = 0" "chownat_wf d" "c_callback c" "chownat_inv c" "c_tcp c \<noteq> None"
  using assms by (fastforce simp: open_conn_def elim!: chownat_invE)

lemma open_conn_app_trace [simp]:
  "open_conn us d (c\<lparr>c_app := a\<rparr>) = open_conn us d c"
  "open_conn us d (c\<lparr>c_trace := t\<rparr>) = open_conn us d c"
  by (simp_all add: open_conn_def)

lemma open_conn_data:
  "open_conn us d c \<Longrightarrow> chownat_wf d' \<Longrightarrow> cd_closed d' = 0 \<Longrightarrow>
     open_conn us d' (c\<lparr>c_data := Some d'\<rparr>)"
  by (auto simp: open_conn_def intro: chownat_inv_data)

lemma run_callback_passive:
  assumes "passive_user cb" and "c_tcp c \<noteq> None" and "c_callback c"
  obtains a where "run_callback cb reason bs c =
     (Ret (), c\<lparr>c_trace := EvCallback reason bs # c_trace c, c_app := a\<rparr>)"
  using assms by (fastforce simp: passive_user_def run_callback_def)

lemma calback_passive: "passive_user (udp_conn_calback os fuel (Suc depth))"
  unfolding passive_user_def
proof (intro allI impI)
  fix reason bs and c :: "udp_test_app chownat_conn"
  assume "c_tcp c \<noteq> None"
  then have "udp_conn_calback os fuel (Suc depth) reason bs c = (Ret (), c\<lparr>c_app := c_app c\<rparr>)"
    by (simp add: calback_body_def)
  then show "\<exists>a. udp_conn_calback os fuel (Suc depth) reason bs c = (Ret (), c\<lparr>c_app := a\<rparr>)"
    by blast
qed

text \<open>The payloads handed to the user, oldest first.\<close>

fun delivered :: "trace \<Rightarrow> byte list list" where
  "delivered [] = []"
| "delivered (EvCallback reason bs # tr) =
     (if reason = CHOWNAT_UDP_RECV_DATA then delivered tr @ [bs] else delivered tr)"
| "delivered (_ # tr) = delivered tr"

text \<open>The test program's connection when it is open and has a tunnel.\<close>

definition tunnel_conn :: "char \<Rightarrow> chownat_data \<Rightarrow> udp_test_app chownat_conn" where
  "tunnel_conn mode d = (test_conn mode)\<lparr>
     c_tcp := Some \<lparr>ts_socket_fd = 4, ts_accepted_sock = 5, ts_reuse = 1, ts_local = test_addr\<rparr>,
     c_ctrl := Some \<lparr>cc_mode = mode, cc_init = 1, cc_read_fds = []\<rparr>, c_data := Some d\<rparr>"

lemma tunnel_conn_open:
  "chownat_wf d \<Longrightarrow> cd_closed d = 0 \<Longrightarrow> open_conn test_session d (tunnel_conn mode d)"
  by (simp add: open_conn_def tunnel_conn_def test_conn_def chownat_inv_def fds_ok_def fd_ok_def
      test_session_def)

lemma tunnel_conn_trace [simp]: "c_trace (tunnel_conn mode d) = []"
  by (simp add: tunnel_conn_def test_conn_def)

lemma fresh_data_closed [simp]: "cd_closed fresh_data = 0" "cd_id fresh_data = 0" "cd_expected fresh_data = 0"
  by (simp_all add: fresh_data_def)

lemma demo_user: "passive_user (udp_conn_calback quiet_os 9 (Suc 0))"
  by (rule calback_passive)

lemma demo_client: "open_conn test_session fresh_data (tunnel_conn CHR ''c'' fresh_data)"
  and demo_server: "open_conn test_session fresh_data (tunnel_conn CHR ''s'' fresh_data)"
  by (simp_all add: tunnel_conn_open)

lemma test_session_fd [simp]: "us_socket_fd test_session = 3"
  by (simp add: test_session_def)

section \<open>Receiving\<close>

text \<open>
  What receiving one datagram does, by its meaning: the table the backend implements.  The number is
  the expected sequence number; a payload is cut to the caller's buffer.
\<close>

definition recv_spec ::
    "os \<Rightarrow> 'a chownat_callback \<Rightarrow> nat \<Rightarrow> udp_session \<Rightarrow> chownat_data \<Rightarrow> byte list \<Rightarrow> byte list \<Rightarrow> nat
       \<Rightarrow> ('a, udp_conn_status \<times> byte list option \<times> nat option) chownat_op" where
  "recv_spec os cb fuel us d msg m n c =
     (case parse msg of
        Keepalive \<Rightarrow> (Ret (UDP_CONN_OK, Some m, Some 0), c)
      | Handshake \<Rightarrow> (Ret (UDP_CONN_OK, Some m, Some 0), c)
      | Unknown \<Rightarrow> (Ret (UDP_CONN_OK, Some m, Some 0), c)
      | Bye \<Rightarrow> chain (chownat_disconnect_recv os fuel c)
                 (\<lambda>_ c'. (Ret (UDP_CONN_ERR, Some m, Some 0), set_closed c'))
      | Request i \<Rightarrow>
          chain (on_trace (retransmit os (us_socket_fd us) (us_dst us) d fuel i) c) (\<lambda>_ c1.
            chain (run_callback cb CHOWNAT_UDP_LOST_DATA msg c1)
              (\<lambda>_ c2. (Ret (UDP_CONN_OK, Some m, Some 0), c2)))
      | Data i p \<Rightarrow>
          (if uint i \<noteq> cd_expected d
           then (Ret (UDP_CONN_OK, Some m, Some 0),
                 snd (on_trace (sys_sendto os (us_socket_fd us)
                   (print (Request (word_of_int (cd_expected d)))) (us_dst us) False) c))
           else chain (run_callback cb CHOWNAT_UDP_RECV_DATA (take n p)
                  (set_data (d\<lparr>cd_expected := (cd_expected d + 1) mod 256\<rparr>) c))
                (\<lambda>_ c'. (Ret (if n < length p then UDP_CONN_OK_TRUNCATED else UDP_CONN_OK,
                              Some (overwrite m (take n p)), Some (min (length p) n)), c'))))"

lemma next_seq_mod: "0 \<le> n \<Longrightarrow> n < 256 \<Longrightarrow> next_seq n = (n + 1) mod 256"
  by (cases "n = 255") (auto simp: next_seq_def)

lemma chain_assoc: "chain (chain r f) g = chain r (\<lambda>a s. chain (f a s) g)"
  by (cases "(r, f)" rule: chain.cases) auto

lemma take_min_self: "take (min (length p) n) p = take n p"
  by (simp add: min_def)

lemma recv_cases:
  assumes "open_conn us d c" and "n \<le> length m"
    and recv: "on_trace (sys_recv os (us_socket_fd us) 1027 False) c = (Inr msg, c1)"
  shows "chownat_udp_recv os cb fuel (Some m) n (Some r) c = recv_spec os cb fuel us d msg m n c1"
  using assms(1)
proof (rule open_connE)
  fix k
  assume k: "c_udp c = Some us" "c_data c = Some d" "c_ctrl c = Some k" "cc_init k \<noteq> 0"
    "cd_closed d = 0" "chownat_wf d"
  have seq: "next_seq (cd_expected d) = (cd_expected d + 1) mod 256"
    using k(6) by (simp add: chownat_wf_def next_seq_mod)
  show ?thesis
  proof (cases "length msg < 3")
    case True
    with k recv show ?thesis by (simp add: chownat_udp_recv_def recv_spec_def parse_def)
  next
    case False
    then have len: "3 \<le> length msg" by simp
    have fits: "\<not> length m < n" using assms(2) by simp
    from k recv len seq fits show ?thesis
      by (simp add: chownat_udp_recv_def recv_spec_def parse_def strncmp_tags [OF len] Let_def
          on_request_def on_data_def chain_assoc take_min_self)
  qed
qed

section \<open>Sending\<close>

definition sent_data :: "chownat_data \<Rightarrow> byte list \<Rightarrow> chownat_data" where
  "sent_data d buf =
     d\<lparr>cd_buffer := (cd_buffer d)[nat (cd_id d) := overwrite (cd_buffer d ! nat (cd_id d)) buf],
       cd_sizes := (cd_sizes d)[nat (cd_id d) := length buf],
       cd_id := (cd_id d + 1) mod 256\<rparr>"

lemma sent_data_wf:
  "chownat_wf d \<Longrightarrow> length buf \<le> 1024 \<Longrightarrow> chownat_wf (sent_data d buf)"
  using wf_store [of d buf "nat (cd_id d)"]
  by (simp add: sent_data_def next_seq_mod chownat_wf_def [of d])

lemma send_step:
  assumes "passive_user cb" and "open_conn us d c" and "length buf \<le> 1024"
  obtains st n' c' where "chownat_udp_send os cb buf n c = (Ret (st, n'), c')"
    and "open_conn us (sent_data d buf) c'"
    and "datagrams (us_socket_fd us) (c_trace c') =
           data_packet (word_of_int (cd_id d)) buf # datagrams (us_socket_fd us) (c_trace c)"
    and "delivered (c_trace c') = delivered (c_trace c)"
    and "case os_sendto os (c_trace c) (us_socket_fd us) (data_packet (word_of_int (cd_id d)) buf) of
           Inl e \<Rightarrow> st = UDP_CONN_ERR \<and> n' = n
         | Inr s \<Rightarrow> st = UDP_CONN_OK \<and>
             (n \<noteq> None \<longrightarrow> 3 \<le> s \<longrightarrow> n' = Some (min (length buf) (s - 3)))"
  using assms(2)
proof (rule open_connE)
  fix k
  assume k: "c_udp c = Some us" "c_data c = Some d" "c_ctrl c = Some k" "cc_init k \<noteq> 0"
    "cd_closed d = 0" "chownat_wf d" "c_callback c" "c_tcp c \<noteq> None"
  let ?p = "data_packet (word_of_int (cd_id d)) buf"
  let ?r = "map_sum id (min (length ?p)) (os_sendto os (c_trace c) (us_socket_fd us) ?p)"
  let ?c = "c\<lparr>c_data := Some (sent_data d buf),
               c_trace := EvSendto (us_socket_fd us) ?p (us_dst us) False ?r # c_trace c\<rparr>"
  have id: "0 \<le> cd_id d" "cd_id d < 256" "length (cd_buffer d) = 256"
    using k(6) by (auto simp: chownat_wf_def)
  then have data: "d\<lparr>cd_buffer := (cd_buffer d)[nat (cd_id d) := overwrite (cd_buffer d ! nat (cd_id d)) buf],
      cd_sizes := (cd_sizes d)[nat (cd_id d) := length buf], cd_id := next_seq (cd_id d)\<rparr> = sent_data d buf"
    by (simp add: sent_data_def next_seq_mod)
  have sent: "on_trace (sys_sendto os (us_socket_fd us) ?p (us_dst us) False)
      (set_data (sent_data d buf) c) = (?r, ?c)"
    by (simp add: on_trace_eq sys_defs Let_def set_data_def)
  have opn: "open_conn us (sent_data d buf) ?c"
    using open_conn_data [OF assms(2) sent_data_wf [OF k(6) assms(3)]] k(5)
    by (simp add: sent_data_def open_conn_def)
  have step: "chownat_udp_send os cb buf n c = (case (?r, ?c) of
      (Inl e, c1) \<Rightarrow> (Ret (UDP_CONN_ERR, n), c1)
    | (Inr s, c1) \<Rightarrow> chain (run_callback cb CHOWNAT_UDP_DATA_SENT buf c1)
        (\<lambda>_ c2. (Ret (UDP_CONN_OK, map_option (\<lambda>_. nat ((int s - 3) mod 2 ^ 64)) n), c2)))"
    using k(1-5) id assms(3) by (auto simp: chownat_udp_send_def Let_def data sent split: sum.split)
  show ?thesis
  proof (cases "os_sendto os (c_trace c) (us_socket_fd us) ?p")
    case (Inl e)
    with step opn show ?thesis by (intro that [of UDP_CONN_ERR n ?c]) simp_all
  next
    case (Inr s)
    obtain a where cb: "run_callback cb CHOWNAT_UDP_DATA_SENT buf ?c =
        (Ret (), ?c\<lparr>c_trace := EvCallback CHOWNAT_UDP_DATA_SENT buf # c_trace ?c, c_app := a\<rparr>)"
      using run_callback_passive [OF assms(1), of ?c] k(7,8) by auto
    have "3 \<le> s \<Longrightarrow> nat ((int (min (length ?p) s) - 3) mod 2 ^ 64) = min (length buf) (s - 3)"
      using assms(3) by (auto simp: data_packet_def msg_defs min_def)
    with Inr step opn cb show ?thesis
      by (intro that [of UDP_CONN_OK "map_option (\<lambda>_. nat ((int (min (length ?p) s) - 3) mod 2 ^ 64)) n"
            "?c\<lparr>c_trace := EvCallback CHOWNAT_UDP_DATA_SENT buf # c_trace ?c, c_app := a\<rparr>"])
         (simp_all del: power_numeral)
  qed
qed

section \<open>The retransmission store\<close>

text \<open>
  \<open>stored ms d\<close>: the data after the messages \<open>ms\<close> were sent since the numbers were reset.  Message \<open>j\<close>
  has the sequence number \<open>j mod 256\<close>, and the last 256 messages are in their slots.
\<close>

definition in_slot :: "chownat_data \<Rightarrow> nat \<Rightarrow> byte list \<Rightarrow> bool" where
  "in_slot d i m \<longleftrightarrow> cd_sizes d ! i = length m \<and> take (length m) (cd_buffer d ! i) = m"

definition stored :: "byte list list \<Rightarrow> chownat_data \<Rightarrow> bool" where
  "stored ms d \<longleftrightarrow> cd_id d = int (length ms mod 256) \<and>
     (\<forall>j < length ms. length ms \<le> j + 256 \<longrightarrow> in_slot d (j mod 256) (ms ! j))"

lemma in_slot_sent:
  assumes "chownat_wf d" and "length m \<le> 1024" and "cd_id d = int i"
  shows "in_slot (sent_data d m) i m"
    and "j \<noteq> i \<Longrightarrow> in_slot (sent_data d m) j m' = in_slot d j m'"
  using assms by (auto simp: in_slot_def sent_data_def chownat_wf_def take_le_overwrite)

lemma mod_256_inj:
  fixes j n :: nat
  assumes "j < n" and "n < j + 256"
  shows "j mod 256 \<noteq> n mod 256"
proof
  assume "j mod 256 = n mod 256"
  then have "256 dvd n - j" using assms mod_eq_dvd_iff_nat [of j n 256] by simp
  then have "256 \<le> n - j" using assms by (intro dvd_imp_le) simp_all
  with assms show False by simp
qed

lemma int_Suc_mod: "(int (n mod 256) + 1) mod 256 = int (Suc n mod 256)"
  by (simp add: zmod_int mod_simps add.commute)

lemma stored_sent:
  assumes "chownat_wf d" and "length m \<le> 1024" and "stored ms d"
  shows "stored (ms @ [m]) (sent_data d m)"
proof -
  have id: "cd_id d = int (length ms mod 256)" using assms(3) by (simp add: stored_def)
  have "in_slot (sent_data d m) (j mod 256) ((ms @ [m]) ! j)"
    if "j < Suc (length ms)" and "Suc (length ms) \<le> j + 256" for j
  proof (cases "j = length ms")
    case True
    then show ?thesis using in_slot_sent(1) [OF assms(1,2) id] by simp
  next
    case False
    then have "j < length ms" using that by simp
    moreover from this that have "j mod 256 \<noteq> length ms mod 256" by (intro mod_256_inj) simp_all
    ultimately show ?thesis
      using assms(3) that in_slot_sent(2) [OF assms(1,2) id] by (simp add: stored_def nth_append)
  qed
  moreover have "cd_id (sent_data d m) = int (Suc (length ms) mod 256)"
    by (simp add: sent_data_def id int_Suc_mod)
  ultimately show ?thesis by (auto simp: stored_def)
qed

lemma word_of_stored: "stored ms d \<Longrightarrow> (word_of_int (cd_id d) :: byte) = of_nat (length ms)"
  by (simp add: stored_def word_of_nat_eq_iff take_bit_eq_mod)

lemma stored_fresh: "cd_id d = 0 \<Longrightarrow> stored [] d"
  by (simp add: stored_def)

definition packets :: "byte list list \<Rightarrow> nat \<Rightarrow> nat \<Rightarrow> byte list list" where
  "packets ms lo hi = map (\<lambda>j. data_packet (of_nat j) (ms ! j)) [lo..<hi]"

lemma packets_Cons:
  "lo < hi \<Longrightarrow> packets ms lo hi = data_packet (of_nat lo) (ms ! lo) # packets ms (Suc lo) hi"
  by (simp add: packets_def upt_conv_Cons)

definition send_calls :: "byte list list \<Rightarrow> api_call list" where
  "send_calls bs = map (\<lambda>b. KSend b None) bs"

lemma chownat_send:
  assumes "passive_user cb" and "open_conn us d c" and "stored ms d"
    and "\<forall>b \<in> set bs. length b \<le> TCP_MTU_SIZE"
  shows "\<exists>d' c'. api_steps (chownat_api os cb fuel) (send_calls bs) c = (Ret (), c') \<and>
     open_conn us d' c' \<and> stored (ms @ bs) d' \<and>
     datagrams (us_socket_fd us) (c_trace c') =
       rev (packets (ms @ bs) (length ms) (length ms + length bs)) @ datagrams (us_socket_fd us) (c_trace c)"
  using assms(2-4)
proof (induction bs arbitrary: ms d c)
  case Nil
  then show ?case by (auto simp: packets_def send_calls_def)
next
  case (Cons b bs)
  then have b: "length b \<le> 1024" by simp
  from Cons.prems(1) have wf: "chownat_wf d" by (rule open_connE)
  obtain st n' c1 where s: "chownat_udp_send os cb b None c = (Ret (st, n'), c1)"
    and o: "open_conn us (sent_data d b) c1"
    and g: "datagrams (us_socket_fd us) (c_trace c1) =
       data_packet (of_nat (length ms)) b # datagrams (us_socket_fd us) (c_trace c)"
    by (rule send_step [OF assms(1) Cons.prems(1) b, unfolded word_of_stored [OF Cons.prems(2)]])
  have step: "api_step (chownat_api os cb fuel) (KSend b None) c = (Ret (), c1)"
    by (simp add: udp_conn_send_def chownat_api_def s drop_result_def)
  from Cons.IH [OF o stored_sent [OF wf b Cons.prems(2)]] Cons.prems(3)
  obtain d' c' where "api_steps (chownat_api os cb fuel) (send_calls bs) c1 = (Ret (), c')"
    "open_conn us d' c'" "stored (ms @ b # bs) d'"
    "datagrams (us_socket_fd us) (c_trace c') =
       rev (packets (ms @ b # bs) (Suc (length ms)) (Suc (length ms) + length bs)) @
       datagrams (us_socket_fd us) (c_trace c1)"
    by auto
  with step g show ?case
    by (auto simp: packets_Cons [of "length ms"] send_calls_def)
qed

text \<open>
  C17. Sending any number of messages numbers them consecutively modulo 256, transmits exactly one
  packet for each, in order, and leaves the last 256 of them in the retransmission store, whether or
  not the system could send them.
\<close>

theorem chownat_send_window:
  assumes "passive_user cb" and "open_conn us d c" and "stored ms d"
    and "\<forall>b \<in> set bs. length b \<le> TCP_MTU_SIZE"
  shows "\<exists>d' c'. api_steps (chownat_api os cb fuel) (send_calls bs) c = (Ret (), c') \<and>
     open_conn us d' c' \<and> stored (ms @ bs) d' \<and>
     datagrams (us_socket_fd us) (c_trace c') =
       rev (packets (ms @ bs) (length ms) (length ms + length bs)) @ datagrams (us_socket_fd us) (c_trace c)"
  using assms by (rule chownat_send)

theorem chownat_send_window_witness:
  "\<exists>d' c'. api_steps (chownat_api quiet_os (udp_conn_calback quiet_os 9 (Suc 0)) 9)
       (send_calls [[104], [105]]) (tunnel_conn CHR ''c'' fresh_data) = (Ret (), c') \<and>
     stored [[104], [105]] d' \<and> datagrams 3 (c_trace c') = rev (packets [[104], [105]] 0 2)"
  using chownat_send_window [OF demo_user demo_client stored_fresh [OF fresh_data_closed(2)],
      where bs = "[[104], [105]]" and os = quiet_os and fuel = 9]
  by (auto simp: numeral_2_eq_2)

section \<open>Retransmission\<close>

definition resent :: "chownat_data \<Rightarrow> nat \<Rightarrow> byte list" where
  "resent d j = take (cd_sizes d ! j) (data_packet (of_nat j) (take (cd_sizes d ! j) (cd_buffer d ! j)))"

lemma retransmit_exact:
  assumes "chownat_wf d" and "256 - unat i < fuel"
  shows "\<exists>tr'. retransmit os fd dst d fuel i tr = (Ret (), tr') \<and>
     datagrams fd tr' = rev (map (resent d) [unat i..<nat (cd_id d)]) @ datagrams fd tr \<and>
     delivered tr' = delivered tr"
  using assms
proof (induction fuel arbitrary: i tr)
  case (Suc fuel)
  show ?case
  proof (cases "uint i < cd_id d")
    case False
    then have "nat (cd_id d) \<le> nat (uint i)" by (intro nat_mono) simp
    then have "nat (cd_id d) \<le> unat i" by simp
    with False show ?thesis by simp
  next
    case True
    then have lt: "unat i < 255" using Suc.prems(1) by (rule below_id)
    have upper: "unat i < nat (cd_id d)"
      using True by (metis nat_uint_eq unsigned_greater_eq zless_nat_eq_int_zless int_nat_eq order_less_le_trans nat_less_eq_zless)
    from lt have next_i: "unat (i + 1) = unat i + 1" by (simp add: unat_word_ariths)
    then have fuel_left: "256 - unat (i + 1) < fuel" using Suc.prems(2) lt by linarith
    let ?ev = "EvSendto fd (resent d (unat i)) dst False
      (map_sum id (min (length (resent d (unat i)))) (os_sendto os tr fd (resent d (unat i))))"
    have "fst (retransmit os fd dst d (Suc fuel) i tr) \<noteq> Fault"
      using Suc.prems(1) by (rule retransmit_keeps)
    then have "retransmit os fd dst d (Suc fuel) i tr = retransmit os fd dst d fuel (i + 1) (?ev # tr)"
      using True by (auto simp: Let_def sys_defs resent_def split: if_splits)
    moreover obtain tr' where "retransmit os fd dst d fuel (i + 1) (?ev # tr) = (Ret (), tr')"
      and "datagrams fd tr' = rev (map (resent d) [Suc (unat i)..<nat (cd_id d)]) @ datagrams fd (?ev # tr)"
      and "delivered tr' = delivered (?ev # tr)"
      using Suc.IH [OF Suc.prems(1) fuel_left, of "?ev # tr"] next_i by auto
    ultimately show ?thesis using upper by (simp add: upt_conv_Cons)
  qed
qed simp

text \<open>
  The first message of the window that a request for the number \<open>i\<close> asks for, when \<open>n\<close> messages were
  sent: the code looks only at numbers below the next one, that is behind the last wrap.
\<close>

definition first_resent :: "nat \<Rightarrow> byte \<Rightarrow> nat" where
  "first_resent n i = n - n mod 256 + unat i"

lemma resent_stored:
  assumes "stored ms d" and "first_resent (length ms) i \<le> j" and "j < length ms"
  shows "resent d (j mod 256) = take (length (ms ! j)) (data_packet (of_nat j) (ms ! j))"
proof -
  have "length ms - length ms mod 256 \<le> j" using assms(2) by (simp add: first_resent_def)
  moreover have "length ms mod 256 < 256" by simp
  ultimately have "length ms \<le> j + 256" by linarith
  with assms have "in_slot d (j mod 256) (ms ! j)" by (simp add: stored_def)
  moreover have "(of_nat (j mod 256) :: byte) = of_nat j"
    by (simp add: word_of_nat_eq_iff take_bit_eq_mod)
  ultimately show ?thesis by (simp add: resent_def in_slot_def)
qed

lemma shift_upt: "map (\<lambda>j. (b + j) mod 256) [lo..<hi] = [lo..<hi]"
  if "b mod 256 = 0" and "hi \<le> 256" for b :: nat
  using that by (intro nth_equalityI) (simp_all add: mod_add_left_eq [of b, symmetric])

lemma upt_shift: "[b + lo..<b + hi] = map ((+) b) [lo..<hi]" for b :: nat
  by (rule nth_equalityI) auto

lemma resent_window:
  assumes "stored ms d"
  shows "map (resent d) [unat i..<nat (cd_id d)] =
     map (\<lambda>j. take (length (ms ! j)) (data_packet (of_nat j) (ms ! j)))
       [first_resent (length ms) i..<length ms]"
proof -
  let ?n = "length ms" and ?b = "length ms - length ms mod 256"
  have b: "?b mod 256 = 0" by (simp add: minus_mod_eq_mult_div)
  have upper: "nat (cd_id d) = ?n mod 256" using assms by (simp add: stored_def)
  have "[first_resent ?n i..<?n] = map ((+) ?b) [unat i..<?n mod 256]"
    using upt_shift [of ?b "unat i" "?n mod 256"] by (simp add: first_resent_def)
  then have "map (\<lambda>j. j mod 256) [first_resent ?n i..<?n] = [unat i..<?n mod 256]"
    using shift_upt [OF b, of "?n mod 256" "unat i"] by (simp add: comp_def)
  from arg_cong [OF this, of "map (resent d)"] upper
  have "map (resent d) [unat i..<nat (cd_id d)] =
      map (\<lambda>j. resent d (j mod 256)) [first_resent ?n i..<?n]"
    by (simp add: comp_def)
  also have "\<dots> = map (\<lambda>j. take (length (ms ! j)) (data_packet (of_nat j) (ms ! j)))
       [first_resent ?n i..<?n]"
    using resent_stored [OF assms] by auto
  finally show ?thesis .
qed

definition recv_event :: "udp_session \<Rightarrow> byte list \<Rightarrow> event" where
  "recv_event us g = EvRecv (us_socket_fd us) 1027 False (Inr (take 1027 g, 1027 < length g))"

lemma recv_event_observers [simp]:
  "datagrams fd (recv_event us g # tr) = datagrams fd tr"
  "delivered (recv_event us g # tr) = delivered tr"
  by (simp_all add: recv_event_def)

lemma recv_refines:
  assumes "open_conn us d c" and "n \<le> length m"
    and "os_recv os (c_trace c) (us_socket_fd us) False = Inr g"
  shows "chownat_udp_recv os cb fuel (Some m) n (Some r) c =
     recv_spec os cb fuel us d (take 1027 g) m n (c\<lparr>c_trace := recv_event us g # c_trace c\<rparr>)"
  by (rule recv_cases [OF assms(1,2)])
     (simp add: on_trace_eq sys_defs Let_def recv_event_def assms(3))

text \<open>
  C21. Receiving on an open connection is the table of the wire messages: keep-alives, handshakes and
  unknown datagrams are ignored, \<open>02\<close> disconnects, a request retransmits, the expected packet is
  delivered and any other asks for the expected one; a failing \<open>recv\<close>, a timeout included, closes.
\<close>

theorem chownat_recv_table:
  assumes "open_conn us d c" and "n \<le> length m"
  shows "chownat_udp_recv os cb fuel (Some m) n (Some r) c =
     (case os_recv os (c_trace c) (us_socket_fd us) False of
        Inl e \<Rightarrow> (Ret (UDP_CONN_ERR, Some m, Some 0),
                  set_closed (c\<lparr>c_trace := EvRecv (us_socket_fd us) 1027 False (Inl e) # c_trace c\<rparr>))
      | Inr g \<Rightarrow> recv_spec os cb fuel us d (take 1027 g) m n (c\<lparr>c_trace := recv_event us g # c_trace c\<rparr>))"
proof (cases "os_recv os (c_trace c) (us_socket_fd us) False")
  case (Inr g)
  then show ?thesis using recv_refines [OF assms Inr] by simp
next
  case (Inl e)
  from assms(1) obtain k where "c_udp c = Some us" "c_data c = Some d" "c_ctrl c = Some k" "cc_init k \<noteq> 0"
    "cd_closed d = 0" by (rule open_connE)
  with Inl show ?thesis by (simp add: chownat_udp_recv_def on_trace_eq sys_defs Let_def)
qed

theorem chownat_recv_table_witness:
  "fst (chownat_udp_recv quiet_os (udp_conn_calback quiet_os 9 (Suc 0)) 9 (Some [0]) 1 (Some 5)
     (tunnel_conn CHR ''c'' fresh_data)) = Ret (UDP_CONN_ERR, Some [0], Some 0)"
  by (subst chownat_recv_table [OF demo_client]) simp_all

lemma request_step:
  assumes "passive_user cb" and "open_conn us d c" and "stored ms d" and "n \<le> length m"
    and "os_recv os (c_trace c) (us_socket_fd us) False = Inr g"
    and "parse (take 1027 g) = Request i" and "256 < fuel"
  obtains c' where
    "chownat_udp_recv os cb fuel (Some m) n (Some r) c = (Ret (UDP_CONN_OK, Some m, Some 0), c')"
    and "open_conn us d c'" and "delivered (c_trace c') = delivered (c_trace c)"
    and "datagrams (us_socket_fd us) (c_trace c') =
       rev (map (\<lambda>j. take (length (ms ! j)) (data_packet (of_nat j) (ms ! j)))
              [first_resent (length ms) i..<length ms]) @ datagrams (us_socket_fd us) (c_trace c)"
  using assms(2)
proof (rule open_connE)
  fix k
  assume k: "chownat_wf d" "c_callback c" "c_tcp c \<noteq> None"
  let ?tr = "recv_event us g # c_trace c"
  have fuel: "256 - unat i < fuel" using assms(7) by simp
  obtain tr' where rt: "retransmit os (us_socket_fd us) (us_dst us) d fuel i ?tr = (Ret (), tr')"
    and dg: "datagrams (us_socket_fd us) tr' = rev (map (resent d) [unat i..<nat (cd_id d)]) @
               datagrams (us_socket_fd us) ?tr"
    and dl: "delivered tr' = delivered ?tr"
    using retransmit_exact [OF k(1) fuel] by blast
  obtain a where "run_callback cb CHOWNAT_UDP_LOST_DATA (take 1027 g) (c\<lparr>c_trace := tr'\<rparr>) =
      (Ret (), c\<lparr>c_trace := EvCallback CHOWNAT_UDP_LOST_DATA (take 1027 g) # tr', c_app := a\<rparr>)"
    using run_callback_passive [OF assms(1), of "c\<lparr>c_trace := tr'\<rparr>"] k by auto
  then have "chownat_udp_recv os cb fuel (Some m) n (Some r) c = (Ret (UDP_CONN_OK, Some m, Some 0),
      c\<lparr>c_trace := EvCallback CHOWNAT_UDP_LOST_DATA (take 1027 g) # tr', c_app := a\<rparr>)"
    by (simp add: recv_refines [OF assms(2,4,5)] recv_spec_def assms(6) on_trace_eq rt)
  from this dg dl show ?thesis
    by (intro that [of "c\<lparr>c_trace := EvCallback CHOWNAT_UDP_LOST_DATA (take 1027 g) # tr', c_app := a\<rparr>"])
       (simp_all add: assms(2) resent_window [OF assms(3)])
qed


text \<open>A store with one message of four bytes, and one whose 256 slots were all used once.\<close>

definition one_sent :: chownat_data where
  "one_sent = sent_data fresh_data [1, 2, 3, 4]"

definition round_sent :: chownat_data where
  "round_sent = fresh_data\<lparr>cd_buffer := replicate 256 (overwrite (replicate 1027 0) [7]),
     cd_sizes := replicate 256 1\<rparr>"

lemma one_sent: "chownat_wf one_sent" "cd_closed one_sent = 0" "stored [[1, 2, 3, 4]] one_sent"
  using sent_data_wf [OF fresh_data_wf, of "[1, 2, 3, 4]"]
    stored_sent [OF fresh_data_wf _ stored_fresh, of "[1, 2, 3, 4]"]
  by (simp_all add: one_sent_def) (simp add: sent_data_def)

lemma round_sent: "chownat_wf round_sent" "cd_closed round_sent = 0" "stored (replicate 256 [7]) round_sent"
  by (simp_all add: round_sent_def chownat_wf_def fresh_data_def stored_def in_slot_def overwrite_def)

definition asking_os :: "byte list \<Rightarrow> os" where
  "asking_os g = quiet_os\<lparr>os_recv := (\<lambda>tr fd dw. Inr g)\<rparr>"

lemma asking_os_recv [simp]: "os_recv (asking_os g) tr fd dw = Inr g"
  by (simp add: asking_os_def)


text \<open>What the receiver can make of one retransmitted datagram.\<close>

definition cut_packet :: "nat \<Rightarrow> byte list \<Rightarrow> wire" where
  "cut_packet j m = (if length m < 3 then Keepalive else Data (of_nat j) (take (length m - 3) m))"

lemma parse_cut: "parse (take (length m) (data_packet (of_nat j) m)) = cut_packet j m"
proof (cases "length m < 3")
  case False
  then obtain l where "length m = Suc (Suc (Suc l))"
    by (metis (no_types, lifting) add_Suc le_add_diff_inverse not_less numeral_3_eq_3 plus_nat.add_0)
  then show ?thesis by (simp add: parse_def cut_packet_def data_packet_def msg_defs numeral_3_eq_3)
qed (simp add: parse_short cut_packet_def)

text \<open>
  C38. Recovery does not restore the stream: the receiver reads each retransmitted message without
  its last three bytes, and a message shorter than three bytes as a keep-alive, so it never arrives.
\<close>

theorem chownat_retransmission_truncates:
  assumes "passive_user cb" and "open_conn us d c" and "stored ms d" and "n \<le> length m"
    and "os_recv os (c_trace c) (us_socket_fd us) False = Inr (request_packet i)" and "256 < fuel"
  shows "\<exists>c' st gs. chownat_udp_recv os cb fuel (Some m) n (Some r) c = (Ret st, c') \<and>
     datagrams (us_socket_fd us) (c_trace c') = rev gs @ datagrams (us_socket_fd us) (c_trace c) \<and>
     map parse gs = map (\<lambda>j. cut_packet j (ms ! j)) [first_resent (length ms) i..<length ms]"
proof -
  have "parse (take 1027 (request_packet i)) = Request i"
    using parse_print [of "Request i"] by (simp add: request_packet_def msg_defs)
  then obtain c' where "chownat_udp_recv os cb fuel (Some m) n (Some r) c =
      (Ret (UDP_CONN_OK, Some m, Some 0), c')"
    and "datagrams (us_socket_fd us) (c_trace c') =
      rev (map (\<lambda>j. take (length (ms ! j)) (data_packet (of_nat j) (ms ! j)))
              [first_resent (length ms) i..<length ms]) @ datagrams (us_socket_fd us) (c_trace c)"
    by (rule request_step [OF assms(1-5) _ assms(6)])
  then show ?thesis by (intro exI conjI) (assumption, assumption, simp add: parse_cut comp_def)
qed

theorem chownat_retransmission_truncates_witness:
  "\<exists>c' st gs. chownat_udp_recv (asking_os (request_packet 0)) (udp_conn_calback quiet_os 9 (Suc 0)) 257
       (Some [0, 0]) 2 (Some 5) (tunnel_conn CHR ''s'' one_sent) = (Ret st, c') \<and>
     datagrams 3 (c_trace c') = rev gs \<and> map parse gs = [Data 0 [1]]"
  using chownat_retransmission_truncates [OF demo_user tunnel_conn_open [OF one_sent(1,2), of "CHR ''s''"] one_sent(3),
      where n = 2 and m = "[0, 0]" and os = "asking_os (request_packet 0)" and i = 0 and fuel = 257 and r = 5]
  by (auto simp: first_resent_def cut_packet_def)

text \<open>
  C39. After the numbers wrapped, a request for a number that the current round has not reached is
  ignored although the message is still stored: a packet lost just before the wrap is never sent
  again.
\<close>

theorem chownat_wrap_not_resent:
  assumes "passive_user cb" and "open_conn us d c" and "stored ms d" and "n \<le> length m"
    and "os_recv os (c_trace c) (us_socket_fd us) False = Inr (request_packet i)" and "256 < fuel"
    and "j < length ms" and "length ms \<le> j + 256" and "j mod 256 = unat i"
    and "length ms mod 256 \<le> unat i"
  shows "in_slot d (unat i) (ms ! j) \<and>
     (\<exists>c' st. chownat_udp_recv os cb fuel (Some m) n (Some r) c = (Ret st, c') \<and>
        datagrams (us_socket_fd us) (c_trace c') = datagrams (us_socket_fd us) (c_trace c))"
proof -
  have "parse (take 1027 (request_packet i)) = Request i"
    using parse_print [of "Request i"] by (simp add: request_packet_def msg_defs)
  then obtain c' where "chownat_udp_recv os cb fuel (Some m) n (Some r) c =
      (Ret (UDP_CONN_OK, Some m, Some 0), c')"
    and "datagrams (us_socket_fd us) (c_trace c') =
      rev (map (\<lambda>j. take (length (ms ! j)) (data_packet (of_nat j) (ms ! j)))
              [first_resent (length ms) i..<length ms]) @ datagrams (us_socket_fd us) (c_trace c)"
    by (rule request_step [OF assms(1-5) _ assms(6)])
  moreover have "length ms \<le> first_resent (length ms) i"
    using assms(10) by (simp add: first_resent_def)
  moreover have "in_slot d (unat i) (ms ! j)" using assms(3,7-9) by (auto simp: stored_def)
  ultimately show ?thesis by auto
qed

theorem chownat_wrap_not_resent_witness:
  "in_slot round_sent 255 [7] \<and>
     (\<exists>c' st. chownat_udp_recv (asking_os (request_packet 255)) (udp_conn_calback quiet_os 9 (Suc 0)) 257
        (Some [0, 0]) 2 (Some 5) (tunnel_conn CHR ''s'' round_sent) = (Ret st, c') \<and>
        datagrams 3 (c_trace c') = [])"
  using chownat_wrap_not_resent [OF demo_user tunnel_conn_open [OF round_sent(1,2), of "CHR ''s''"] round_sent(3),
      where n = 2 and m = "[0, 0]" and os = "asking_os (request_packet 255)" and i = 255 and fuel = 257
        and j = 255 and r = 5]
  by simp

end
