(* ===== verification/Chownat_Delivery.thy ===== *)
theory Chownat_Delivery
  imports Chownat_Stream "HOL-Library.Sublist"
begin

text \<open>
  Delivery over the CHOWNAT backend: the receiver refines an abstract receiver that counts messages
  without bound, as long as no datagram is delayed by a whole round of sequence numbers, and what one
  side sends in any number reaches the user of the other side when the network loses nothing.
\<close>

section \<open>The abstract receiver\<close>

text \<open>What the network hands over: packet \<open>k\<close> of the message sequence, or a datagram of no interest.\<close>

datatype arrival = Pkt nat | Noise "byte list"

fun arrival_bytes :: "byte list list \<Rightarrow> arrival \<Rightarrow> byte list" where
  "arrival_bytes ms (Pkt k) = data_packet (of_nat k) (ms ! k)"
| "arrival_bytes ms (Noise g) = g"

fun accept :: "arrival \<Rightarrow> nat \<Rightarrow> nat" where
  "accept (Pkt k) n = (if k = n then Suc n else n)"
| "accept (Noise g) n = n"

fun accept_all :: "nat \<Rightarrow> arrival list \<Rightarrow> nat" where
  "accept_all n [] = n"
| "accept_all n (a # as) = accept_all (accept a n) as"

text \<open>
  A packet arrives less than 256 messages before or behind the one expected; other datagrams are
  keep-alives, handshakes or of an unknown kind.
\<close>

fun timely :: "byte list list \<Rightarrow> nat \<Rightarrow> arrival \<Rightarrow> bool" where
  "timely ms n (Pkt k) \<longleftrightarrow> k < length ms \<and> k < n + 256 \<and> n < k + 256"
| "timely ms n (Noise g) \<longleftrightarrow> parse (take 1027 g) = Keepalive \<or> parse (take 1027 g) = Handshake \<or>
     parse (take 1027 g) = Unknown"

fun all_timely :: "byte list list \<Rightarrow> nat \<Rightarrow> arrival list \<Rightarrow> bool" where
  "all_timely ms n [] = True"
| "all_timely ms n (a # as) = (timely ms n a \<and> all_timely ms (accept a n) as)"

lemma accept_all_mono: "n \<le> accept_all n as"
proof (induction as arbitrary: n)
  case (Cons a as)
  have "n \<le> accept a n" by (cases a) simp_all
  with Cons.IH [of "accept a n"] show ?case by simp
qed simp

lemma accept_all_bounded:
  "all_timely ms n as \<Longrightarrow> n \<le> length ms \<Longrightarrow> accept_all n as \<le> length ms"
proof (induction as arbitrary: n)
  case (Cons a as)
  then have "accept a n \<le> length ms" by (cases a) auto
  with Cons show ?case by simp
qed simp

lemma accept_all_subseq:
  "subseq (map Pkt [n..<hi]) as \<Longrightarrow> n \<le> hi \<Longrightarrow> hi \<le> accept_all n as"
proof (induction as arbitrary: n)
  case Nil
  then show ?case by (cases "n < hi") (simp_all add: upt_conv_Cons)
next
  case (Cons a as)
  show ?case
  proof (cases "n < hi")
    case False
    then show ?thesis using Cons.prems accept_all_mono [of n "a # as"] by simp
  next
    case True
    then have "subseq (map Pkt [accept a n..<hi]) as"
      using Cons.prems(1) by (cases a) (auto simp: upt_conv_Cons split: if_splits)
    moreover have "accept a n \<le> hi" using True by (cases a) simp_all
    ultimately show ?thesis using Cons.IH by simp
  qed
qed

section \<open>The receiver\<close>

text \<open>One receive for every datagram, in the order of arrival.\<close>

fun receive_all :: "os \<Rightarrow> 'a chownat_callback \<Rightarrow> nat \<Rightarrow> byte list \<Rightarrow> byte list list \<Rightarrow> ('a, unit) chownat_op" where
  "receive_all os cb fuel m [] c = (Ret (), c)"
| "receive_all os cb fuel m (g # gs) c =
     chain (chownat_udp_recv (os\<lparr>os_recv := (\<lambda>tr fd dw. Inr g)\<rparr>) cb fuel (Some m) TCP_MTU_SIZE (Some 0) c)
       (\<lambda>_ c'. receive_all os cb fuel m gs c')"

lemma parse_data_packet: "length p \<le> 1024 \<Longrightarrow> parse (take 1027 (data_packet i p)) = Data i p"
  using parse_print [of "Data i p"] by (simp add: data_packet_def msg_defs)

lemma seq_eq_iff:
  fixes k n :: nat
  assumes "k < n + 256" and "n < k + 256"
  shows "uint (of_nat k :: byte) = int (n mod 256) \<longleftrightarrow> k = n"
proof -
  have "uint (of_nat k :: byte) = int (k mod 256)" by (simp add: unsigned_of_nat take_bit_eq_mod)
  moreover have "k mod 256 = n mod 256 \<longleftrightarrow> k = n"
    using assms mod_256_inj [of k n] mod_256_inj [of n k] by (metis linorder_neqE_nat)
  ultimately show ?thesis by simp
qed

lemma receive_data:
  assumes "passive_user cb" and "open_conn us d c" and "length m = 1024" and "length p \<le> 1024"
    and "uint i = cd_expected d"
  obtains c' where "receive_all os cb fuel m (data_packet i p # gs) c = receive_all os cb fuel m gs c'"
    and "open_conn us (d\<lparr>cd_expected := (cd_expected d + 1) mod 256\<rparr>) c'"
    and "delivered (c_trace c') = delivered (c_trace c) @ [p]"
  using assms(2)
proof (rule open_connE)
  fix k
  assume k: "chownat_wf d" "cd_closed d = 0" "c_callback c" "c_tcp c \<noteq> None"
  let ?d = "d\<lparr>cd_expected := (cd_expected d + 1) mod 256\<rparr>"
  let ?c = "c\<lparr>c_trace := recv_event us (data_packet i p) # c_trace c, c_data := Some ?d\<rparr>"
  have "chownat_wf ?d"
    using wf_expected [OF k(1)] k(1) by (simp add: next_seq_mod chownat_wf_def [of d])
  then have opn: "open_conn us ?d (c\<lparr>c_data := Some ?d\<rparr>)"
    using open_conn_data [OF assms(2), of ?d] k(2) by simp
  obtain a where "run_callback cb CHOWNAT_UDP_RECV_DATA p ?c =
      (Ret (), ?c\<lparr>c_trace := EvCallback CHOWNAT_UDP_RECV_DATA p # c_trace ?c, c_app := a\<rparr>)"
    using run_callback_passive [OF assms(1), of ?c] k by auto
  then have "receive_all os cb fuel m (data_packet i p # gs) c = receive_all os cb fuel m gs
      (?c\<lparr>c_trace := EvCallback CHOWNAT_UDP_RECV_DATA p # c_trace ?c, c_app := a\<rparr>)"
    using assms(3-5) recv_refines [OF assms(2), of 1024 m "os\<lparr>os_recv := (\<lambda>tr fd dw. Inr (data_packet i p))\<rparr>"
        "data_packet i p" cb fuel 0]
    by (simp add: recv_spec_def parse_data_packet set_data_def)
  from that [OF this] opn show ?thesis by simp
qed

lemma receive_other:
  assumes "open_conn us d c" and "length m = 1024"
    and "parse (take 1027 g) = Keepalive \<or> parse (take 1027 g) = Handshake \<or>
       parse (take 1027 g) = Unknown \<or>
       (\<exists>i p. parse (take 1027 g) = Data i p \<and> uint i \<noteq> cd_expected d)"
  obtains c' where "receive_all os cb fuel m (g # gs) c = receive_all os cb fuel m gs c'"
    and "open_conn us d c'" and "delivered (c_trace c') = delivered (c_trace c)"
proof -
  let ?c = "snd (recv_spec (os\<lparr>os_recv := (\<lambda>tr fd dw. Inr g)\<rparr>) cb fuel us d (take 1027 g) m 1024
    (c\<lparr>c_trace := recv_event us g # c_trace c\<rparr>))"
  have "receive_all os cb fuel m (g # gs) c = receive_all os cb fuel m gs ?c"
    using recv_refines [OF assms(1), of 1024 m "os\<lparr>os_recv := (\<lambda>tr fd dw. Inr g)\<rparr>" g cb fuel 0] assms(2,3)
    by (auto simp: recv_spec_def)
  moreover have "open_conn us d ?c \<and> delivered (c_trace ?c) = delivered (c_trace c)"
    using assms(1,3) by (auto simp: recv_spec_def on_trace_eq sys_defs Let_def)
  ultimately show ?thesis using that by blast
qed

section \<open>In-order delivery\<close>

lemma receive_arrival:
  assumes "passive_user cb" and "open_conn us d c" and "length m = 1024"
    and "cd_expected d = int (n mod 256)" and "\<forall>p \<in> set ms. length p \<le> 1024" and "timely ms n a"
  obtains d' c' where
    "receive_all os cb fuel m (arrival_bytes ms a # gs) c = receive_all os cb fuel m gs c'"
    and "open_conn us d' c'" and "cd_expected d' = int (accept a n mod 256)"
    and "delivered (c_trace c') = delivered (c_trace c) @ map ((!) ms) [n..<accept a n]"
proof (cases a)
  case (Noise g)
  then obtain c' where "receive_all os cb fuel m (g # gs) c = receive_all os cb fuel m gs c'"
    "open_conn us d c'" "delivered (c_trace c') = delivered (c_trace c)"
    using receive_other [OF assms(2,3)] assms(6) by (metis timely.simps(2))
  with that [of c' d] Noise assms(4) show ?thesis by simp
next
  case (Pkt k)
  then have len: "length (ms ! k) \<le> 1024" using assms(5,6) by simp
  show ?thesis
  proof (cases "k = n")
    case True
    then have "uint (of_nat k :: byte) = cd_expected d"
      using assms(4) by (simp add: unsigned_of_nat take_bit_eq_mod)
    then obtain c' where "receive_all os cb fuel m (data_packet (of_nat k) (ms ! k) # gs) c =
        receive_all os cb fuel m gs c'"
      "open_conn us (d\<lparr>cd_expected := (cd_expected d + 1) mod 256\<rparr>) c'"
      "delivered (c_trace c') = delivered (c_trace c) @ [ms ! k]"
      using receive_data [OF assms(1-3) len] by blast
    with that [of c' "d\<lparr>cd_expected := (cd_expected d + 1) mod 256\<rparr>"] Pkt True assms(4)
    show ?thesis by (simp add: int_Suc_mod)
  next
    case False
    then have "uint (of_nat k :: byte) \<noteq> cd_expected d"
      using assms(4,6) Pkt seq_eq_iff [of k n] by simp
    then obtain c' where "receive_all os cb fuel m (data_packet (of_nat k) (ms ! k) # gs) c =
        receive_all os cb fuel m gs c'"
      "open_conn us d c'" "delivered (c_trace c') = delivered (c_trace c)"
      using receive_other [OF assms(2,3), of "data_packet (of_nat k) (ms ! k)"] parse_data_packet [OF len] by blast
    with that [of c' d] Pkt False assms(4) show ?thesis by simp
  qed
qed

lemma receive_arrivals:
  assumes "passive_user cb" and "open_conn us d c" and "length m = 1024"
    and "cd_expected d = int (n mod 256)" and "\<forall>p \<in> set ms. length p \<le> 1024" and "all_timely ms n as"
  shows "\<exists>d' c'. receive_all os cb fuel m (map (arrival_bytes ms) as) c = (Ret (), c') \<and>
     open_conn us d' c' \<and> cd_expected d' = int (accept_all n as mod 256) \<and>
     delivered (c_trace c') = delivered (c_trace c) @ map ((!) ms) [n..<accept_all n as]"
  using assms(2,4,6)
proof (induction as arbitrary: n d c)
  case (Cons a as)
  then have timely: "timely ms n a" by simp
  obtain d1 c1 where one:
    "receive_all os cb fuel m (arrival_bytes ms a # map (arrival_bytes ms) as) c =
       receive_all os cb fuel m (map (arrival_bytes ms) as) c1"
    "open_conn us d1 c1" "cd_expected d1 = int (accept a n mod 256)"
    "delivered (c_trace c1) = delivered (c_trace c) @ map ((!) ms) [n..<accept a n]"
    by (rule receive_arrival [OF assms(1) Cons.prems(1) assms(3) Cons.prems(2) assms(5) timely])
  have "n \<le> accept a n" by (cases a) simp_all
  then have "[n..<accept_all (accept a n) as] = [n..<accept a n] @ [accept a n..<accept_all (accept a n) as]"
    using accept_all_mono [of "accept a n" as] by (metis le_iff_add upt_add_eq_append)
  with one Cons.IH [OF one(2,3)] Cons.prems(3) show ?case by auto
qed auto

text \<open>
  C4. The receiver refines the abstract receiver: however the network loses, repeats and reorders
  packets and mixes other datagrams in, the user gets exactly the next messages of the sequence, each
  once and in order, as long as no packet is a round of 256 numbers away from the expected one.
\<close>

theorem chownat_in_order:
  assumes "passive_user cb" and "open_conn us d c" and "length m = TCP_MTU_SIZE"
    and "cd_expected d = int (n mod 256)" and "\<forall>p \<in> set ms. length p \<le> TCP_MTU_SIZE"
    and "all_timely ms n as"
  shows "\<exists>c'. receive_all os cb fuel m (map (arrival_bytes ms) as) c = (Ret (), c') \<and>
     delivered (c_trace c') = delivered (c_trace c) @ map ((!) ms) [n..<accept_all n as]"
  using receive_arrivals [OF assms] by blast

text \<open>Packet 1 overtakes packet 0, which comes twice.\<close>

theorem chownat_in_order_witness:
  "\<exists>c'. receive_all quiet_os (udp_conn_calback quiet_os 9 (Suc 0)) 9 (replicate 1024 0)
       (map (arrival_bytes [[104], [105]]) [Pkt 1, Pkt 0, Pkt 0, Noise [0]])
       (tunnel_conn CHR ''s'' fresh_data) = (Ret (), c') \<and> delivered (c_trace c') = [[104]]"
  using chownat_in_order [OF demo_user demo_server,
      where m = "replicate 1024 0" and n = 0 and ms = "[[104], [105]]" and as = "[Pkt 1, Pkt 0, Pkt 0, Noise [0]]"
        and os = quiet_os and fuel = 9]
  by (simp add: parse_short)

text \<open>
  If moreover every missing packet arrives in its turn, everything is delivered: the messages the
  user got are the whole rest of the sequence.
\<close>

theorem chownat_complete_delivery:
  assumes "passive_user cb" and "open_conn us d c" and "length m = TCP_MTU_SIZE"
    and "cd_expected d = int (n mod 256)" and "\<forall>p \<in> set ms. length p \<le> TCP_MTU_SIZE"
    and "all_timely ms n as" and "n \<le> length ms" and "subseq (map Pkt [n..<length ms]) as"
  shows "\<exists>c'. receive_all os cb fuel m (map (arrival_bytes ms) as) c = (Ret (), c') \<and>
     delivered (c_trace c') = delivered (c_trace c) @ drop n ms"
proof -
  have "accept_all n as = length ms"
    using accept_all_bounded [OF assms(6,7)] accept_all_subseq [OF assms(8,7)] by simp
  moreover have "map ((!) ms) [n..<length ms] = drop n ms"
    by (rule nth_equalityI) simp_all
  ultimately show ?thesis using receive_arrivals [OF assms(1-6)] by metis
qed

theorem chownat_complete_delivery_witness:
  "\<exists>c'. receive_all quiet_os (udp_conn_calback quiet_os 9 (Suc 0)) 9 (replicate 1024 0)
       (map (arrival_bytes [[104], [105]]) [Pkt 1, Pkt 0, Pkt 0, Pkt 1])
       (tunnel_conn CHR ''s'' fresh_data) = (Ret (), c') \<and> delivered (c_trace c') = [[104], [105]]"
  using chownat_complete_delivery [OF demo_user demo_server,
      where m = "replicate 1024 0" and n = 0 and ms = "[[104], [105]]" and as = "[Pkt 1, Pkt 0, Pkt 0, Pkt 1]"
        and os = quiet_os and fuel = 9]
  by (simp add: upt_conv_Cons)

lemma timely_in_turn: "n \<le> hi \<Longrightarrow> hi \<le> length ms \<Longrightarrow> all_timely ms n (map Pkt [n..<hi])"
  by (induction "hi - n" arbitrary: n) (simp_all add: upt_conv_Cons)

lemma accept_all_turn: "n \<le> hi \<Longrightarrow> accept_all n (map Pkt [n..<hi]) = hi"
  by (induction "hi - n" arbitrary: n) (simp_all add: upt_conv_Cons)

text \<open>
  End to end: the packets one connection sends for any number of messages, handed over in order
  to a connection that expects its first number, arrive at the user as exactly these messages, across
  any number of wraps of the sequence number.
\<close>

theorem chownat_end_to_end:
  assumes "passive_user cbA" and "open_conn usA dA a" and "stored [] dA"
    and "\<forall>x \<in> set bs. length x \<le> TCP_MTU_SIZE" and "datagrams (us_socket_fd usA) (c_trace a) = []"
    and "passive_user cbB" and "open_conn usB dB b" and "cd_expected dB = 0"
    and "delivered (c_trace b) = []" and "length m = TCP_MTU_SIZE"
  shows "\<exists>a' b'. api_steps (chownat_api osA cbA fuelA) (send_calls bs) a = (Ret (), a') \<and>
     receive_all osB cbB fuelB m (rev (datagrams (us_socket_fd usA) (c_trace a'))) b = (Ret (), b') \<and>
     delivered (c_trace b') = bs"
proof -
  obtain dA' a' where a': "api_steps (chownat_api osA cbA fuelA) (send_calls bs) a = (Ret (), a')"
    "rev (datagrams (us_socket_fd usA) (c_trace a')) = packets bs 0 (length bs)"
    using chownat_send [OF assms(1-4)] assms(5) by fastforce
  have packets: "packets bs 0 (length bs) = map (arrival_bytes bs) (map Pkt [0..<length bs])"
    by (simp add: packets_def)
  obtain b' where "receive_all osB cbB fuelB m (packets bs 0 (length bs)) b = (Ret (), b')"
    "delivered (c_trace b') = bs"
    using receive_arrivals [OF assms(6,7,10), of 0 bs "map Pkt [0..<length bs]" osB fuelB]
      assms(4,8,9) timely_in_turn [of 0 "length bs" bs] accept_all_turn [of 0 "length bs"]
    by (auto simp: packets map_nth)
  with a' show ?thesis by auto
qed

theorem chownat_end_to_end_witness:
  "\<exists>a' b'. api_steps (chownat_api quiet_os (udp_conn_calback quiet_os 9 (Suc 0)) 9)
       (send_calls [[104], [105]]) (tunnel_conn CHR ''c'' fresh_data) = (Ret (), a') \<and>
     receive_all quiet_os (udp_conn_calback quiet_os 9 (Suc 0)) 9 (replicate 1024 0)
       (rev (datagrams 3 (c_trace a'))) (tunnel_conn CHR ''s'' fresh_data) = (Ret (), b') \<and>
     delivered (c_trace b') = [[104], [105]]"
  using chownat_end_to_end [OF demo_user demo_client stored_fresh [OF fresh_data_closed(2)] _ _
      demo_user demo_server fresh_data_closed(3), where bs = "[[104], [105]]"
        and m = "replicate 1024 0" and osA = quiet_os and fuelA = 9 and osB = quiet_os and fuelB = 9]
  by simp

end
