(* ===== verification/Chownat_Control.thy ===== *)
theory Chownat_Control
  imports Chownat_Delivery
begin

text \<open>
  The control plane of the CHOWNAT backend: initialisation and the life cycle of a connection, hole
  punching in both modes (bounds, when it succeeds, when it returns at all), and disconnecting from
  both sides with what happens to the descriptors.
\<close>

section \<open>Scripted networks\<close>

text \<open>The entries of a script that the trace has not consumed.\<close>

definition left :: "(errno + byte list) list \<Rightarrow> trace \<Rightarrow> nat" where
  "left rs tr = length rs - count_recvs tr"

lemma recv3_script:
  assumes "os_recv os = script_recv rs" and "recv3 os fd buf tr = (res, tr')"
  shows "count_recvs tr' = Suc (count_recvs tr)"
    and "left rs tr' = left rs tr - 1"
    and "res \<noteq> None \<Longrightarrow> 0 < left rs tr"
    and "datagrams fd' tr' = datagrams fd' tr"
  using assms by (auto simp: recv3_def sys_defs Let_def left_def script_recv_def
      split: sum.splits if_splits)

lemma sendto_frame:
  assumes "sys_sendto os fd bs dst dw tr = (r, tr')"
  shows "count_recvs tr' = count_recvs tr" and "left rs tr' = left rs tr"
    and "datagrams fd tr' = bs # datagrams fd tr"
  using assms by (auto simp: sys_defs Let_def left_def)

lemma recv3_frame:
  assumes "recv3 os fd buf tr = (res, tr')"
  shows "count_recvs tr' = Suc (count_recvs tr)" and "datagrams fd' tr' = datagrams fd' tr"
  using assms by (auto simp: recv3_def sys_defs Let_def split: sum.splits)

section \<open>Hole punching: the client\<close>

lemma client_bounds:
  assumes "hole_punching_client os fd dst n tr = (st, tr')"
  shows "\<exists>k \<le> n. count_recvs tr' = count_recvs tr + k \<and>
     (st = UDP_CONN_OK \<and> 0 < k \<and> datagrams fd tr' = msg03 # replicate k msg01 @ datagrams fd tr \<or>
      st = UDP_CONN_ERR \<and> k = n \<and> datagrams fd tr' = replicate k msg01 @ datagrams fd tr)"
  using assms
proof (induction n arbitrary: tr)
  case (Suc n)
  obtain r1 tr1 where s: "sys_sendto os fd msg01 dst False tr = (r1, tr1)" by fastforce
  obtain res tr2 where v: "recv3 os fd (garbage os 4 tr1) tr1 = (res, tr2)" by fastforce
  note f = sendto_frame [OF s] recv3_frame(1) [OF v] recv3_frame(2) [OF v, of fd]
  show ?case
  proof (cases "\<exists>buffer. res = Some buffer \<and> strncmp_eq 3 buffer (msg03 @ [0])")
    case True
    then show ?thesis using Suc.prems s v f
      by (intro exI [where x = 1]) (auto simp: sys_defs Let_def)
  next
    case False
    then have "hole_punching_client os fd dst n tr2 = (st, tr')"
      using Suc.prems s v by (auto split: option.splits)
    from Suc.IH [OF this] obtain k where k: "k \<le> n" "count_recvs tr' = count_recvs tr2 + k"
      "st = UDP_CONN_OK \<and> 0 < k \<and> datagrams fd tr' = msg03 # replicate k msg01 @ datagrams fd tr2 \<or>
       st = UDP_CONN_ERR \<and> k = n \<and> datagrams fd tr' = replicate k msg01 @ datagrams fd tr2"
      by blast
    then show ?thesis using f
      by (intro exI [where x = "Suc k"]) (auto simp: replicate_append_same replicate_app_Cons_same)
  qed
qed auto

text \<open>An answer that opens the connection; every answer is an error or a full control message.\<close>

definition opens :: "(errno + byte list) \<Rightarrow> bool" where
  "opens r = (case r of Inl e \<Rightarrow> False | Inr g \<Rightarrow> take 3 g = msg03)"

definition full_answer :: "(errno + byte list) \<Rightarrow> bool" where
  "full_answer r = (case r of Inl e \<Rightarrow> True | Inr g \<Rightarrow> 3 \<le> length g)"

lemma recv3_full:
  assumes "recv3 os fd buf tr = (Some buffer, tr')" and "length buf = 4"
    and "full_answer (os_recv os tr fd False)"
  obtains g where "os_recv os tr fd False = Inr g" and "buffer = take 3 g @ [0]" and "length (take 3 g) = 3"
proof -
  obtain x where x: "drop 3 buf = [x]"
    using assms(2) Cons_nth_drop_Suc [of 3 buf] that [of "buf ! 3"] by simp
  obtain g where g: "os_recv os tr fd False = Inr g" "3 \<le> length g"
    using assms(1,3) by (auto simp: recv3_def sys_defs Let_def full_answer_def split: sum.splits)
  then have "buffer = (take 3 g @ [x])[3 := 0]"
    using assms(1) x by (auto simp: recv3_def sys_defs Let_def overwrite_def min_def)
  then have "buffer = take 3 g @ [0]" using g(2) by (simp add: list_update_append)
  with that [OF g(1)] g(2) show ?thesis by simp
qed

lemma recv3_opens:
  assumes "recv3 os fd buf tr = (Some buffer, tr')" and "length buf = 4"
    and "full_answer (os_recv os tr fd False)"
  shows "strncmp_eq 3 buffer (msg03 @ [0]) \<longleftrightarrow> opens (os_recv os tr fd False)"
    and "strcmp_eq buffer (msg03 @ [0]) \<longleftrightarrow> opens (os_recv os tr fd False)"
proof -
  obtain g where g: "os_recv os tr fd False = Inr g" "buffer = take 3 g @ [0]" "length (take 3 g) = 3"
    by (rule recv3_full [OF assms])
  then show "strncmp_eq 3 buffer (msg03 @ [0]) \<longleftrightarrow> opens (os_recv os tr fd False)"
    by (simp add: strncmp_eq_nonzero msg_defs opens_def)
  show "strcmp_eq buffer (msg03 @ [0]) \<longleftrightarrow> opens (os_recv os tr fd False)"
    using g strcmp_eq_terminated [of msg03 "take 3 g"] by (simp add: msg_defs opens_def)
qed

lemma script_full:
  "\<forall>r \<in> set rs. full_answer r \<Longrightarrow> full_answer (script_recv rs tr fd dw)"
  by (auto simp: script_recv_def full_answer_def)

lemma script_opens:
  "opens (script_recv rs tr fd dw) \<longleftrightarrow> count_recvs tr < length rs \<and> opens (rs ! count_recvs tr)"
  by (simp add: script_recv_def opens_def)

lemma client_opens:
  assumes "hole_punching_client os fd dst n tr = (st, tr')"
    and "os_recv os = script_recv rs" and "\<forall>r \<in> set rs. full_answer r"
  shows "st = UDP_CONN_OK \<longleftrightarrow>
     (\<exists>i < n. count_recvs tr + i < length rs \<and> opens (rs ! (count_recvs tr + i)))"
  using assms(1)
proof (induction n arbitrary: tr)
  case (Suc n)
  obtain r1 tr1 where s: "sys_sendto os fd msg01 dst False tr = (r1, tr1)" by fastforce
  obtain res tr2 where v: "recv3 os fd (garbage os 4 tr1) tr1 = (res, tr2)" by fastforce
  have full: "full_answer (os_recv os tr1 fd False)" using assms(2,3) by (simp add: script_full)
  have now: "opens (os_recv os tr1 fd False) \<longleftrightarrow>
      count_recvs tr < length rs \<and> opens (rs ! count_recvs tr)"
    using sendto_frame(1) [OF s] assms(2) by (simp add: script_opens)
  have answer: "(\<exists>buffer. res = Some buffer \<and> strncmp_eq 3 buffer (msg03 @ [0])) \<longleftrightarrow>
      opens (os_recv os tr1 fd False)"
  proof (cases res)
    case None
    then have "\<not> opens (os_recv os tr1 fd False)"
      using v by (auto simp: recv3_def sys_defs Let_def opens_def split: sum.splits)
    with None show ?thesis by simp
  next
    case (Some buffer)
    with v recv3_opens(1) [of os fd "garbage os 4 tr1" tr1 buffer tr2] full show ?thesis by simp
  qed
  show ?case
  proof (cases "opens (os_recv os tr1 fd False)")
    case True
    then show ?thesis using Suc.prems s v now answer by (auto simp: Ex_less_Suc2)
  next
    case False
    then have "hole_punching_client os fd dst n tr2 = (st, tr')"
      using Suc.prems s v answer by (auto split: option.splits)
    from Suc.IH [OF this] False now show ?thesis
      using recv3_frame(1) [OF v] sendto_frame(1) [OF s] by (auto simp: Ex_less_Suc2)
  qed
qed simp

section \<open>Hole punching: the server\<close>

lemma confirm_returns:
  assumes "os_recv os = script_recv rs"
  shows "left rs tr + n < fuel \<Longrightarrow>
     \<exists>v tr'. hole_punching_confirm os fd dst fuel n buf tr = (Ret v, tr') \<and> left rs tr' \<le> left rs tr"
proof (induction fuel arbitrary: n buf tr)
  case (Suc fuel)
  show ?case
  proof (cases n)
    case (Suc n')
    obtain r1 tr1 where s: "sys_sendto os fd msg03 dst False tr = (r1, tr1)" by fastforce
    obtain res tr2 where v: "recv3 os fd buf tr1 = (res, tr2)" by fastforce
    note l = recv3_script(2,3) [OF assms v] sendto_frame(2) [OF s, of rs]
    show ?thesis
    proof (cases res)
      case None
      have "left rs tr2 + n' < fuel" using l Suc.prems \<open>n = Suc n'\<close> by simp
      from Suc.IH [OF this, of buf] None \<open>n = Suc n'\<close> s v l show ?thesis by fastforce
    next
      case (Some buffer)
      then have "left rs tr2 + n < fuel" using l Suc.prems by simp
      from Suc.IH [OF this, of buffer] Some \<open>n = Suc n'\<close> s v l show ?thesis by fastforce
    qed
  qed simp
qed simp

lemma send_ka_left:
  "left rs (c_trace (snd (chownat_udp_send_ka os c))) = left rs (c_trace c)"
  by (auto simp: chownat_udp_send_ka_def on_trace_eq sys_defs Let_def left_def
      split: option.splits sum.splits)

lemma send_ka_no_fuel: "fst (chownat_udp_send_ka os c) \<noteq> NoFuel"
  by (auto simp: chownat_udp_send_ka_def on_trace_eq split: option.splits sum.splits prod.splits)

lemma chain_fuel:
  assumes "fst r \<noteq> NoFuel" and "\<And>a s. r = (Ret a, s) \<Longrightarrow> fst (k a s) \<noteq> NoFuel"
  shows "fst (chain r k) \<noteq> NoFuel"
  using assms by (cases "(r, k)" rule: chain.cases) auto

lemma server_returns:
  fixes c :: "'a chownat_conn"
  assumes "os_recv os = script_recv rs"
  shows "left rs (c_trace c) + n + m < fuel \<Longrightarrow>
     fst (hole_punching_server os fd dst fuel m n buf c) \<noteq> NoFuel"
proof (induction fuel arbitrary: n buf c)
  case (Suc fuel)
  show ?case
  proof (cases n)
    case (Suc n')
    obtain res tr1 where v: "recv3 os fd buf (c_trace c) = (res, tr1)" by fastforce
    note l = recv3_script(2,3) [OF assms v]
    let ?c = "c\<lparr>c_trace := tr1\<rparr>"
    show ?thesis
    proof (cases res)
      case None
      have "fst (hole_punching_server os fd dst fuel m n' buf c2) \<noteq> NoFuel"
        if "chownat_udp_send_ka os ?c = (Ret a, c2)" for a and c2 :: "'a chownat_conn"
        using Suc.IH [of c2 n' buf] send_ka_left [of rs os ?c] that l Suc.prems \<open>n = Suc n'\<close> by simp
      then have "fst (chain (chownat_udp_send_ka os ?c)
          (\<lambda>_ c2. hole_punching_server os fd dst fuel m n' buf c2)) \<noteq> NoFuel"
        by (intro chain_fuel send_ka_no_fuel)
      with None \<open>n = Suc n'\<close> v show ?thesis by (simp add: on_trace_eq)
    next
      case (Some buffer)
      then have less: "left rs tr1 + n + m < fuel" using l Suc.prems by simp
      obtain v2 tr2 where conf: "hole_punching_confirm os fd dst fuel m buffer tr1 = (Ret v2, tr2)"
        and left2: "left rs tr2 \<le> left rs tr1"
        using confirm_returns [OF assms, of tr1 m fuel fd dst buffer] less by auto
      obtain st b2 where v2: "v2 = (st, b2)" by fastforce
      have ih: "left rs (c_trace c2) \<le> left rs tr1 \<Longrightarrow>
          fst (hole_punching_server os fd dst fuel m (Suc n') b c2) \<noteq> NoFuel"
        for b and c2 :: "'a chownat_conn"
        using Suc.IH [of c2 "Suc n'" b] less \<open>n = Suc n'\<close> by simp
      from Some \<open>n = Suc n'\<close> v conf v2 left2 ih show ?thesis
        by (auto simp: on_trace_eq split: option.splits)
    qed
  qed simp
qed simp

section \<open>Hole punching: properties\<close>

text \<open>The pointers of an initialised connection, and of one that is also open.\<close>

definition has_parts ::
    "chownat_config \<Rightarrow> udp_session \<Rightarrow> chownat_data \<Rightarrow> udp_conn_ctrl \<Rightarrow> 'a chownat_conn \<Rightarrow> bool" where
  "has_parts cfg us d k c \<longleftrightarrow> c_config c = Some cfg \<and> c_udp c = Some us \<and> c_data c = Some d \<and>
     c_ctrl c = Some k"

definition live_conn ::
    "chownat_config \<Rightarrow> udp_session \<Rightarrow> chownat_data \<Rightarrow> udp_conn_ctrl \<Rightarrow> 'a chownat_conn \<Rightarrow> bool" where
  "live_conn cfg us d k c \<longleftrightarrow> has_parts cfg us d k c \<and> cc_init k \<noteq> 0 \<and> cd_closed d = 0"

text \<open>
  C31. The client's hole punching always ends: it sends at most the configured number of \<open>01\<close>
  messages, exactly that many when it fails, and on success one \<open>03\<close> behind them; nothing else of
  the connection changes.
\<close>

theorem chownat_client_punching_bounded:
  assumes "has_parts cfg us d k c" and "cc_init k \<noteq> 0" and "cc_mode k = CHR ''c''"
  shows "\<exists>st tr n. chownat_hole_punching os fuel c = (Ret st, c\<lparr>c_trace := tr\<rparr>) \<and>
     n \<le> nat (cf_conn_max_attempts cfg) \<and>
     (st = UDP_CONN_OK \<and> 0 < n \<and>
        datagrams (us_socket_fd us) tr = msg03 # replicate n msg01 @ datagrams (us_socket_fd us) (c_trace c) \<or>
      st = UDP_CONN_ERR \<and> n = nat (cf_conn_max_attempts cfg) \<and>
        datagrams (us_socket_fd us) tr = replicate n msg01 @ datagrams (us_socket_fd us) (c_trace c))"
proof -
  obtain st tr where run: "hole_punching_client os (us_socket_fd us) (us_dst us)
      (nat (cf_conn_max_attempts cfg)) (c_trace c) = (st, tr)" by fastforce
  then have "chownat_hole_punching os fuel c = (Ret st, c\<lparr>c_trace := tr\<rparr>)"
    using assms by (simp add: chownat_hole_punching_def has_parts_def on_trace_eq)
  with client_bounds [OF run] show ?thesis by blast
qed

text \<open>
  When every datagram that arrives is a full control message, the client's hole punching
  succeeds exactly if one of the answers to its attempts is \<open>03\<close>.
\<close>

theorem chownat_client_punching_iff:
  assumes "has_parts cfg us d k c" and "cc_init k \<noteq> 0" and "cc_mode k = CHR ''c''"
    and "os_recv os = script_recv rs" and "count_recvs (c_trace c) = 0" and "\<forall>r \<in> set rs. full_answer r"
  shows "fst (chownat_hole_punching os fuel c) = Ret UDP_CONN_OK \<longleftrightarrow>
     (\<exists>i < nat (cf_conn_max_attempts cfg). i < length rs \<and> opens (rs ! i))"
proof -
  obtain st tr where run: "hole_punching_client os (us_socket_fd us) (us_dst us)
      (nat (cf_conn_max_attempts cfg)) (c_trace c) = (st, tr)" by fastforce
  then have "chownat_hole_punching os fuel c = (Ret st, c\<lparr>c_trace := tr\<rparr>)"
    using assms by (simp add: chownat_hole_punching_def has_parts_def on_trace_eq)
  with client_opens [OF run assms(4,6)] assms(5) show ?thesis by simp
qed

text \<open>
  C32. The server's hole punching ends when finitely many datagrams arrive: fuel for the script and
  twice the configured attempts is enough, whatever the datagrams are.
\<close>

theorem chownat_server_punching_returns:
  assumes "has_parts cfg us d k c" and "os_recv os = script_recv rs"
    and "length rs + 2 * nat (cf_conn_max_attempts cfg) < fuel"
  shows "fst (chownat_hole_punching os fuel c) \<noteq> NoFuel"
proof -
  have "left rs (c_trace c) \<le> length rs" by (simp add: left_def)
  then have "left rs (c_trace c) + nat (cf_conn_max_attempts cfg) + nat (cf_conn_max_attempts cfg) < fuel"
    using assms(3) by linarith
  from server_returns [OF assms(2) this] assms(1) show ?thesis
    by (auto simp: chownat_hole_punching_def has_parts_def on_trace_eq Let_def)
qed

definition demo_config :: chownat_config where
  "demo_config = \<lparr>cf_udp_recv_timeout_sec = 1, cf_reuse = 1, cf_conn_max_attempts = 20,
     cf_dconn_max_attempts = 20\<rparr>"

definition demo_ctrl :: "char \<Rightarrow> udp_conn_ctrl" where
  "demo_ctrl mode = \<lparr>cc_mode = mode, cc_init = 1, cc_read_fds = []\<rparr>"

lemma demo_parts: "has_parts demo_config test_session d (demo_ctrl m) (tunnel_conn m d)"
  by (simp add: has_parts_def demo_config_def demo_ctrl_def tunnel_conn_def test_conn_def)

lemma demo_simps [simp]:
  "cc_init (demo_ctrl m) = 1" "cc_mode (demo_ctrl m) = m" "cf_conn_max_attempts demo_config = 20"
  by (simp_all add: demo_ctrl_def demo_config_def)

definition script_os :: "(errno + byte list) list \<Rightarrow> os" where
  "script_os rs = quiet_os\<lparr>os_recv := script_recv rs\<rparr>"

lemma script_os_recv [simp]: "os_recv (script_os rs) = script_recv rs"
  by (simp add: script_os_def)

theorem chownat_client_punching_bounded_witness:
  "\<exists>st tr. chownat_hole_punching quiet_os 9 (tunnel_conn CHR ''c'' fresh_data) =
     (Ret st, (tunnel_conn CHR ''c'' fresh_data)\<lparr>c_trace := tr\<rparr>) \<and> length (datagrams 3 tr) \<le> 21"
proof -
  obtain st tr n where "chownat_hole_punching quiet_os 9 (tunnel_conn CHR ''c'' fresh_data) =
     (Ret st, (tunnel_conn CHR ''c'' fresh_data)\<lparr>c_trace := tr\<rparr>)" and "n \<le> 20"
    and "datagrams 3 tr = msg03 # replicate n msg01 \<or> datagrams 3 tr = replicate n msg01"
    using chownat_client_punching_bounded [OF demo_parts [of fresh_data "CHR ''c''"],
        where os = quiet_os and fuel = 9] by auto
  then show ?thesis by auto
qed

theorem chownat_client_punching_iff_witness:
  "fst (chownat_hole_punching (script_os [Inl EAGAIN, Inr msg01, Inr msg03]) 9
      (tunnel_conn CHR ''c'' fresh_data)) = Ret UDP_CONN_OK"
  by (subst chownat_client_punching_iff [OF demo_parts, where rs = "[Inl EAGAIN, Inr msg01, Inr msg03]"])
     (auto simp: full_answer_def opens_def msg_defs intro!: exI [where x = 2])

theorem chownat_server_punching_returns_witness:
  "fst (chownat_hole_punching (script_os [Inr msg01, Inl EAGAIN, Inr msg_ka]) 44
      (tunnel_conn CHR ''s'' fresh_data)) \<noteq> NoFuel"
  by (rule chownat_server_punching_returns [OF demo_parts, where rs = "[Inr msg01, Inl EAGAIN, Inr msg_ka]"])
     simp_all

end
