(* ===== verification/Chownat_Lifecycle.thy ===== *)
theory Chownat_Lifecycle
  imports Chownat_Control
begin

text \<open>
  The life cycle of a CHOWNAT connection: initialisation, the handshake of the two modes, the active
  and the passive disconnect with what they send and close, and what a connection that is not
  initialised or already closed still does.
\<close>

section \<open>Initialisation\<close>

text \<open>
  Initialisation succeeds exactly when the receive timeout and the address reuse were set and
  the socket was bound; then the connection is open with empty numbering and store.  Otherwise data
  and control block are untouched, and a second initialisation of an open connection is refused.
\<close>

theorem chownat_init_result:
  assumes "has_parts cfg us d k c" and "c_callback c" and "cc_init k = 0"
  shows "\<exists>st c'. chownat_init os c = (Ret st, c') \<and>
     (st = UDP_CONN_OK \<longleftrightarrow> c_trace c' = EvBind (us_socket_fd us) (us_src us) None #
        EvSetsockopt (us_socket_fd us) (SO_REUSEADDR (cf_reuse cfg)) None #
        EvSetsockopt (us_socket_fd us) (SO_RCVTIMEO \<lparr>tv_sec = cf_udp_recv_timeout_sec cfg, tv_usec = 0\<rparr>) None #
        c_trace c) \<and>
     (if st = UDP_CONN_OK
      then \<exists>d'. live_conn cfg us d' (k\<lparr>cc_init := 1\<rparr>) c' \<and> chownat_wf d' \<and> stored [] d' \<and>
             cd_expected d' = 0 \<and> chownat_init os c' = (Ret UDP_CONN_ALREADY_INIT, c')
      else st = UDP_CONN_ERR \<and> has_parts cfg us d k c')"
proof -
  let ?fd = "us_socket_fd us"
  let ?e1 = "\<lambda>r. EvSetsockopt ?fd (SO_RCVTIMEO \<lparr>tv_sec = cf_udp_recv_timeout_sec cfg, tv_usec = 0\<rparr>) r"
  let ?r1 = "os_setsockopt os (c_trace c) ?fd (SO_RCVTIMEO \<lparr>tv_sec = cf_udp_recv_timeout_sec cfg, tv_usec = 0\<rparr>)"
  let ?t1 = "?e1 ?r1 # c_trace c"
  let ?r2 = "os_setsockopt os ?t1 ?fd (SO_REUSEADDR (cf_reuse cfg))"
  let ?t2 = "EvSetsockopt ?fd (SO_REUSEADDR (cf_reuse cfg)) ?r2 # ?t1"
  let ?r3 = "os_bind os ?t2 ?fd (us_src us)"
  note defs = chownat_init_def has_parts_def on_trace_eq sys_defs Let_def
  consider (a) "?r1 \<noteq> None" | (b) "?r1 = None" "?r2 \<noteq> None" | (c) "?r1 = None" "?r2 = None" "?r3 \<noteq> None"
    | (d) "?r1 = None" "?r2 = None" "?r3 = None" by blast
  then show ?thesis
  proof cases
    case d
    then show ?thesis using assms wf_zero [of d]
      by (simp add: defs live_conn_def stored_fresh)
  qed (use assms in \<open>auto simp: defs\<close>)
qed

lemma test_conn_callback: "c_callback (test_conn m)"
  by (simp add: test_conn_def)

theorem chownat_init_result_witness:
  "\<exists>d' c'. chownat_init quiet_os (test_conn CHR ''c'') = (Ret UDP_CONN_OK, c') \<and>
     live_conn demo_config test_session d' (demo_ctrl CHR ''c'') c'"
proof -
  have parts: "has_parts demo_config test_session fresh_data (demo_ctrl CHR ''c''\<lparr>cc_init := 0\<rparr>)
      (test_conn CHR ''c'')"
    by (simp add: has_parts_def test_conn_def demo_config_def demo_ctrl_def)
  obtain st c' where run: "chownat_init quiet_os (test_conn CHR ''c'') = (Ret st, c')"
    and ok: "if st = UDP_CONN_OK
      then \<exists>d'. live_conn demo_config test_session d' (demo_ctrl CHR ''c''\<lparr>cc_init := 0, cc_init := 1\<rparr>) c'
      else st = UDP_CONN_ERR"
    using chownat_init_result [OF parts, of quiet_os] test_conn_callback by (fastforce split: if_splits)
  have "fst (chownat_init quiet_os (test_conn CHR ''c'')) = Ret UDP_CONN_OK"
    by (simp add: chownat_init_def test_conn_def on_trace_eq sys_defs Let_def)
  with run ok show ?thesis by (simp add: demo_ctrl_def)
qed

section \<open>The handshake\<close>

lemma list_of_4: "length xs = 4 \<Longrightarrow> \<exists>a b c e. xs = [a, b, c, e]"
  by (auto simp: length_Suc_conv eval_nat_numeral)

text \<open>
  Without losses the two modes agree: a client that gets what the server sends and a server that
  gets what the client sends both connect, the client after \<open>01\<close> and \<open>03\<close>, the server after one \<open>03\<close>.
\<close>

theorem chownat_handshake:
  assumes "has_parts cfgA usA dA kA a" and "cc_init kA \<noteq> 0" and "cc_mode kA = CHR ''c''"
    and "c_trace a = []" and "0 < cf_conn_max_attempts cfgA"
    and "has_parts cfgB usB dB kB b" and "cc_init kB \<noteq> 0" and "cc_mode kB = CHR ''s''"
    and "c_trace b = []" and "0 < cf_conn_max_attempts cfgB"
    and "os_recv osA = script_recv [Inr msg03]" and "os_recv osB = script_recv [Inr msg01, Inr msg03]"
    and "2 \<le> fuel"
  shows "\<exists>a' b'. chownat_hole_punching osA fuel a = (Ret UDP_CONN_OK, a') \<and>
     chownat_hole_punching osB fuel b = (Ret UDP_CONN_OK, b') \<and>
     rev (datagrams (us_socket_fd usA) (c_trace a')) = [msg01, msg03] \<and>
     rev (datagrams (us_socket_fd usB) (c_trace b')) = [msg03]"
proof -
  obtain nA where nA: "nat (cf_conn_max_attempts cfgA) = Suc nA"
    using assms(5) by (cases "nat (cf_conn_max_attempts cfgA)") auto
  obtain nB where nB: "nat (cf_conn_max_attempts cfgB) = Suc nB"
    using assms(10) by (cases "nat (cf_conn_max_attempts cfgB)") auto
  obtain x y z u where stack: "garbage osB 4 [] = [x, y, z, u]"
    using list_of_4 [of "garbage osB 4 []"] by auto
  obtain f where f: "fuel = Suc (Suc f)"
    using assms(13) by (metis Suc_le_D numeral_2_eq_2 Suc_le_mono)
  note defs = chownat_hole_punching_def has_parts_def on_trace_eq sys_defs Let_def recv3_def
    script_recv_def overwrite_def msg_defs numeral_3_eq_3
  have "\<exists>a'. chownat_hole_punching osA fuel a = (Ret UDP_CONN_OK, a') \<and>
      rev (datagrams (us_socket_fd usA) (c_trace a')) = [msg01, msg03]"
    using assms(1-4,11) nA by (simp add: defs)
  moreover have "\<exists>b'. chownat_hole_punching osB fuel b = (Ret UDP_CONN_OK, b') \<and>
      rev (datagrams (us_socket_fd usB) (c_trace b')) = [msg03]"
    using assms(6-9,12) nB f stack by (simp add: defs)
  ultimately show ?thesis by blast
qed

theorem chownat_handshake_witness:
  "\<exists>a' b'. chownat_hole_punching (script_os [Inr msg03]) 2 (tunnel_conn CHR ''c'' fresh_data) =
       (Ret UDP_CONN_OK, a') \<and>
     chownat_hole_punching (script_os [Inr msg01, Inr msg03]) 2 (tunnel_conn CHR ''s'' fresh_data) =
       (Ret UDP_CONN_OK, b') \<and> rev (datagrams 3 (c_trace a')) = [msg01, msg03]"
  using chownat_handshake [OF demo_parts [of fresh_data "CHR ''c''"] _ _ _ _
      demo_parts [of fresh_data "CHR ''s''"], where osA = "script_os [Inr msg03]"
        and osB = "script_os [Inr msg01, Inr msg03]" and fuel = 2]
  by auto

end
