(* ===== verification/Udp_Conn.thy ===== *)
theory Udp_Conn
  imports Conn
begin

text \<open>
  \<open>udp_conn/src/udp_conn.c\<close>: the TCP tunnel (\<open>tcp_bind\<close>, \<open>tcp_recv\<close>, \<open>tcp_send\<close>) and the main
  function \<open>udp_connection\<close> with its \<open>select\<close> loop, generic in the table of backend operations.  The
  loop body is one definition with a \<open>flow\<close> result (return from the function, leave the loop, next
  iteration); loops that the environment can keep alive take fuel.
\<close>

section \<open>Clock\<close>

text \<open>\<open>None\<close> is the return value -1.\<close>

definition monotonic_us :: "os \<Rightarrow> trace \<Rightarrow> int option \<times> trace" where
  "monotonic_us os tr =
     (case sys_clock os tr of
        (None, tr') \<Rightarrow> (None, tr')
      | (Some (s, ns), tr') \<Rightarrow> (Some (s * 1000000 + ns div 1000), tr'))"

section \<open>The TCP tunnel\<close>

text \<open>
  \<open>tcp_bind\<close>: in client mode the tunnel's listening socket is set up and one connection is accepted;
  in server mode the socket is connected to the local service.  A client error closes the listening
  socket, a server error ends the process with \<open>errno\<close>.
\<close>

definition tcp_bind_close :: "os \<Rightarrow> int \<Rightarrow> ('c, 'd, 'a, udp_conn_status) op" where
  "tcp_bind_close os fd conn = (Ret UDP_CONN_ERR, snd (on_trace (sys_close os fd) conn))"

definition tcp_bind_client :: "os \<Rightarrow> tcp_session \<Rightarrow> ('c, 'd, 'a, udp_conn_status) op" where
  "tcp_bind_client os ts conn =
     (let fd = ts_socket_fd ts;
          (r1, c1) = on_trace (sys_setsockopt os fd (SO_REUSEADDR (ts_reuse ts))) conn
      in if r1 \<noteq> None then tcp_bind_close os fd c1
         else let (r2, c2) = on_trace (sys_bind os fd (ts_local ts)) c1
              in if r2 \<noteq> None then tcp_bind_close os fd c2
                 else let (r3, c3) = on_trace (sys_listen os fd 20) c2
                      in if r3 \<noteq> None then tcp_bind_close os fd c3
                         else (case on_trace (sys_accept os fd) c3 of
                             (Inl e, c4) \<Rightarrow>
                               (Ret UDP_CONN_ERR, c4\<lparr>c_tcp := Some (ts\<lparr>ts_accepted_sock := -1\<rparr>)\<rparr>)
                           | (Inr a, c4) \<Rightarrow>
                               (Ret UDP_CONN_OK, c4\<lparr>c_tcp := Some (ts\<lparr>ts_accepted_sock := a\<rparr>)\<rparr>)))"

text \<open>
  The descriptor check of server mode calls \<open>exit(errno)\<close> with whatever \<open>errno\<close> holds; the last
  error is a parameter of the model.
\<close>

definition tcp_bind_server :: "os \<Rightarrow> int \<Rightarrow> tcp_session \<Rightarrow> ('c, 'd, 'a, udp_conn_status) op" where
  "tcp_bind_server os last_errno ts conn =
     (if ts_socket_fd ts < 0 then (Exited last_errno, conn)
      else case on_trace (sys_connect os (ts_socket_fd ts) (ts_local ts)) conn of
             (Some e, c1) \<Rightarrow> (Exited (errno_code e), c1)
           | (None, c1) \<Rightarrow>
               (Ret UDP_CONN_OK, c1\<lparr>c_tcp := Some (ts\<lparr>ts_accepted_sock := ts_socket_fd ts\<rparr>)\<rparr>))"

definition tcp_bind :: "os \<Rightarrow> int \<Rightarrow> ('c, 'd, 'a, udp_conn_status) op" where
  "tcp_bind os last_errno conn =
     (case c_tcp conn of
        None \<Rightarrow> (Ret UDP_CONN_WITHOUT_TCP_TUNNELING, conn)
      | Some ts \<Rightarrow>
          (if c_udp conn = None then (Ret UDP_CONN_ERR, conn)
           else case c_ctrl conn of
             None \<Rightarrow> (Ret UDP_CONN_ERR, conn)
           | Some ctrl \<Rightarrow>
               (if cc_init ctrl = 0 then (Ret UDP_CONN_NOT_INIT, conn)
                else if cc_mode ctrl = CHR ''c'' then tcp_bind_client os ts conn
                else if cc_mode ctrl = CHR ''s'' then tcp_bind_server os last_errno ts conn
                else (Ret UDP_CONN_ERR, conn))))"

text \<open>\<open>tcp_recv\<close> hands what the local TCP peer sent to the backend; end of file is an error.\<close>

definition tcp_recv :: "os \<Rightarrow> ('c, 'd, 'a) udp_conn_api \<Rightarrow> ('c, 'd, 'a, udp_conn_status) op" where
  "tcp_recv os api conn =
     (case (c_udp conn, c_tcp conn, c_ctrl conn) of
        (Some us, Some ts, Some ctrl) \<Rightarrow>
          (if cc_init ctrl = 0 then (Ret UDP_CONN_NOT_INIT, conn)
           else if api_is_closed api conn \<noteq> UDP_CONN_OK then (Ret UDP_CONN_CLOSED, conn)
           else case on_trace (sys_recv os (ts_accepted_sock ts) TCP_MTU_SIZE False) conn of
             (Inl e, c1) \<Rightarrow> (Ret UDP_CONN_ERR, c1)
           | (Inr bs, c1) \<Rightarrow>
               (if bs = [] then (Ret UDP_CONN_ERR, c1)
                else chain (api_udp_send api bs None c1) (\<lambda>(st, _) c2. (Ret st, c2))))
      | _ \<Rightarrow> (Ret UDP_CONN_ERR, conn))"

text \<open>
  \<open>tcp_send\<close> writes the whole payload to the tunnel: a partial write continues behind the bytes
  written, \<open>EINTR\<close> repeats the call, and any other error or a write of nothing fails.
\<close>

fun tcp_send_loop :: "os \<Rightarrow> int \<Rightarrow> nat \<Rightarrow> byte list \<Rightarrow> trace \<Rightarrow> udp_conn_status outcome \<times> trace" where
  "tcp_send_loop os fd fuel [] tr = (Ret UDP_CONN_OK, tr)"
| "tcp_send_loop os fd 0 (b # bs) tr = (NoFuel, tr)"
| "tcp_send_loop os fd (Suc fuel) (b # bs) tr =
     (case sys_send os fd (b # bs) tr of
        (Inl e, tr') \<Rightarrow>
          (if e = EINTR then tcp_send_loop os fd fuel (b # bs) tr' else (Ret UDP_CONN_ERR, tr'))
      | (Inr n, tr') \<Rightarrow>
          (if n = 0 then (Ret UDP_CONN_ERR, tr')
           else tcp_send_loop os fd fuel (drop n (b # bs)) tr'))"

definition tcp_send :: "os \<Rightarrow> nat \<Rightarrow> byte list \<Rightarrow> ('c, 'd, 'a, udp_conn_status) op" where
  "tcp_send os fuel buf conn =
     (case c_tcp conn of
        None \<Rightarrow> (Ret UDP_CONN_OK, conn)
      | Some ts \<Rightarrow> on_trace (tcp_send_loop os (ts_accepted_sock ts) fuel buf) conn)"

section \<open>The loop of \<open>udp_connection\<close>\<close>

abbreviation (input) ka_interval_us :: int where "ka_interval_us \<equiv> 5 * 1000000"

text \<open>
  The loop's local variables: missed keep-alives, the next keep-alive deadline in microseconds, and
  the receive buffer, which keeps its bytes from one iteration to the next.
\<close>

record loop_state =
  ls_threshold :: int
  ls_next_ka :: int
  ls_buf :: "byte list"

datatype flow = Return udp_conn_status | Break | Continue

definition closed :: "('c, 'd, 'a) udp_conn_api \<Rightarrow> ('c, 'd, 'a) udp_conn \<Rightarrow> bool" where
  "closed api conn \<longleftrightarrow> status_code (api_is_closed api conn) \<noteq> 0"

text \<open>
  Reading the clock in the loop: a failing clock returns \<open>UDP_CONN_ERR\<close> from the whole function.
\<close>

definition with_clock ::
    "os \<Rightarrow> loop_state \<Rightarrow> (int \<Rightarrow> ('c, 'd, 'a, flow \<times> loop_state) op) \<Rightarrow> ('c, 'd, 'a, flow \<times> loop_state) op" where
  "with_clock os ls k conn =
     (case on_trace (monotonic_us os) conn of
        (None, c1) \<Rightarrow> (Ret (Return UDP_CONN_ERR, ls), c1)
      | (Some now, c1) \<Rightarrow> k now c1)"

text \<open>
  One received payload: the common part of draining buffered data and of a readable UDP socket.  The
  status of a failed receive or of a failed tunnel write is returned after \<open>disconnect\<close>, unless the
  session is already closed.  \<open>Delivered\<close> carries the number of bytes received; reading behind the
  end of the buffer is undefined behaviour.
\<close>

datatype delivery = Deliver_Return udp_conn_status | Deliver_Closed | Delivered nat

definition disconnect_return ::
    "('c, 'd, 'a) udp_conn_api \<Rightarrow> udp_conn_status \<Rightarrow> byte list \<Rightarrow> ('c, 'd, 'a, delivery \<times> byte list) op" where
  "disconnect_return api st buf conn =
     chain (api_disconnect api conn) (\<lambda>_ c. (Ret (Deliver_Return st, buf), c))"

definition deliver ::
    "os \<Rightarrow> ('c, 'd, 'a) udp_conn_api \<Rightarrow> nat \<Rightarrow> byte list \<Rightarrow> ('c, 'd, 'a, delivery \<times> byte list) op" where
  "deliver os api fuel buf conn =
     chain (api_udp_recv api (Some buf) TCP_MTU_SIZE (Some 0) conn) (\<lambda>(st, buf', received) c1.
       let buf1 = (case buf' of None \<Rightarrow> buf | Some m \<Rightarrow> m);
           n = (case received of None \<Rightarrow> 0 | Some n \<Rightarrow> n)
       in if is_err st
          then (if closed api c1 then (Ret (Deliver_Closed, buf1), c1)
                else disconnect_return api st buf1 c1)
          else if closed api c1 then (Ret (Deliver_Closed, buf1), c1)
          else if c_tcp c1 \<noteq> None \<and> length buf1 < n then (Fault, c1)
          else chain (tcp_send os fuel (take n buf1) c1) (\<lambda>st2 c2.
                 if is_err st2 then disconnect_return api st2 buf1 c2
                 else (Ret (Delivered n, buf1), c2)))"

text \<open>
  \<open>while (pending_data != NULL && pending_data(conn) > 0)\<close>: \<open>Break\<close> and \<open>Continue\<close> both go on behind
  the inner loop, where the session is checked again.
\<close>

fun drain :: "os \<Rightarrow> ('c, 'd, 'a) udp_conn_api \<Rightarrow> nat \<Rightarrow> loop_state \<Rightarrow> ('c, 'd, 'a, flow \<times> loop_state) op" where
  "drain os api 0 ls conn = (NoFuel, conn)"
| "drain os api (Suc fuel) ls conn =
     (case api_pending_data api of
        None \<Rightarrow> (Ret (Continue, ls), conn)
      | Some pending \<Rightarrow> chain (pending conn) (\<lambda>p c1.
          if p = 0 then (Ret (Continue, ls), c1)
          else chain (deliver os api fuel (ls_buf ls) c1) (\<lambda>(dl, buf) c2.
            let ls1 = ls\<lparr>ls_buf := buf\<rparr>
            in case dl of
                 Deliver_Return st \<Rightarrow> (Ret (Return st, ls1), c2)
               | Deliver_Closed \<Rightarrow> (Ret (Break, ls1), c2)
               | Delivered n \<Rightarrow>
                   (if closed api c2 \<or> n = 0 then (Ret (Break, ls1), c2)
                    else with_clock os ls1 (\<lambda>now.
                      drain os api fuel
                        (ls1\<lparr>ls_next_ka := now + ka_interval_us, ls_threshold := 0\<rparr>)) c2))))"

text \<open>
  The wait of one iteration: the backend's event timeout, or the time left until the keep-alive
  deadline when that is sooner or the backend has no timeout.
\<close>

definition remaining_us :: "int \<Rightarrow> int \<Rightarrow> int" where
  "remaining_us next_ka now = (if now < next_ka then next_ka - now else 0)"

definition wait_time :: "udp_conn_status \<Rightarrow> timeval \<Rightarrow> int \<Rightarrow> timeval" where
  "wait_time tstat tv remaining =
     (if tstat = UDP_CONN_NOT_APPLICABLE \<or> remaining < tv_sec tv * 1000000 + tv_usec tv
      then tv\<lparr>tv_sec := remaining div 1000000, tv_usec := remaining mod 1000000\<rparr>
      else tv)"

definition tcp_fd_of :: "('c, 'd, 'a) udp_conn \<Rightarrow> int" where
  "tcp_fd_of conn = (case c_tcp conn of None \<Rightarrow> -1 | Some ts \<Rightarrow> ts_accepted_sock ts)"

definition udp_fd_of :: "('c, 'd, 'a) udp_conn \<Rightarrow> int" where
  "udp_fd_of conn = (case c_udp conn of None \<Rightarrow> -1 | Some us \<Rightarrow> us_socket_fd us)"

definition fd_isset :: "int \<Rightarrow> ('c, 'd, 'a) udp_conn \<Rightarrow> bool" where
  "fd_isset fd conn =
     (case c_ctrl conn of None \<Rightarrow> False | Some k \<Rightarrow> fd \<in> set (cc_read_fds k))"

definition set_read_fds :: "int list \<Rightarrow> ('c, 'd, 'a) udp_conn \<Rightarrow> ('c, 'd, 'a) udp_conn" where
  "set_read_fds fds conn = conn\<lparr>c_ctrl := map_option (\<lambda>k. k\<lparr>cc_read_fds := fds\<rparr>) (c_ctrl conn)\<rparr>"

text \<open>The branch \<open>ready > 0\<close>: TCP first, then UDP, then the inactivity interval starts again.\<close>

definition on_tcp_ready :: "os \<Rightarrow> ('c, 'd, 'a) udp_conn_api \<Rightarrow> int \<Rightarrow> ('c, 'd, 'a, unit) op" where
  "on_tcp_ready os api tcp_fd conn =
     (if tcp_fd \<noteq> -1 \<and> fd_isset tcp_fd conn
      then chain (tcp_recv os api conn) (\<lambda>st c1.
             if is_err st then chain (api_disconnect api c1) (\<lambda>_ c2. (Ret (), c2))
             else (Ret (), c1))
      else (Ret (), conn))"

definition restart_interval :: "os \<Rightarrow> loop_state \<Rightarrow> ('c, 'd, 'a, flow \<times> loop_state) op" where
  "restart_interval os ls =
     with_clock os ls (\<lambda>now c. (Ret (Continue, ls\<lparr>ls_next_ka := now + ka_interval_us\<rparr>), c))"

definition on_ready ::
    "os \<Rightarrow> ('c, 'd, 'a) udp_conn_api \<Rightarrow> nat \<Rightarrow> int \<Rightarrow> int \<Rightarrow> loop_state \<Rightarrow> ('c, 'd, 'a, flow \<times> loop_state) op" where
  "on_ready os api fuel tcp_fd udp_fd ls0 conn =
     (let ls = ls0\<lparr>ls_threshold := 0\<rparr>
      in chain (on_tcp_ready os api tcp_fd conn) (\<lambda>_ c1.
           if closed api c1 then (Ret (Break, ls), c1)
           else if udp_fd \<noteq> -1 \<and> fd_isset udp_fd c1
           then chain (deliver os api fuel (ls_buf ls) c1) (\<lambda>(dl, buf) c2.
                  let ls1 = ls\<lparr>ls_buf := buf\<rparr>
                  in case dl of
                       Deliver_Return st \<Rightarrow> (Ret (Return st, ls1), c2)
                     | Deliver_Closed \<Rightarrow> (Ret (Break, ls1), c2)
                     | Delivered n \<Rightarrow> restart_interval os ls1 c2)
           else restart_interval os ls c1))"

text \<open>
  The branch \<open>ready == 0\<close>: a keep-alive is sent only when its deadline has passed; a backend without
  \<open>process_events\<close> counts it as missed and disconnects at the session's threshold.
\<close>

definition count_missed ::
    "('c, 'd, 'a) udp_conn_api \<Rightarrow> loop_state \<Rightarrow> ('c, 'd, 'a, flow \<times> loop_state) op" where
  "count_missed api ls conn =
     (if api_process_events api = None
      then let ls1 = ls\<lparr>ls_threshold := ls_threshold ls + 1\<rparr>
           in case c_udp conn of
                None \<Rightarrow> (Fault, conn)
              | Some us \<Rightarrow>
                  (if ls_threshold ls = us_ka_miss_threshold us
                   then chain (api_disconnect api conn) (\<lambda>_ c1. (Ret (Continue, ls1), c1))
                   else (Ret (Continue, ls1), conn))
      else (Ret (Continue, ls), conn))"

definition on_timeout ::
    "os \<Rightarrow> ('c, 'd, 'a) udp_conn_api \<Rightarrow> loop_state \<Rightarrow> ('c, 'd, 'a, flow \<times> loop_state) op" where
  "on_timeout os api ls conn =
     (if closed api conn then (Ret (Break, ls), conn)
      else with_clock os ls (\<lambda>now c1.
        if now < ls_next_ka ls then (Ret (Continue, ls), c1)
        else chain (api_udp_send_ka api c1) (\<lambda>st c2.
          if st \<noteq> UDP_CONN_OK then (Ret (Return st, ls), c2)
          else if closed api c2 then (Ret (Break, ls), c2)
          else with_clock os ls (\<lambda>now2.
                 count_missed api (ls\<lparr>ls_next_ka := now2 + ka_interval_us\<rparr>)) c2)) conn)"

text \<open>Waiting for I/O and acting on it: lines from the \<open>select\<close> preparation to the end of the body.\<close>

definition select_phase ::
    "os \<Rightarrow> ('c, 'd, 'a) udp_conn_api \<Rightarrow> nat \<Rightarrow> loop_state \<Rightarrow> ('c, 'd, 'a, flow \<times> loop_state) op" where
  "select_phase os api fuel ls conn =
     (let tcp_fd = tcp_fd_of conn; udp_fd = udp_fd_of conn
      in chain (api_get_timeout api \<lparr>tv_sec = 0, tv_usec = 0\<rparr> conn) (\<lambda>(tstat, tv) c1.
           if tstat \<noteq> UDP_CONN_OK \<and> tstat \<noteq> UDP_CONN_NOT_APPLICABLE then (Ret (Return tstat, ls), c1)
           else with_clock os ls (\<lambda>now c2.
             let tv' = wait_time tstat tv (remaining_us (ls_next_ka ls) now);
                 fds = (if udp_fd \<noteq> -1 then [udp_fd] else []) @ (if tcp_fd \<noteq> -1 then [tcp_fd] else [])
             in if \<not> list_all fd_set_ok fds then (Fault, c2)
                else case on_trace (sys_select os (max udp_fd tcp_fd + 1) fds (Some tv')) c2 of
                       (Inl e, c3) \<Rightarrow>
                         (if e \<noteq> EINTR then (Ret (Return UDP_CONN_ERR, ls), set_read_fds fds c3)
                          else (Ret (Continue, ls), set_read_fds fds c3))
                     | (Inr ready, c3) \<Rightarrow>
                         (if ready \<noteq> []
                          then on_ready os api fuel tcp_fd udp_fd ls (set_read_fds ready c3)
                          else on_timeout os api ls (set_read_fds [] c3))) c1))"

definition conn_iter ::
    "os \<Rightarrow> ('c, 'd, 'a) udp_conn_api \<Rightarrow> nat \<Rightarrow> loop_state \<Rightarrow> ('c, 'd, 'a, flow \<times> loop_state) op" where
  "conn_iter os api fuel ls conn =
     (let rest = (\<lambda>c. chain (drain os api fuel ls c) (\<lambda>(fl, ls1) c1.
                   case fl of
                     Return st \<Rightarrow> (Ret (Return st, ls1), c1)
                   | _ \<Rightarrow> (if closed api c1 then (Ret (Break, ls1), c1)
                           else select_phase os api fuel ls1 c1)))
      in case api_process_events api of
           None \<Rightarrow> rest conn
         | Some process \<Rightarrow> chain (process conn) (\<lambda>st c.
             if is_err st then (Ret (Return st, ls), c)
             else if closed api c then (Ret (Break, ls), c)
             else rest c))"

fun conn_loop ::
    "os \<Rightarrow> ('c, 'd, 'a) udp_conn_api \<Rightarrow> nat \<Rightarrow> loop_state \<Rightarrow> ('c, 'd, 'a, udp_conn_status) op" where
  "conn_loop os api 0 ls conn = (NoFuel, conn)"
| "conn_loop os api (Suc fuel) ls conn =
     (if closed api conn then (Ret UDP_CONN_OK, conn)
      else chain (conn_iter os api fuel ls conn) (\<lambda>(fl, ls') c.
             case fl of
               Return st \<Rightarrow> (Ret st, c)
             | Break \<Rightarrow> (Ret UDP_CONN_OK, c)
             | Continue \<Rightarrow> conn_loop os api fuel ls' c))"

section \<open>\<open>udp_connection\<close>\<close>

text \<open>A step of the set-up: its failure becomes the given status of \<open>udp_connection\<close>.\<close>

definition setup_step ::
    "udp_conn_status \<Rightarrow> ('c, 'd, 'a, udp_conn_status) op \<Rightarrow> ('c, 'd, 'a, udp_conn_status) op
       \<Rightarrow> ('c, 'd, 'a, udp_conn_status) op" where
  "setup_step err f k conn =
     chain (f conn) (\<lambda>st c. if is_err st then (Ret err, c) else k c)"

definition start_loop ::
    "os \<Rightarrow> ('c, 'd, 'a) udp_conn_api \<Rightarrow> nat \<Rightarrow> byte list \<Rightarrow> ('c, 'd, 'a, udp_conn_status) op" where
  "start_loop os api fuel buf conn =
     (case on_trace (monotonic_us os) conn of
        (None, c1) \<Rightarrow> (Ret UDP_CONN_ERR, c1)
      | (Some now, c1) \<Rightarrow>
          conn_loop os api fuel
            \<lparr>ls_threshold = 0, ls_next_ka = now + ka_interval_us, ls_buf = buf\<rparr> c1)"

text \<open>\<open>buf\<close> is what the uninitialised receive buffer holds.\<close>

definition udp_connection ::
    "os \<Rightarrow> ('c, 'd, 'a) udp_conn_api \<Rightarrow> int \<Rightarrow> nat \<Rightarrow> byte list \<Rightarrow> ('c, 'd, 'a, udp_conn_status) op" where
  "udp_connection os api last_errno fuel buf conn =
     (case (c_udp conn, c_ctrl conn) of
        (Some us, Some ctrl) \<Rightarrow>
          (if cc_init ctrl = 0 then (Ret UDP_CONN_NOT_INIT, conn)
           else if cc_mode ctrl = CHR ''c''
           then setup_step UDP_CONN_TCP_BIND_ERROR (tcp_bind os last_errno)
                 (setup_step UDP_CONN_TCP_HP_ERROR (api_hole_punching api)
                 (setup_step UDP_CONN_CONNECT_ERROR (api_connect api)
                 (start_loop os api fuel buf))) conn
           else if cc_mode ctrl = CHR ''s''
           then setup_step UDP_CONN_TCP_HP_ERROR (api_hole_punching api)
                 (setup_step UDP_CONN_TCP_BIND_ERROR (tcp_bind os last_errno)
                 (setup_step UDP_CONN_CONNECT_ERROR (api_connect api)
                 (start_loop os api fuel buf))) conn
           else (Ret UDP_CONN_UNKNOWN_MODE, conn))
      | _ \<Rightarrow> (Ret UDP_CONN_ERR, conn))"

end
