(* ===== verification/Chownat_Close.thy ===== *)
theory Chownat_Close
  imports Chownat_Lifecycle Udp_Conn
begin

text \<open>
  Closing a CHOWNAT connection: the active side, the passive side inside a receive, the descriptors
  of the tunnel, and the connection that is not initialised or already closed.
\<close>

section \<open>What the loops send\<close>

lemma on_trace_closed_fds:
  "sys_sendto os fd bs dst dw tr = (r, tr') \<Longrightarrow> closed_fds tr' = closed_fds tr"
  "recv3 os fd buf tr = (res, tr') \<Longrightarrow> closed_fds tr' = closed_fds tr"
  by (auto simp: recv3_def sys_defs Let_def split: sum.splits)

lemma send_loop_bounds:
  "\<exists>k \<le> n. closed_fds (disconnect_send_loop os fd dst n buf tr) = closed_fds tr \<and>
     (datagrams fd (disconnect_send_loop os fd dst n buf tr) = replicate n msg02 @ datagrams fd tr \<and> k = n \<or>
      datagrams fd (disconnect_send_loop os fd dst n buf tr) = msg03 # replicate k msg02 @ datagrams fd tr \<and> 0 < k)"
proof (induction n arbitrary: buf tr)
  case (Suc n)
  obtain r1 tr1 where s: "sys_sendto os fd msg02 dst False tr = (r1, tr1)" by fastforce
  obtain res tr2 where v: "recv3 os fd buf tr1 = (res, tr2)" by fastforce
  note f = sendto_frame(3) [OF s] recv3_frame(2) [OF v, of fd] on_trace_closed_fds(1) [OF s]
    on_trace_closed_fds(2) [OF v]
  show ?case
  proof (cases "\<exists>buffer. res = Some buffer \<and> strcmp_eq buffer (msg03 @ [0])")
    case True
    then show ?thesis using s v f
      by (intro exI [where x = 1]) (auto simp: sys_defs Let_def)
  next
    case False
    then obtain buf' where step: "disconnect_send_loop os fd dst (Suc n) buf tr =
        disconnect_send_loop os fd dst n buf' tr2"
      using s v by (cases res) auto
    obtain k where k: "k \<le> n" "closed_fds (disconnect_send_loop os fd dst n buf' tr2) = closed_fds tr2"
      "datagrams fd (disconnect_send_loop os fd dst n buf' tr2) = replicate n msg02 @ datagrams fd tr2 \<and> k = n \<or>
       datagrams fd (disconnect_send_loop os fd dst n buf' tr2) = msg03 # replicate k msg02 @ datagrams fd tr2 \<and> 0 < k"
      using Suc.IH [of buf' tr2] by blast
    show ?thesis
      by (intro exI [where x = "Suc k"])
         (use k f step in \<open>auto simp: replicate_append_same replicate_app_Cons_same\<close>)
  qed
qed simp

lemma recv_loop_returns:
  assumes "os_recv os = script_recv rs"
  shows "left rs tr + n < fuel \<Longrightarrow>
     \<exists>tr' k. disconnect_recv_loop os fd dst fuel n buf tr = (Ret (), tr') \<and>
       closed_fds tr' = closed_fds tr \<and> datagrams fd tr' = replicate k msg03 @ datagrams fd tr \<and>
       (0 < n \<longrightarrow> 0 < k)"
proof (induction fuel arbitrary: n buf tr)
  case (Suc fuel)
  show ?case
  proof (cases n)
    case (Suc n')
    obtain r1 tr1 where s: "sys_sendto os fd msg03 dst False tr = (r1, tr1)" by fastforce
    obtain res tr2 where v: "recv3 os fd buf tr1 = (res, tr2)" by fastforce
    note l = recv3_script(2,3) [OF assms v] sendto_frame(2) [OF s, of rs]
    note f = sendto_frame(3) [OF s] recv3_frame(2) [OF v, of fd] on_trace_closed_fds(1) [OF s]
      on_trace_closed_fds(2) [OF v]
    show ?thesis
    proof (cases "\<exists>buffer. res = Some buffer \<and> strcmp_eq buffer (msg03 @ [0])")
      case True
      then show ?thesis using s v f \<open>n = Suc n'\<close> by (intro exI [where x = tr2] exI [where x = 1]) auto
    next
      case False
      then obtain buf' m where m: "m = (if res = None then n' else n)"
        "disconnect_recv_loop os fd dst (Suc fuel) n buf tr = disconnect_recv_loop os fd dst fuel m buf' tr2"
        using s v \<open>n = Suc n'\<close> by (cases res) auto
      then have "left rs tr2 + m < fuel" using l Suc.prems \<open>n = Suc n'\<close> by auto
      from Suc.IH [OF this, of buf'] obtain tr' k where
        "disconnect_recv_loop os fd dst fuel m buf' tr2 = (Ret (), tr')"
        "closed_fds tr' = closed_fds tr2" "datagrams fd tr' = replicate k msg03 @ datagrams fd tr2"
        by blast
      with m f show ?thesis
        by (intro exI [where x = tr'] exI [where x = "Suc k"]) (simp add: replicate_app_Cons_same)
    qed
  qed (auto intro: exI [where x = 0])
qed simp

lemma recv_loop_flood:
  assumes "os_recv os = (\<lambda>tr fd dw. Inr g)" and "3 \<le> length g" and "take 3 g \<noteq> msg03"
  shows "0 < n \<Longrightarrow> length buf = 4 \<Longrightarrow> fst (disconnect_recv_loop os fd dst fuel n buf tr) = NoFuel"
proof (induction fuel arbitrary: buf tr)
  case 0
  then show ?case by (cases n) simp_all
next
  case (Suc fuel)
  obtain n' where n: "n = Suc n'" using Suc.prems by (cases n) auto
  obtain r1 tr1 where s: "sys_sendto os fd msg03 dst False tr = (r1, tr1)" by fastforce
  obtain res tr2 where v: "recv3 os fd buf tr1 = (res, tr2)" by fastforce
  then obtain buffer where buffer: "res = Some buffer"
    using assms(1) by (auto simp: recv3_def sys_defs Let_def)
  have full: "full_answer (os_recv os tr1 fd False)" using assms by (simp add: full_answer_def)
  from v buffer have v': "recv3 os fd buf tr1 = (Some buffer, tr2)" by simp
  have "\<not> strcmp_eq buffer (msg03 @ [0])"
    using recv3_opens(2) [OF v' Suc.prems(2) full] assms by (simp add: opens_def)
  moreover have "length buffer = 4" by (rule recv3_full [OF v' Suc.prems(2) full]) simp
  ultimately show ?case using Suc.IH [of buffer tr2] Suc.prems s v' n by simp
qed

section \<open>The descriptors of the tunnel\<close>

text \<open>What the active side's clean-up closes, newest first.\<close>

definition guarded_fds :: "tcp_session \<Rightarrow> int list" where
  "guarded_fds ts = (if 0 < ts_accepted_sock ts then [ts_accepted_sock ts] else []) @
     (if 0 < ts_socket_fd ts then [ts_socket_fd ts] else [])"

definition reset_tcp :: "tcp_session \<Rightarrow> tcp_session" where
  "reset_tcp ts = ts\<lparr>ts_socket_fd := (if 0 < ts_socket_fd ts then -1 else ts_socket_fd ts),
     ts_accepted_sock := (if 0 < ts_accepted_sock ts then -1 else ts_accepted_sock ts)\<rparr>"

lemma close_tcp_guarded_result:
  "c_tcp (close_tcp_guarded os c) = map_option reset_tcp (c_tcp c)"
  "closed_fds (c_trace (close_tcp_guarded os c)) =
     (case c_tcp c of None \<Rightarrow> [] | Some ts \<Rightarrow> guarded_fds ts) @ closed_fds (c_trace c)"
  "datagrams fd (c_trace (close_tcp_guarded os c)) = datagrams fd (c_trace c)"
  by (auto simp: close_tcp_guarded_def reset_tcp_def guarded_fds_def Let_def sys_defs split: option.splits)

lemma close_tcp_always_result:
  "c_tcp (close_tcp_always os c) =
     map_option (\<lambda>ts. ts\<lparr>ts_socket_fd := -1, ts_accepted_sock := -1\<rparr>) (c_tcp c)"
  "closed_fds (c_trace (close_tcp_always os c)) =
     (case c_tcp c of None \<Rightarrow> [] | Some ts \<Rightarrow> [ts_accepted_sock ts, ts_socket_fd ts]) @ closed_fds (c_trace c)"
  "datagrams fd (c_trace (close_tcp_always os c)) = datagrams fd (c_trace c)"
  by (auto simp: close_tcp_always_def Let_def sys_defs split: option.splits)

lemma finish_disconnect_frame [simp]:
  "c_tcp (finish_disconnect d c) = c_tcp c" "c_trace (finish_disconnect d c) = c_trace c"
  "c_udp (finish_disconnect d c) = c_udp c" "c_ctrl (finish_disconnect d c) = c_ctrl c"
  "c_config (finish_disconnect d c) = c_config c"
  "c_data (finish_disconnect d c) = Some (d\<lparr>cd_id := 0, cd_expected := 0, cd_closed := 1\<rparr>)"
  by (simp_all add: finish_disconnect_def set_data_def)

section \<open>Properties\<close>

definition closed_data :: "chownat_data \<Rightarrow> chownat_data" where
  "closed_data d = d\<lparr>cd_id := 0, cd_expected := 0, cd_closed := 1\<rparr>"

lemma disconnect_closes:
  assumes "live_conn cfg us d k c"
  shows "\<exists>c' n. chownat_disconnect_send os c = (Ret UDP_CONN_OK, c') \<and>
     chownat_is_closed c' = UDP_CONN_CLOSED \<and> has_parts cfg us (closed_data d) k c' \<and>
     c_tcp c' = map_option reset_tcp (c_tcp c) \<and>
     closed_fds (c_trace c') =
       (case c_tcp c of None \<Rightarrow> [] | Some ts \<Rightarrow> guarded_fds ts) @ closed_fds (c_trace c) \<and>
     n \<le> nat (cf_conn_max_attempts cfg) \<and>
     (datagrams (us_socket_fd us) (c_trace c') = replicate n msg02 @ datagrams (us_socket_fd us) (c_trace c) \<or>
      datagrams (us_socket_fd us) (c_trace c') = msg03 # replicate n msg02 @ datagrams (us_socket_fd us) (c_trace c)) \<and>
     chownat_disconnect_send os c' = (Ret UDP_CONN_CLOSED, c')"
proof -
  let ?tr = "disconnect_send_loop os (us_socket_fd us) (us_dst us) (nat (cf_conn_max_attempts cfg))
    (garbage os 4 (c_trace c)) (c_trace c)"
  let ?c = "finish_disconnect d (close_tcp_guarded os (c\<lparr>c_trace := ?tr\<rparr>))"
  obtain n where n: "n \<le> nat (cf_conn_max_attempts cfg)" "closed_fds ?tr = closed_fds (c_trace c)"
    "datagrams (us_socket_fd us) ?tr = replicate n msg02 @ datagrams (us_socket_fd us) (c_trace c) \<or>
     datagrams (us_socket_fd us) ?tr = msg03 # replicate n msg02 @ datagrams (us_socket_fd us) (c_trace c)"
    using send_loop_bounds [of "nat (cf_conn_max_attempts cfg)" os "us_socket_fd us" "us_dst us"] by blast
  have run: "chownat_disconnect_send os c = (Ret UDP_CONN_OK, ?c)"
    using assms by (simp add: chownat_disconnect_send_def live_conn_def has_parts_def Let_def)
  have parts: "has_parts cfg us (closed_data d) k ?c"
    using assms by (simp add: live_conn_def has_parts_def closed_data_def)
  then have again: "chownat_disconnect_send os ?c = (Ret UDP_CONN_CLOSED, ?c)"
    "chownat_is_closed ?c = UDP_CONN_CLOSED"
    using assms by (simp_all add: chownat_disconnect_send_def chownat_is_closed_def live_conn_def
        has_parts_def closed_data_def)
  show ?thesis
    by (rule exI [of _ ?c], rule exI [of _ n])
       (use n run parts again in \<open>simp add: close_tcp_guarded_result\<close>)
qed

text \<open>
  C28. Disconnecting an open connection always succeeds: it sends at most the configured number of
  \<open>02\<close> messages and a final \<open>03\<close> if the peer answered, closes the tunnel's valid descriptors,
  resets the numbering, and marks the connection closed; a second call reports that and does nothing.
\<close>

theorem chownat_disconnect_closes:
  assumes "live_conn cfg us d k c"
  shows "\<exists>c' n. chownat_disconnect_send os c = (Ret UDP_CONN_OK, c') \<and>
     chownat_is_closed c' = UDP_CONN_CLOSED \<and> has_parts cfg us (closed_data d) k c' \<and>
     c_tcp c' = map_option reset_tcp (c_tcp c) \<and>
     closed_fds (c_trace c') =
       (case c_tcp c of None \<Rightarrow> [] | Some ts \<Rightarrow> guarded_fds ts) @ closed_fds (c_trace c) \<and>
     n \<le> nat (cf_conn_max_attempts cfg) \<and>
     (datagrams (us_socket_fd us) (c_trace c') = replicate n msg02 @ datagrams (us_socket_fd us) (c_trace c) \<or>
      datagrams (us_socket_fd us) (c_trace c') = msg03 # replicate n msg02 @ datagrams (us_socket_fd us) (c_trace c)) \<and>
     chownat_disconnect_send os c' = (Ret UDP_CONN_CLOSED, c')"
  using assms by (rule disconnect_closes)

lemma demo_live: "live_conn demo_config test_session fresh_data (demo_ctrl m) (tunnel_conn m fresh_data)"
  using demo_parts by (simp add: live_conn_def)

theorem chownat_disconnect_closes_witness:
  "\<exists>c'. chownat_disconnect_send quiet_os (tunnel_conn CHR ''c'' fresh_data) = (Ret UDP_CONN_OK, c') \<and>
     chownat_is_closed c' = UDP_CONN_CLOSED \<and> closed_fds (c_trace c') = [5, 4]"
  using chownat_disconnect_closes [OF demo_live [of "CHR ''c''"], of quiet_os]
  by (auto simp: tunnel_conn_def test_conn_def guarded_fds_def)

text \<open>
  C40. In server mode \<open>tcp_bind\<close> makes the accepted socket equal to the tunnel's socket; disconnecting
  then closes the same descriptor twice.
\<close>

theorem chownat_tunnel_closed_twice:
  assumes "live_conn cfg us d k c" and "cc_mode k = CHR ''s''" and "c_tcp c = Some ts"
    and "tcp_bind os0 e c = (Ret UDP_CONN_OK, c1)" and "0 < ts_socket_fd ts"
  shows "\<exists>c2. chownat_disconnect_send os c1 = (Ret UDP_CONN_OK, c2) \<and>
     closed_fds (c_trace c2) = ts_socket_fd ts # ts_socket_fd ts # closed_fds (c_trace c1)"
proof -
  have "live_conn cfg us d k c1 \<and> c_tcp c1 = Some (ts\<lparr>ts_accepted_sock := ts_socket_fd ts\<rparr>)"
    using assms by (auto simp: tcp_bind_def tcp_bind_server_def live_conn_def has_parts_def on_trace_eq
        split: if_splits option.splits)
  then show ?thesis
    using disconnect_closes [of cfg us d k c1 os] assms(5) by (auto simp: guarded_fds_def)
qed

theorem chownat_tunnel_closed_twice_witness:
  "\<exists>c1 c2. tcp_bind quiet_os 0 (tunnel_conn CHR ''s'' fresh_data) = (Ret UDP_CONN_OK, c1) \<and>
     chownat_disconnect_send quiet_os c1 = (Ret UDP_CONN_OK, c2) \<and> closed_fds (c_trace c2) = [4, 4]"
proof -
  obtain c1 where c1: "tcp_bind quiet_os 0 (tunnel_conn CHR ''s'' fresh_data) = (Ret UDP_CONN_OK, c1)"
    and "closed_fds (c_trace c1) = []"
    by (simp add: tcp_bind_def tcp_bind_server_def tunnel_conn_def test_conn_def on_trace_eq sys_defs Let_def)
  moreover have "c_tcp (tunnel_conn CHR ''s'' fresh_data) =
      Some \<lparr>ts_socket_fd = 4, ts_accepted_sock = 5, ts_reuse = 1, ts_local = test_addr\<rparr>"
    by (simp add: tunnel_conn_def)
  ultimately show ?thesis
    using chownat_tunnel_closed_twice [OF demo_live _ _ c1, of _ quiet_os] by simp
qed

text \<open>
  C29. The peer's \<open>02\<close> closes the connection from inside a receive, when finitely many datagrams
  follow: the answer is at least one \<open>03\<close>, the numbering is reset, both tunnel descriptors are closed
  and forgotten, and the receive reports an error with no payload.
\<close>

theorem chownat_bye_closes:
  assumes "open_conn us d c" and "c_config c = Some cfg" and "c_tcp c = Some ts" and "n \<le> length m"
    and "os_recv os = script_recv (Inr msg02 # rs)" and "count_recvs (c_trace c) = 0"
    and "length rs + nat (cf_conn_max_attempts cfg) < fuel"
  shows "\<exists>c' j. chownat_udp_recv os cb fuel (Some m) n (Some r) c = (Ret (UDP_CONN_ERR, Some m, Some 0), c') \<and>
     c_data c' = Some (closed_data d) \<and>
     c_tcp c' = Some (ts\<lparr>ts_socket_fd := -1, ts_accepted_sock := -1\<rparr>) \<and>
     closed_fds (c_trace c') = ts_accepted_sock ts # ts_socket_fd ts # closed_fds (c_trace c) \<and>
     datagrams (us_socket_fd us) (c_trace c') = replicate j msg03 @ datagrams (us_socket_fd us) (c_trace c) \<and>
     (0 < cf_conn_max_attempts cfg \<longrightarrow> 0 < j)"
  using assms(1)
proof (rule open_connE)
  fix k
  assume k: "c_udp c = Some us" "c_data c = Some d" "c_ctrl c = Some k" "cc_init k \<noteq> 0" "cd_closed d = 0"
  let ?c1 = "c\<lparr>c_trace := recv_event us msg02 # c_trace c\<rparr>"
  have recv: "os_recv os (c_trace c) (us_socket_fd us) False = Inr msg02"
    using assms(5,6) by (simp add: script_recv_def)
  have "take 1027 msg02 = msg02" and "parse msg02 = Bye" by (simp_all add: msg_defs parse_def)
  then have step: "chownat_udp_recv os cb fuel (Some m) n (Some r) c =
      chain (chownat_disconnect_recv os fuel ?c1) (\<lambda>_ c'. (Ret (UDP_CONN_ERR, Some m, Some 0), set_closed c'))"
    using recv_refines [OF assms(1,4) recv, of cb fuel r] by (simp add: recv_spec_def)
  have "left (Inr msg02 # rs) (c_trace ?c1) + nat (cf_conn_max_attempts cfg) < fuel"
    using assms(6,7) by (simp add: left_def recv_event_def)
  from recv_loop_returns [OF assms(5) this]
  obtain tr' j where loop: "disconnect_recv_loop os (us_socket_fd us) (us_dst us) fuel
        (nat (cf_conn_max_attempts cfg)) (garbage os 4 (c_trace ?c1)) (c_trace ?c1) = (Ret (), tr')"
    "closed_fds tr' = closed_fds (c_trace ?c1)"
    "datagrams (us_socket_fd us) tr' = replicate j msg03 @ datagrams (us_socket_fd us) (c_trace ?c1)"
    "0 < nat (cf_conn_max_attempts cfg) \<longrightarrow> 0 < j" by blast
  let ?c2 = "finish_disconnect d (close_tcp_always os (?c1\<lparr>c_trace := tr'\<rparr>))"
  have "chownat_disconnect_recv os fuel ?c1 = (Ret UDP_CONN_OK, ?c2)"
    using k assms(2) loop(1) by (simp add: chownat_disconnect_recv_def on_trace_eq)
  with step loop(2-4) assms(3) show ?thesis
    by (intro exI [where x = "set_closed ?c2"] exI [where x = j])
       (simp add: set_closed_def close_tcp_always_result closed_data_def recv_event_def)
qed

theorem chownat_bye_closes_witness:
  "\<exists>c'. chownat_udp_recv (script_os [Inr msg02, Inr msg03]) (udp_conn_calback quiet_os 9 (Suc 0)) 22
       (Some [0, 0]) 2 (Some 5) (tunnel_conn CHR ''s'' fresh_data) =
     (Ret (UDP_CONN_ERR, Some [0, 0], Some 0), c') \<and> closed_fds (c_trace c') = [5, 4]"
  using chownat_bye_closes [OF demo_server, where m = "[0, 0]" and n = 2 and cfg = demo_config and fuel = 22
      and ts = "\<lparr>ts_socket_fd = 4, ts_accepted_sock = 5, ts_reuse = 1, ts_local = test_addr\<rparr>"
      and os = "script_os [Inr msg02, Inr msg03]" and rs = "[Inr msg03]" and r = 5
      and cb = "udp_conn_calback quiet_os 9 (Suc 0)"]
  by (auto simp: tunnel_conn_def test_conn_def demo_config_def)

text \<open>
  C30. A peer that keeps sending \<open>02\<close> keeps the receive from ever returning: only a failing \<open>recv\<close>
  uses up an attempt, so no amount of fuel is enough.
\<close>

theorem chownat_bye_flood_never_returns:
  assumes "open_conn us d c" and "c_config c = Some cfg" and "0 < cf_conn_max_attempts cfg"
    and "n \<le> length m" and "os_recv os = (\<lambda>tr fd dw. Inr msg02)"
  shows "fst (chownat_udp_recv os cb fuel (Some m) n (Some r) c) = NoFuel"
  using assms(1)
proof (rule open_connE)
  fix k
  assume k: "c_udp c = Some us" "c_data c = Some d" "c_ctrl c = Some k" "cc_init k \<noteq> 0" "cd_closed d = 0"
  let ?c1 = "c\<lparr>c_trace := recv_event us msg02 # c_trace c\<rparr>"
  have recv: "os_recv os (c_trace c) (us_socket_fd us) False = Inr msg02" using assms(5) by simp
  have msg: "take 1027 msg02 = msg02" "parse msg02 = Bye" "3 \<le> length msg02" "take 3 msg02 \<noteq> msg03"
    by (simp_all add: msg_defs parse_def)
  have "fst (disconnect_recv_loop os (us_socket_fd us) (us_dst us) fuel (nat (cf_conn_max_attempts cfg))
      (garbage os 4 (c_trace ?c1)) (c_trace ?c1)) = NoFuel"
    using recv_loop_flood [OF assms(5) msg(3,4)] assms(3) by simp
  then obtain tr' where "disconnect_recv_loop os (us_socket_fd us) (us_dst us) fuel
      (nat (cf_conn_max_attempts cfg)) (garbage os 4 (c_trace ?c1)) (c_trace ?c1) = (NoFuel, tr')"
    by (metis prod.collapse)
  then have "fst (chownat_disconnect_recv os fuel ?c1) = NoFuel"
    using k assms(2) by (simp add: chownat_disconnect_recv_def on_trace_eq)
  then obtain c2 where "chownat_disconnect_recv os fuel ?c1 = (NoFuel, c2)" by (metis prod.collapse)
  with recv_refines [OF assms(1,4) recv, of cb fuel r] msg show ?thesis by (simp add: recv_spec_def)
qed

theorem chownat_bye_flood_never_returns_witness:
  "\<forall>fuel. fst (chownat_udp_recv (asking_os msg02) (udp_conn_calback quiet_os 9 (Suc 0)) fuel
     (Some [0, 0]) 2 (Some 5) (tunnel_conn CHR ''s'' fresh_data)) = NoFuel"
proof
  fix fuel
  show "fst (chownat_udp_recv (asking_os msg02) (udp_conn_calback quiet_os 9 (Suc 0)) fuel
     (Some [0, 0]) 2 (Some 5) (tunnel_conn CHR ''s'' fresh_data)) = NoFuel"
    by (rule chownat_bye_flood_never_returns [OF demo_server, where cfg = demo_config])
       (simp_all add: tunnel_conn_def test_conn_def demo_config_def asking_os_def)
qed

text \<open>
  A connection that is not initialised, and one that is closed, does nothing: every operation
  reports its state and leaves the connection, and so the network, alone; only the received count is
  set to zero.
\<close>

theorem chownat_inert:
  assumes "has_parts cfg us d k c"
  shows "if cc_init k = 0
    then chownat_udp_send os cb buf sent c = (Ret (UDP_CONN_NOT_INIT, sent), c) \<and>
      chownat_udp_recv os cb fuel (Some m) n (Some r) c = (Ret (UDP_CONN_NOT_INIT, Some m, Some 0), c) \<and>
      chownat_udp_send_ka os c = (Ret UDP_CONN_NOT_INIT, c) \<and>
      chownat_hole_punching os fuel c = (Ret UDP_CONN_NOT_INIT, c) \<and>
      chownat_connect cb c = (Ret UDP_CONN_NOT_INIT, c) \<and>
      chownat_disconnect_send os c = (Ret UDP_CONN_NOT_INIT, c) \<and>
      chownat_deinit os c = (Ret UDP_CONN_NOT_INIT, c)
    else cd_closed d \<noteq> 0 \<longrightarrow>
      chownat_udp_send os cb buf sent c = (Ret (UDP_CONN_CLOSED, sent), c) \<and>
      chownat_udp_recv os cb fuel (Some m) n (Some r) c = (Ret (UDP_CONN_CLOSED, Some m, Some 0), c) \<and>
      chownat_udp_send_ka os c = (Ret UDP_CONN_CLOSED, c) \<and>
      chownat_disconnect_send os c = (Ret UDP_CONN_CLOSED, c)"
  using assms
  by (simp add: has_parts_def chownat_udp_send_def chownat_udp_recv_def chownat_udp_send_ka_def
      chownat_hole_punching_def chownat_connect_def chownat_disconnect_send_def chownat_deinit_def)

theorem chownat_inert_witness:
  "chownat_udp_send_ka quiet_os (tunnel_conn CHR ''c'' (closed_data fresh_data)) =
     (Ret UDP_CONN_CLOSED, tunnel_conn CHR ''c'' (closed_data fresh_data))"
  using chownat_inert [OF demo_parts [of "closed_data fresh_data" "CHR ''c''"]]
  by (simp add: closed_data_def)

end
