(* ===== verification/Conn_Spec.thy ===== *)
theory Conn_Spec
  imports Udp_Conn
begin

text \<open>
  What holds of \<open>udp_connection\<close> for every backend: the waiting time of an iteration, the completeness
  of a tunnel write, the meaning of a successful return, and, as a locale, the contract between the
  main loop and a backend under which the loop never runs into undefined behaviour.
\<close>

section \<open>The wait of one iteration\<close>

definition micros :: "timeval \<Rightarrow> int" where
  "micros tv = tv_sec tv * 1000000 + tv_usec tv"

lemma micros_wait_time:
  "micros (wait_time st tv r) = (if st = UDP_CONN_NOT_APPLICABLE then r else min (micros tv) r)"
  by (simp add: wait_time_def micros_def)

text \<open>
  The loop waits until the backend's next event or the keep-alive deadline, whichever comes
  first, and passes \<open>select\<close> a normalised time.
\<close>

theorem wait_time_earliest:
  assumes "0 \<le> tv_usec tv" and "tv_usec tv < 1000000" and "0 \<le> tv_sec tv"
  shows "let w = wait_time st tv (remaining_us next_ka now) in
     micros w = (if st = UDP_CONN_NOT_APPLICABLE then max 0 (next_ka - now)
                 else min (micros tv) (max 0 (next_ka - now))) \<and>
     0 \<le> tv_sec w \<and> 0 \<le> tv_usec w \<and> tv_usec w < 1000000"
proof -
  have r: "remaining_us next_ka now = max 0 (next_ka - now)" by (simp add: remaining_us_def)
  have "0 \<le> max 0 (next_ka - now)" by simp
  with assms show ?thesis
    unfolding Let_def micros_wait_time r by (auto simp: wait_time_def)
qed

theorem wait_time_earliest_witness:
  "micros (wait_time UDP_CONN_OK \<lparr>tv_sec = 5, tv_usec = 0\<rparr> (remaining_us 7 (1 * 1000000))) = 0"
  using wait_time_earliest [where tv = "\<lparr>tv_sec = 5, tv_usec = 0\<rparr>" and st = UDP_CONN_OK
      and next_ka = 7 and now = 1000000]
  by (simp add: Let_def micros_def)

section \<open>Writing to the tunnel\<close>

text \<open>The bytes the system took on a stream descriptor, oldest first.\<close>

fun written :: "int \<Rightarrow> trace \<Rightarrow> byte list" where
  "written fd [] = []"
| "written fd (EvSend f bs (Inr n) # tr) =
     (if f = fd then written fd tr @ take n bs else written fd tr)"
| "written fd (_ # tr) = written fd tr"

lemma tcp_send_loop_written:
  assumes "tcp_send_loop os fd fuel bs tr = (r, tr')"
  shows "\<exists>k. written fd tr' = written fd tr @ take k bs \<and> (r = Ret UDP_CONN_OK \<longrightarrow> length bs \<le> k) \<and>
     r \<noteq> Fault \<and> (\<forall>st. r = Ret st \<longrightarrow> st = UDP_CONN_OK \<or> st = UDP_CONN_ERR)"
  using assms
proof (induction os fd fuel bs tr rule: tcp_send_loop.induct)
  case (1 os fd fuel tr)
  then show ?case by auto
next
  case (2 os fd b bs tr)
  then show ?case by (auto intro: exI [where x = 0])
next
  case (3 os fd fuel b bs tr)
  obtain s tr1 where s: "sys_send os fd (b # bs) tr = (s, tr1)" by fastforce
  show ?case
  proof (cases s)
    case (Inl e)
    then have "written fd tr1 = written fd tr" using s by (auto simp: sys_defs Let_def)
    with Inl s 3 show ?thesis by (cases "e = EINTR") (auto intro: exI [where x = 0])
  next
    case (Inr n)
    have w: "written fd tr1 = written fd tr @ take n (b # bs)"
      using s Inr by (auto simp: sys_defs Let_def)
    show ?thesis
    proof (cases "n = 0")
      case True
      with Inr s w 3 show ?thesis by (auto intro: exI [where x = 0])
    next
      case False
      then have "tcp_send_loop os fd fuel (drop n (b # bs)) tr1 = (r, tr')"
        using 3(3) s Inr by simp
      from 3(2) [OF s [symmetric] Inr False this] obtain k where
        "written fd tr' = written fd tr1 @ take k (drop n (b # bs))"
        "r = Ret UDP_CONN_OK \<longrightarrow> length (drop n (b # bs)) \<le> k"
        "r \<noteq> Fault" "\<forall>st. r = Ret st \<longrightarrow> st = UDP_CONN_OK \<or> st = UDP_CONN_ERR" by blast
      moreover from this(2) have "r = Ret UDP_CONN_OK \<longrightarrow> length (b # bs) \<le> n + k" by auto
      moreover have "written fd tr1 @ take k (drop n (b # bs)) = written fd tr @ take (n + k) (b # bs)"
        using w by (simp only: take_add append_assoc)
      ultimately show ?thesis by metis
    qed
  qed
qed

lemma tcp_send_loop_fuel:
  assumes "\<And>bs tr. os_send os tr fd bs \<noteq> Inl EINTR"
  shows "length bs < fuel \<Longrightarrow> \<exists>st tr'. tcp_send_loop os fd fuel bs tr = (Ret st, tr')"
proof (induction fuel arbitrary: bs tr)
  case (Suc fuel)
  show ?case
  proof (cases bs)
    case (Cons b bs')
    obtain s tr1 where s: "sys_send os fd (b # bs') tr = (s, tr1)" by fastforce
    show ?thesis
    proof (cases s)
      case (Inl e)
      then have "e \<noteq> EINTR" using s assms by (auto simp: sys_defs Let_def)
      with Inl s Cons show ?thesis by simp
    next
      case (Inr n)
      then have "length (drop n (b # bs')) < fuel" if "n \<noteq> 0" using that Suc.prems Cons by simp
      from Suc.IH [OF this] Inr s Cons show ?thesis by simp
    qed
  qed simp
qed simp

text \<open>
  Writing a payload to the tunnel: success means that the system took exactly the payload, in
  order; on an error it took a prefix.  Without interrupts one more round than the payload has bytes
  is enough.
\<close>

theorem tcp_send_complete:
  assumes "c_tcp c = Some ts" and "\<forall>bs tr. os_send os tr (ts_accepted_sock ts) bs \<noteq> Inl EINTR"
    and "length buf < fuel"
  shows "\<exists>st tr k. tcp_send os fuel buf c = (Ret st, c\<lparr>c_trace := tr\<rparr>) \<and>
     written (ts_accepted_sock ts) tr = written (ts_accepted_sock ts) (c_trace c) @ take k buf \<and>
     (if st = UDP_CONN_OK then take k buf = buf else st = UDP_CONN_ERR)"
proof -
  obtain st tr where run: "tcp_send_loop os (ts_accepted_sock ts) fuel buf (c_trace c) = (Ret st, tr)"
    using tcp_send_loop_fuel [of os "ts_accepted_sock ts" buf fuel "c_trace c"] assms(2,3) by blast
  have "tcp_send os fuel buf c = (Ret st, c\<lparr>c_trace := tr\<rparr>)"
    using assms(1) run by (simp add: tcp_send_def on_trace_eq)
  with tcp_send_loop_written [OF run] show ?thesis by auto
qed

text \<open>A bare connection with a tunnel, and a system that takes one byte of every write.\<close>

definition bare_conn :: "(unit, unit, unit) udp_conn" where
  "bare_conn = \<lparr>c_udp = None,
     c_tcp = Some \<lparr>ts_socket_fd = 4, ts_accepted_sock = 5, ts_reuse = 1, ts_local = zero_addr\<rparr>,
     c_ctrl = None, c_callback = False, c_config = None, c_data = None, c_app = (), c_trace = []\<rparr>"

theorem tcp_send_complete_witness:
  "\<exists>st tr. tcp_send (quiet_os\<lparr>os_send := (\<lambda>tr fd bs. Inr 1)\<rparr>) 3 [104, 105] bare_conn =
     (Ret st, bare_conn\<lparr>c_trace := tr\<rparr>) \<and> (st = UDP_CONN_OK \<longrightarrow> written 5 tr = [104, 105])"
  using tcp_send_complete [of bare_conn "\<lparr>ts_socket_fd = 4, ts_accepted_sock = 5, ts_reuse = 1, ts_local = zero_addr\<rparr>"
      "quiet_os\<lparr>os_send := (\<lambda>tr fd bs. Inr 1)\<rparr>" "[104, 105]" 3]
  by (fastforce simp: bare_conn_def split: if_splits)

section \<open>What a successful return means\<close>

lemma flow_case_eq:
  "(case fl of Return st \<Rightarrow> A st | Break \<Rightarrow> B | Continue \<Rightarrow> C) = r \<longleftrightarrow>
     (\<exists>st. fl = Return st \<and> A st = r) \<or> fl = Break \<and> B = r \<or> fl = Continue \<and> C = r"
  by (cases fl) auto

lemma delivery_case_eq:
  "(case dl of Deliver_Return st \<Rightarrow> A st | Deliver_Closed \<Rightarrow> B | Delivered n \<Rightarrow> C n) = r \<longleftrightarrow>
     (\<exists>st. dl = Deliver_Return st \<and> A st = r) \<or> dl = Deliver_Closed \<and> B = r \<or>
     (\<exists>n. dl = Delivered n \<and> C n = r)"
  by (cases dl) auto

lemma deliver_return_err:
  assumes "deliver os api fuel buf c = (Ret (Deliver_Return st, buf'), c')"
  shows "st \<noteq> UDP_CONN_OK"
proof
  assume "st = UDP_CONN_OK"
  with assms show False
    by (auto simp: deliver_def disconnect_return_def chain_Ret_iff Let_def split: if_splits prod.splits)
qed

lemma deliver_closed:
  "deliver os api fuel buf c = (Ret (Deliver_Closed, buf'), c') \<Longrightarrow> closed api c'"
  by (auto simp: deliver_def disconnect_return_def chain_Ret_iff Let_def split: if_splits prod.splits)

lemma with_clock_eq:
  "with_clock os ls k c = r \<longleftrightarrow>
     (\<exists>c1. on_trace (monotonic_us os) c = (None, c1) \<and> (Ret (Return UDP_CONN_ERR, ls), c1) = r) \<or>
     (\<exists>now c1. on_trace (monotonic_us os) c = (Some now, c1) \<and> k now c1 = r)"
  by (auto simp: with_clock_def split: prod.splits option.splits)

lemma sum_case_pair_eq:
  "(case p of (Inl e, s) \<Rightarrow> A e s | (Inr x, s) \<Rightarrow> B x s) = r \<longleftrightarrow>
     (\<exists>e s. p = (Inl e, s) \<and> A e s = r) \<or> (\<exists>x s. p = (Inr x, s) \<and> B x s = r)"
  by (auto split: prod.splits sum.splits)

lemma drain_return_err:
  "drain os api fuel ls c = (Ret (Return st, ls'), c') \<Longrightarrow> st \<noteq> UDP_CONN_OK"
proof (induction fuel arbitrary: ls c)
  case (Suc fuel)
  then show ?case
    by (auto simp: chain_Ret_iff Let_def with_clock_eq delivery_case_eq dest: deliver_return_err
        split: option.splits if_splits)
qed simp

definition ends_well :: "('c, 'd, 'a) udp_conn_api \<Rightarrow> flow \<Rightarrow> ('c, 'd, 'a) udp_conn \<Rightarrow> bool" where
  "ends_well api fl c \<longleftrightarrow> (case fl of Return st \<Rightarrow> st \<noteq> UDP_CONN_OK | Break \<Rightarrow> closed api c | Continue \<Rightarrow> True)"

lemma on_ready_ends:
  assumes "on_ready os api fuel tf uf ls c = (Ret (fl, ls'), c')"
  shows "ends_well api fl c'"
  using assms
  by (auto simp: on_ready_def restart_interval_def with_clock_eq delivery_case_eq chain_Ret_iff Let_def ends_well_def
      dest: deliver_return_err deliver_closed split: if_splits option.splits)

lemma on_timeout_ends:
  assumes "on_timeout os api ls c = (Ret (fl, ls'), c')"
  shows "ends_well api fl c'"
  using assms
  by (auto simp: on_timeout_def count_missed_def with_clock_eq chain_Ret_iff Let_def ends_well_def
      split: if_splits option.splits)

lemma select_phase_ends:
  assumes "select_phase os api fuel ls c = (Ret (fl, ls'), c')"
  shows "ends_well api fl c'"
  using assms unfolding select_phase_def Let_def chain_Ret_iff
  by (auto simp: with_clock_eq sum_case_pair_eq ends_well_def [of api "Return _"]
      ends_well_def [of api Continue] dest: on_ready_ends on_timeout_ends
      split: if_splits option.splits)

lemma conn_iter_ends:
  assumes "conn_iter os api fuel ls c = (Ret (fl, ls'), c')"
  shows "ends_well api fl c'"
proof -
  have rest: "ends_well api fl c'"
    if "chain (drain os api fuel ls c0) (\<lambda>(fl, ls1) c1. case fl of Return st \<Rightarrow> (Ret (Return st, ls1), c1)
          | _ \<Rightarrow> (if closed api c1 then (Ret (Break, ls1), c1) else select_phase os api fuel ls1 c1)) =
        (Ret (fl, ls'), c')" for c0
    using that by (auto simp: chain_Ret_iff flow_case_eq dest: drain_return_err select_phase_ends
        split: if_splits) (auto simp: ends_well_def dest: drain_return_err)
  show ?thesis
  proof (cases "api_process_events api")
    case None
    with assms rest [of c] show ?thesis by (simp add: conn_iter_def)
  next
    case (Some process)
    with assms rest show ?thesis
      by (auto simp: conn_iter_def chain_Ret_iff [of "process c"] ends_well_def [of api "Return _"]
          ends_well_def [of api Break] split: if_splits)
  qed
qed

lemma conn_loop_ok:
  "conn_loop os api fuel ls c = (Ret UDP_CONN_OK, c') \<Longrightarrow> closed api c'"
proof (induction fuel arbitrary: ls c)
  case (Suc fuel)
  then show ?case
    by (auto simp: chain_Ret_iff flow_case_eq ends_well_def dest!: conn_iter_ends split: if_splits)
qed simp

lemma setup_step_ok:
  "setup_step err f k c = (Ret UDP_CONN_OK, c') \<Longrightarrow> err \<noteq> UDP_CONN_OK \<Longrightarrow>
     \<exists>st c1. f c = (Ret st, c1) \<and> k c1 = (Ret UDP_CONN_OK, c')"
  by (auto simp: setup_step_def chain_Ret_iff split: if_splits)

lemma start_loop_ok: "start_loop os api fuel buf c = (Ret UDP_CONN_OK, c') \<Longrightarrow> closed api c'"
  by (auto simp: start_loop_def dest: conn_loop_ok split: prod.splits option.splits)

lemma connection_ok:
  "udp_connection os api e fuel buf c = (Ret UDP_CONN_OK, c') \<Longrightarrow> closed api c'"
  by (auto simp: udp_connection_def dest!: setup_step_ok dest: start_loop_ok split: option.splits if_splits)

section \<open>The contract of a backend\<close>

lemma monotonic_us_ext [simp]: "sys_ext tr t \<Longrightarrow> sys_ext tr (snd (monotonic_us os t))"
  by (simp add: monotonic_us_def sys_defs Let_def split: option.split)

lemma tcp_send_loop_ext [simp]: "sys_ext tr t \<Longrightarrow> sys_ext tr (snd (tcp_send_loop os fd fuel bs t))"
proof (induction os fd fuel bs t rule: tcp_send_loop.induct)
  case (3 os fd fuel b bs t)
  obtain s t1 where s: "sys_send os fd (b # bs) t = (s, t1)" by fastforce
  with sys_ext_calls(9) [OF "3.prems", of os fd "b # bs"] have "sys_ext tr t1" by simp
  with 3 s show ?case by (cases s) auto
qed simp_all

text \<open>
  What \<open>udp_connection\<close> itself does to the trace while it waits.
\<close>

definition wait_event :: "event \<Rightarrow> bool" where
  "wait_event e \<longleftrightarrow> is_EvClock e \<or> is_EvSelect e"

lemma wait_event_simps [simp]: "wait_event (EvClock r)" "wait_event (EvSelect n fds tv r')"
  by (simp_all add: wait_event_def)

lemma wait_ext_sys: "trace_ext wait_event tr t \<Longrightarrow> sys_ext tr t"
  by (erule trace_ext_mono) (auto simp: wait_event_def is_EvClock_def is_EvSelect_def)

lemma wait_ext_calls [simp]:
  assumes "trace_ext wait_event tr t"
  shows "trace_ext wait_event tr (snd (sys_select os nfds fds tv t))"
    "trace_ext wait_event tr (snd (monotonic_us os t))"
  using assms by (simp_all add: monotonic_us_def sys_defs Let_def split: option.split)

lemma on_tcp_ready_leaves:
  assumes "P c" and "leaves P Q (tcp_recv os api c)" and "\<And>c. P c \<Longrightarrow> leaves P Q (api_disconnect api c)"
  shows "leaves P Q (on_tcp_ready os api fd c)"
  using assms by (auto simp: on_tcp_ready_def intro!: leaves_chain)

text \<open>
  The loop over the steps it is made of.  \<open>inv\<close> holds between the steps, \<open>pre\<close> until \<open>connect\<close> is called,
  and \<open>weak\<close> of a step that ended the process or ran out of fuel half-way; \<open>inv\<close> has to guarantee
  descriptors that fit the set.  Reading from the tunnel together with sending to the peer, and
  with hanging up when that failed, is one step, receiving from the peer together with writing to the tunnel another.
\<close>

locale connection_loop =
  fixes api :: "('c, 'd, 'a) udp_conn_api"
    and pre inv weak :: "('c, 'd, 'a) udp_conn \<Rightarrow> bool"
  assumes pre_weak: "pre c \<Longrightarrow> weak c"
    and inv_weak: "inv c \<Longrightarrow> weak c"
    and inv_fds: "inv c \<Longrightarrow> fds_ok c \<and> c_udp c \<noteq> None"
    and inv_wait: "inv c \<Longrightarrow> trace_ext wait_event (c_trace c) t \<Longrightarrow> inv (c\<lparr>c_trace := t\<rparr>)"
    and inv_reads: "inv c \<Longrightarrow> inv (set_read_fds fds c)"
    and step_bind: "pre c \<Longrightarrow> (\<And>tr fd n. os_accept os tr fd = Inr n \<Longrightarrow> int n < FD_SETSIZE) \<Longrightarrow>
      leaves pre weak (tcp_bind os e c)"
    and step_hp: "pre c \<Longrightarrow> leaves pre weak (api_hole_punching api c)"
    and step_connect: "pre c \<Longrightarrow> leaves inv weak (api_connect api c)"
    and step_timeout: "inv c \<Longrightarrow> leaves inv weak (api_get_timeout api tv c)"
    and step_events: "inv c \<Longrightarrow> api_process_events api = Some p \<Longrightarrow> leaves inv weak (p c)"
    and step_pending: "inv c \<Longrightarrow> api_pending_data api = Some q \<Longrightarrow> leaves inv weak (q c)"
    and step_tcp: "inv c \<Longrightarrow> leaves inv weak (on_tcp_ready os api fd c)"
    and step_deliver: "inv c \<Longrightarrow> length buf = TCP_MTU_SIZE \<Longrightarrow> leaves inv weak (deliver os api fuel buf c)"
    and deliver_length: "inv c \<Longrightarrow> length buf = TCP_MTU_SIZE \<Longrightarrow>
      deliver os api fuel buf c = (Ret (dl, buf'), c') \<Longrightarrow> length buf' = TCP_MTU_SIZE"
    and step_ka: "inv c \<Longrightarrow> leaves inv weak (api_udp_send_ka api c)"
    and step_disconnect: "inv c \<Longrightarrow> leaves inv weak (api_disconnect api c)"
begin

lemma wait_inv:
  "on_trace (sys_select os nfds fds tv) c = (r2, c') \<Longrightarrow> inv c \<Longrightarrow> inv c'"
  "on_trace (monotonic_us os) c = (r3, c') \<Longrightarrow> inv c \<Longrightarrow> inv c'"
  by (auto simp: on_trace_eq inv_wait)

text \<open>The steps of the loop also keep the length of the receive buffer.\<close>

definition loop_inv :: "(flow \<times> loop_state) outcome \<times> ('c, 'd, 'a) udp_conn \<Rightarrow> bool" where
  "loop_inv r \<longleftrightarrow> leaves inv weak r \<and> (\<forall>fl ls. fst r = Ret (fl, ls) \<longrightarrow> length (ls_buf ls) = TCP_MTU_SIZE)"

lemma loop_inv_simps [simp]:
  "loop_inv (Ret (fl, ls), c) \<longleftrightarrow> inv c \<and> length (ls_buf ls) = TCP_MTU_SIZE"
  "loop_inv (Exited n, c) \<longleftrightarrow> weak c" "\<not> loop_inv (Fault, c)" "loop_inv (NoFuel, c) \<longleftrightarrow> weak c"
  by (auto simp: loop_inv_def)

lemma loop_inv_chain:
  assumes "leaves inv weak r" and "\<And>a c. r = (Ret a, c) \<Longrightarrow> inv c \<Longrightarrow> loop_inv (k a c)"
  shows "loop_inv (chain r k)"
  using assms by (cases "(r, k)" rule: chain.cases) auto

lemma loop_inv_chain2:
  assumes "loop_inv r"
    and "\<And>fl ls c. inv c \<Longrightarrow> length (ls_buf ls) = TCP_MTU_SIZE \<Longrightarrow> loop_inv (k (fl, ls) c)"
  shows "loop_inv (chain r k)"
  using assms by (cases "(r, k)" rule: chain.cases) auto

lemma loop_inv_clock:
  assumes "inv c" and "length (ls_buf ls) = TCP_MTU_SIZE" and "\<And>now c. inv c \<Longrightarrow> loop_inv (k now c)"
  shows "loop_inv (with_clock os ls k c)"
  using assms by (auto simp: with_clock_def split: prod.splits option.splits dest: wait_inv)

lemma deliverE:
  assumes "inv c" and "length (ls_buf ls) = TCP_MTU_SIZE"
    and "\<And>dl buf c'. inv c' \<Longrightarrow> length buf = TCP_MTU_SIZE \<Longrightarrow> loop_inv (k (dl, buf) c')"
  shows "loop_inv (chain (deliver os api fuel (ls_buf ls) c) k)"
  using step_deliver [OF assms(1,2)] deliver_length [OF assms(1,2)] assms(3) by (auto intro!: loop_inv_chain)

lemma drain_inv: "inv c \<Longrightarrow> length (ls_buf ls) = TCP_MTU_SIZE \<Longrightarrow> loop_inv (drain os api fuel ls c)"
proof (induction fuel arbitrary: ls c)
  case (Suc fuel)
  show ?case
  proof (cases "api_pending_data api")
    case (Some q)
    show ?thesis
      unfolding drain.simps(2) Some option.case
      by (rule loop_inv_chain [OF step_pending [OF Suc.prems(1) Some]])
         (use Suc in \<open>auto simp: Let_def intro!: deliverE loop_inv_clock split: delivery.split\<close>)
  qed (use Suc in simp)
qed (simp add: inv_weak)

lemma restart_interval_inv:
  "inv c \<Longrightarrow> length (ls_buf ls) = TCP_MTU_SIZE \<Longrightarrow> loop_inv (restart_interval os ls c)"
  by (auto simp: restart_interval_def intro!: loop_inv_clock)

lemma on_ready_inv:
  assumes "inv c" and "length (ls_buf ls) = TCP_MTU_SIZE"
  shows "loop_inv (on_ready os api fuel tf uf ls c)"
proof -
  have "loop_inv (chain (deliver os api fuel (ls_buf (ls\<lparr>ls_threshold := 0\<rparr>)) c1) (\<lambda>(dl, buf) c2.
      case dl of Deliver_Return st \<Rightarrow> (Ret (Return st, ls\<lparr>ls_threshold := 0, ls_buf := buf\<rparr>), c2)
        | Deliver_Closed \<Rightarrow> (Ret (Break, ls\<lparr>ls_threshold := 0, ls_buf := buf\<rparr>), c2)
        | Delivered n \<Rightarrow> restart_interval os (ls\<lparr>ls_threshold := 0, ls_buf := buf\<rparr>) c2))"
    if "inv c1" for c1
    using that assms(2)
    by (intro deliverE) (auto intro!: restart_interval_inv split: delivery.split)
  then show ?thesis
    unfolding on_ready_def Let_def
    by (intro loop_inv_chain step_tcp) (auto simp: assms intro!: restart_interval_inv)
qed

lemma count_missed_inv:
  assumes "inv c" and "length (ls_buf ls) = TCP_MTU_SIZE"
  shows "loop_inv (count_missed api ls c)"
  using assms inv_fds [OF assms(1)]
  by (auto simp: count_missed_def Let_def intro!: loop_inv_chain step_disconnect)

lemma on_timeout_inv:
  "inv c \<Longrightarrow> length (ls_buf ls) = TCP_MTU_SIZE \<Longrightarrow> loop_inv (on_timeout os api ls c)"
  by (auto simp: on_timeout_def intro!: loop_inv_clock loop_inv_chain step_ka count_missed_inv)

lemma watched_ok:
  "inv c \<Longrightarrow> list_all fd_set_ok ((if udp_fd_of c \<noteq> -1 then [udp_fd_of c] else []) @
     (if tcp_fd_of c \<noteq> -1 then [tcp_fd_of c] else []))"
  using inv_fds [of c]
  by (auto simp: udp_fd_of_def tcp_fd_of_def fds_ok_def fd_ok_def fd_set_ok_def split: option.splits)

lemma select_phase_inv:
  assumes "inv c" and "length (ls_buf ls) = TCP_MTU_SIZE"
  shows "loop_inv (select_phase os api fuel ls c)"
  unfolding select_phase_def Let_def
  by (intro loop_inv_chain step_timeout assms)
     (use watched_ok [OF assms(1)] assms(2) in
       \<open>auto simp del: list_all_append intro!: loop_inv_clock on_ready_inv on_timeout_inv inv_reads
          dest: wait_inv split: prod.splits sum.splits\<close>)

lemma conn_iter_inv:
  assumes "inv c" and "length (ls_buf ls) = TCP_MTU_SIZE"
  shows "loop_inv (conn_iter os api fuel ls c)"
proof -
  have rest: "loop_inv (chain (drain os api fuel ls c0) (\<lambda>(fl, ls1) c1. case fl of
        Return st \<Rightarrow> (Ret (Return st, ls1), c1)
      | _ \<Rightarrow> (if closed api c1 then (Ret (Break, ls1), c1) else select_phase os api fuel ls1 c1)))"
    if "inv c0" for c0
    by (rule loop_inv_chain2 [OF drain_inv [OF that assms(2)]])
       (auto intro!: select_phase_inv split: flow.split)
  show ?thesis
  proof (cases "api_process_events api")
    case (Some p)
    then show ?thesis using assms rest
      by (auto simp: conn_iter_def intro!: loop_inv_chain step_events)
  qed (use assms rest in \<open>simp add: conn_iter_def\<close>)
qed

lemma conn_loop_leaves: "inv c \<Longrightarrow> length (ls_buf ls) = TCP_MTU_SIZE \<Longrightarrow> leaves inv weak (conn_loop os api fuel ls c)"
proof (induction fuel arbitrary: ls c)
  case (Suc fuel)
  show ?case
    using conn_iter_inv [OF Suc.prems, of os fuel] Suc
    by (auto simp: loop_inv_def intro!: leaves_chain split: flow.split)
qed (simp add: inv_weak)

lemma start_loop_leaves:
  "inv c \<Longrightarrow> length buf = TCP_MTU_SIZE \<Longrightarrow> leaves inv weak (start_loop os api fuel buf c)"
  by (auto simp: start_loop_def split: prod.splits option.splits dest: wait_inv intro!: conn_loop_leaves)

lemma setup_step_leaves:
  "leaves P W (f c) \<Longrightarrow> (\<And>c. P c \<Longrightarrow> Q c) \<Longrightarrow> (\<And>c. P c \<Longrightarrow> leaves Q W (k c)) \<Longrightarrow>
     leaves Q W (setup_step err f k c)"
  unfolding setup_step_def by (erule leaves_chain) auto

lemma udp_connection_leaves:
  assumes "pre c" and "\<And>c. pre c \<Longrightarrow> idle c" and "\<And>c. inv c \<Longrightarrow> idle c" and "length buf = TCP_MTU_SIZE"
    and "\<And>tr fd n. os_accept os tr fd = Inr n \<Longrightarrow> int n < FD_SETSIZE"
  shows "leaves idle weak (udp_connection os api e fuel buf c)"
proof -
  let ?connect = "setup_step UDP_CONN_CONNECT_ERROR (api_connect api) (start_loop os api fuel buf)"
  let ?punch = "setup_step UDP_CONN_TCP_HP_ERROR (api_hole_punching api)"
  let ?bind = "setup_step UDP_CONN_TCP_BIND_ERROR (tcp_bind os e)"
  have idle: "leaves idle weak r" if "leaves inv weak r" for r :: "udp_conn_status outcome \<times> _"
    using that assms(3) by (cases "(inv, weak, r)" rule: leaves.cases) auto
  have connect: "leaves idle weak (?connect c)" if "pre c" for c
    by (rule setup_step_leaves [where P = inv])
       (use that assms(3,4) step_connect start_loop_leaves in \<open>auto intro: idle\<close>)
  have punch: "leaves idle weak (?punch k c)" if "pre c" and "\<And>c. pre c \<Longrightarrow> leaves idle weak (k c)" for k c
    by (rule setup_step_leaves [where P = pre]) (use that step_hp assms(2) in auto)
  have bind: "leaves idle weak (?bind k c)" if "pre c" and "\<And>c. pre c \<Longrightarrow> leaves idle weak (k c)" for k c
    by (rule setup_step_leaves [where P = pre]) (use that step_bind assms(2,5) in auto)
  have "leaves idle weak (?bind (?punch ?connect) c)" "leaves idle weak (?punch (?bind ?connect) c)"
    using assms(1) by (blast intro: connect punch bind)+
  then show ?thesis using assms(1,2) by (simp add: udp_connection_def split: option.split)
qed

end

text \<open>
  What \<open>udp_connection\<close> relies on when it calls a backend.  \<open>inv\<close> is the backend's invariant of the
  connection: it may not depend on what the loop itself changes (system calls in the trace, the set of
  read descriptors, the accepted socket), it has to guarantee descriptors that fit the set, every operation
  keeps it, and a receive reports no more bytes than the buffer it was given holds.  \<open>pre\<close> is the stronger condition
  that holds until \<open>connect\<close> is called.
\<close>

locale udp_backend =
  fixes api :: "('c, 'd, 'a) udp_conn_api"
    and pre inv :: "('c, 'd, 'a) udp_conn \<Rightarrow> bool"
  assumes pre_inv: "pre c \<Longrightarrow> inv c"
    and pre_trace: "pre c \<Longrightarrow> sys_ext (c_trace c) t \<Longrightarrow> pre (c\<lparr>c_trace := t\<rparr>)"
    and pre_accepted: "pre c \<Longrightarrow> c_tcp c = Some ts \<Longrightarrow> fd_ok a \<Longrightarrow>
      pre (c\<lparr>c_tcp := Some (ts\<lparr>ts_accepted_sock := a\<rparr>)\<rparr>)"
    and inv_fds: "inv c \<Longrightarrow> fds_ok c \<and> c_udp c \<noteq> None"
    and inv_trace: "inv c \<Longrightarrow> sys_ext (c_trace c) t \<Longrightarrow> inv (c\<lparr>c_trace := t\<rparr>)"
    and inv_reads: "inv c \<Longrightarrow> inv (set_read_fds fds c)"
    and keeps_hp: "pre c \<Longrightarrow> keeps pre (api_hole_punching api c)"
    and keeps_connect: "pre c \<Longrightarrow> keeps inv (api_connect api c)"
    and keeps_timeout: "inv c \<Longrightarrow> keeps inv (api_get_timeout api tv c)"
    and keeps_events: "inv c \<Longrightarrow> api_process_events api = Some p \<Longrightarrow> keeps inv (p c)"
    and keeps_pending: "inv c \<Longrightarrow> api_pending_data api = Some q \<Longrightarrow> keeps inv (q c)"
    and keeps_send: "inv c \<Longrightarrow> keeps inv (api_udp_send api bs sent c)"
    and keeps_recv: "inv c \<Longrightarrow> n \<le> length m \<Longrightarrow> keeps inv (api_udp_recv api (Some m) n (Some 0) c)"
    and recv_bound: "inv c \<Longrightarrow> n \<le> length m \<Longrightarrow>
      api_udp_recv api (Some m) n (Some 0) c = (Ret (st, m', r'), c') \<Longrightarrow>
      \<exists>m1 k. m' = Some m1 \<and> r' = Some k \<and> length m1 = length m \<and> k \<le> n"
    and keeps_ka: "inv c \<Longrightarrow> keeps inv (api_udp_send_ka api c)"
    and keeps_disconnect: "inv c \<Longrightarrow> keeps inv (api_disconnect api c)"
begin

lemma keeps_trace:
  "inv c \<Longrightarrow> fst (f (c_trace c)) \<noteq> Fault \<Longrightarrow> sys_ext (c_trace c) (snd (f (c_trace c))) \<Longrightarrow>
     keeps inv (on_trace f c)"
  by (simp add: keeps_def on_trace_eq inv_trace)

lemma on_trace_inv:
  "on_trace f c = (x, c') \<Longrightarrow> inv c \<Longrightarrow> sys_ext (c_trace c) (snd (f (c_trace c))) \<Longrightarrow> inv c'"
  by (auto simp: on_trace_eq inv_trace)

lemma call_inv:
  "on_trace (sys_recv os fd cap dw) c = (r1, c') \<Longrightarrow> inv c \<Longrightarrow> inv c'"
  "on_trace (sys_select os nfds fds tv) c = (r2, c') \<Longrightarrow> inv c \<Longrightarrow> inv c'"
  "on_trace (monotonic_us os) c = (r3, c') \<Longrightarrow> inv c \<Longrightarrow> inv c'"
  by (simp_all add: on_trace_inv)

lemma keeps_tcp_recv: "inv c \<Longrightarrow> keeps inv (tcp_recv os api c)"
  by (auto simp: tcp_recv_def intro!: keeps_chain keeps_send dest: call_inv
      split: option.splits sum.splits prod.splits)

lemma keeps_tcp_send: "inv c \<Longrightarrow> keeps inv (tcp_send os fuel buf c)"
proof (cases "c_tcp c")
  case (Some ts)
  moreover obtain r tr where "tcp_send_loop os (ts_accepted_sock ts) fuel buf (c_trace c) = (r, tr)" by fastforce
  moreover from this have "r \<noteq> Fault" using tcp_send_loop_written by blast
  moreover have "sys_ext (c_trace c) (snd (tcp_send_loop os (ts_accepted_sock ts) fuel buf (c_trace c)))" by simp
  moreover assume "inv c"
  ultimately show ?thesis by (auto simp: tcp_send_def simp del: tcp_send_loop_ext intro!: keeps_trace)
qed (simp add: tcp_send_def)

lemma keeps_tcp_bind:
  assumes "pre c" and "\<And>tr fd n. os_accept os tr fd = Inr n \<Longrightarrow> int n < FD_SETSIZE"
  shows "keeps pre (tcp_bind os e c)"
proof -
  have accept: "fd_ok a" if "fst (sys_accept os fd tr) = Inr a" for fd tr a
    using that assms(2) by (auto simp: sys_defs Let_def fd_ok_def)
  have "keeps pre (tcp_bind_client os ts c)" if "c_tcp c = Some ts" for ts
    using assms(1) that
    by (auto simp: tcp_bind_client_def tcp_bind_close_def on_trace_eq Let_def pre_trace
        split: prod.splits sum.splits dest: accept intro!: pre_accepted)
  moreover have "keeps pre (tcp_bind_server os e ts c)" if "c_tcp c = Some ts" for ts
    using assms(1) that inv_fds [OF pre_inv [OF assms(1)]]
    by (auto simp: tcp_bind_server_def on_trace_eq pre_trace fds_ok_def fd_ok_def
        split: prod.splits option.splits intro!: pre_accepted)
  ultimately show ?thesis using assms(1) by (auto simp: tcp_bind_def split: option.splits)
qed

lemma keeps_deliver:
  assumes "inv c" and "length buf = TCP_MTU_SIZE"
  shows "keeps inv (deliver os api fuel buf c) \<and>
     (\<forall>dl buf' c'. deliver os api fuel buf c = (Ret (dl, buf'), c') \<longrightarrow> length buf' = TCP_MTU_SIZE)"
proof -
  have dis: "keeps inv (disconnect_return api st b c1)" if "inv c1" for st b c1
    using that by (auto simp: disconnect_return_def intro!: keeps_chain keeps_disconnect)
  have recv: "keeps inv (api_udp_recv api (Some buf) TCP_MTU_SIZE (Some 0) c)"
    using assms by (intro keeps_recv) simp_all
  have bound: "\<exists>m1 k. m' = Some m1 \<and> r' = Some k \<and> length m1 = TCP_MTU_SIZE \<and> k \<le> TCP_MTU_SIZE"
    if "api_udp_recv api (Some buf) TCP_MTU_SIZE (Some 0) c = (Ret (st, m', r'), c1)" for st m' r' c1
    using recv_bound [OF assms(1) _ that] assms(2) by simp
  have "keeps inv (deliver os api fuel buf c)"
    unfolding deliver_def
    by (rule keeps_chain [OF recv]) (auto simp: Let_def dest!: bound intro!: dis keeps_chain keeps_tcp_send)
  moreover have "length buf' = TCP_MTU_SIZE" if "deliver os api fuel buf c = (Ret (dl, buf'), c')" for dl buf' c'
    using that by (auto simp: deliver_def disconnect_return_def chain_Ret_iff Let_def dest!: bound split: if_splits)
  ultimately show ?thesis by blast
qed

sublocale loop: connection_loop api pre inv inv
proof unfold_locales
  show "deliver os api fuel buf c = (Ret (dl, buf'), c') \<Longrightarrow> inv c \<Longrightarrow> length buf = TCP_MTU_SIZE \<Longrightarrow>
      length buf' = TCP_MTU_SIZE" for os fuel buf dl buf' c c'
    using keeps_deliver by blast
  show "trace_ext wait_event (c_trace c) t \<Longrightarrow> inv c \<Longrightarrow> inv (c\<lparr>c_trace := t\<rparr>)" for c t
    by (rule inv_trace [OF _ wait_ext_sys])
  show "leaves pre inv (tcp_bind os e c)"
    if "pre c" and "\<And>tr fd n. os_accept os tr fd = Inr n \<Longrightarrow> int n < FD_SETSIZE" for os e c
    by (rule keeps_leaves [OF keeps_tcp_bind [OF that]]) (assumption, rule pre_inv)
qed (use inv_fds keeps_deliver in \<open>auto intro: pre_inv inv_reads keeps_leaves keeps_hp keeps_connect
       keeps_timeout keeps_events keeps_pending keeps_tcp_recv keeps_ka keeps_disconnect on_tcp_ready_leaves\<close>)

lemma udp_connection_keeps:
  assumes "pre c" and "length buf = TCP_MTU_SIZE"
    and "\<And>tr fd n. os_accept os tr fd = Inr n \<Longrightarrow> int n < FD_SETSIZE"
  shows "keeps inv (udp_connection os api e fuel buf c)"
  using loop.udp_connection_leaves [of c inv buf os e fuel] assms by (auto intro: leaves_keeps pre_inv)

end

end
