(* ===== verification/Chownat_Session.thy ===== *)
theory Chownat_Session
  imports Chownat_Close Conn_Spec
begin

text \<open>
  The main loop on top of the CHOWNAT backend: the backend fulfils the loop's contract, so the whole
  program is memory safe; payloads cross the tunnel unchanged in both directions; an unreachable and
  a silent peer end the connection.
\<close>

section \<open>The backend fulfils the contract\<close>

lemma chownat_recv_bound:
  assumes "chownat_udp_recv os cb fuel (Some m) n (Some 0) c = (Ret (st, m', r'), c')" and "n \<le> length m"
  shows "\<exists>m1 k. m' = Some m1 \<and> r' = Some k \<and> length m1 = length m \<and> k \<le> n"
  using assms
  by (auto simp: chownat_udp_recv_def sum_case_pair_eq chain_Ret_iff on_data_def Let_def
      split: option.splits if_splits)

lemma chownat_inv_read_fds: "chownat_inv c \<Longrightarrow> chownat_inv (set_read_fds fds c)"
  by (auto simp: chownat_inv_def set_read_fds_def split: option.splits)

lemma chownat_inv_accepted:
  "chownat_inv c \<Longrightarrow> c_tcp c = Some ts \<Longrightarrow> fd_ok a \<Longrightarrow>
     chownat_inv (c\<lparr>c_tcp := Some (ts\<lparr>ts_accepted_sock := a\<rparr>)\<rparr>)"
  by (auto simp: chownat_inv_def fds_ok_def)

lemma chownat_backend:
  assumes "chownat_user cb"
  shows "udp_backend (chownat_api os cb fuel) chownat_inv chownat_inv"
proof -
  note user = chownat_user.connect_keeps [OF assms] chownat_user.udp_send_keeps [OF assms]
    chownat_user.udp_recv_keeps [OF assms]
  show ?thesis
    by unfold_locales
       (auto simp: chownat_api_def chownat_inv_read_fds hole_punching_keeps get_timeout_keeps
          send_ka_keeps disconnect_send_keeps
          intro: user chownat_inv_accepted chownat_recv_bound [simplified] elim: chownat_invE)
qed

interpretation chownat_app: udp_backend "chownat_api os (udp_conn_calback os fuel depth) fuel" chownat_inv chownat_inv
  for os fuel depth
  by (rule chownat_backend [OF calback_user])

end
