(* ===== verification/Chownat_Tunnel.thy ===== *)
theory Chownat_Tunnel
  imports Chownat_Session
begin

text \<open>
  Properties of the main loop with the CHOWNAT backend: memory safety of the whole program, payloads
  that cross the tunnel unchanged in both directions, and the end of a connection whose peer cannot
  be reached or falls silent.
\<close>

section \<open>Memory safety of the program\<close>

text \<open>
  C5. \<open>udp_connection\<close> with the CHOWNAT backend never runs into undefined behaviour: from a well-formed
  connection, for any user that keeps it well formed and any behaviour of the peer and of the system,
  as long as \<open>accept\<close> yields descriptors that fit an \<open>fd_set\<close>.
\<close>

theorem chownat_connection_safe:
  assumes "chownat_user cb" and "chownat_inv c" and "length buf = TCP_MTU_SIZE"
    and "\<forall>tr fd n. os_accept os tr fd = Inr n \<longrightarrow> int n < FD_SETSIZE"
  shows "keeps chownat_inv (udp_connection os (chownat_api os cb fuel) e loop_fuel buf c)"
  using assms(2-4) by (intro udp_backend.udp_connection_keeps [OF chownat_backend [OF assms(1)]]) auto

theorem chownat_connection_safe_witness:
  "keeps chownat_inv (udp_connection quiet_os (chownat_api quiet_os (udp_conn_calback quiet_os 9 2) 9) 0 9
     (replicate 1024 0) (tunnel_conn CHR ''s'' fresh_data))"
  by (rule chownat_connection_safe [OF calback_user])
     (use demo_server in \<open>simp_all add: open_conn_def\<close>)

section \<open>Crossing the tunnel\<close>

lemma api_simps [simp]:
  "api_is_closed (chownat_api os cb fuel) = chownat_is_closed"
  "api_udp_send (chownat_api os cb fuel) = chownat_udp_send os cb"
  "api_udp_recv (chownat_api os cb fuel) = chownat_udp_recv os cb fuel"
  "api_udp_send_ka (chownat_api os cb fuel) = chownat_udp_send_ka os"
  "api_get_timeout (chownat_api os cb fuel) = chownat_get_timeout"
  "api_disconnect (chownat_api os cb fuel) = chownat_disconnect_send os"
  "api_process_events (chownat_api os cb fuel) = None"
  "api_pending_data (chownat_api os cb fuel) = None"
  "api_hole_punching (chownat_api os cb fuel) = chownat_hole_punching os fuel"
  "api_connect (chownat_api os cb fuel) = chownat_connect cb"
  by (simp_all add: chownat_api_def)

lemma open_not_closed:
  assumes "open_conn us d c"
  shows "chownat_is_closed c = UDP_CONN_OK" and "\<not> closed (chownat_api os cb fuel) c"
  using assms by (auto simp: open_conn_def chownat_is_closed_def closed_def)

text \<open>
  What the local TCP peer writes goes out as one data packet with the next sequence number and is
  kept for retransmission; the end of its stream is reported as an error without sending anything.
\<close>

theorem tunnel_upstream:
  assumes "passive_user cb" and "open_conn us d c" and "c_tcp c = Some ts" and "stored ms d"
    and "os_recv os (c_trace c) (ts_accepted_sock ts) False = Inr bs"
  shows "if bs = [] then \<exists>tr. tcp_recv os (chownat_api os cb fuel) c = (Ret UDP_CONN_ERR, c\<lparr>c_trace := tr\<rparr>) \<and>
       datagrams (us_socket_fd us) tr = datagrams (us_socket_fd us) (c_trace c)
     else \<exists>st c' d'. tcp_recv os (chownat_api os cb fuel) c = (Ret st, c') \<and> open_conn us d' c' \<and>
       stored (ms @ [take TCP_MTU_SIZE bs]) d' \<and>
       datagrams (us_socket_fd us) (c_trace c') =
         data_packet (of_nat (length ms)) (take TCP_MTU_SIZE bs) # datagrams (us_socket_fd us) (c_trace c)"
  using assms(2)
proof (rule open_connE)
  fix k
  assume k: "c_udp c = Some us" "c_ctrl c = Some k" "cc_init k \<noteq> 0" "chownat_wf d"
  let ?ev = "EvRecv (ts_accepted_sock ts) 1024 False (Inr (take 1024 bs, 1024 < length bs))"
  let ?c = "c\<lparr>c_trace := ?ev # c_trace c\<rparr>"
  have recv: "on_trace (sys_recv os (ts_accepted_sock ts) 1024 False) c = (Inr (take 1024 bs), ?c)"
    using assms(5) by (simp add: on_trace_eq sys_defs Let_def)
  have run: "tcp_recv os (chownat_api os cb fuel) c = (if bs = [] then (Ret UDP_CONN_ERR, ?c)
      else chain (chownat_udp_send os cb (take 1024 bs) None ?c) (\<lambda>(st, _) c2. (Ret st, c2)))"
    using k assms(3) open_not_closed(1) [OF assms(2)] recv by (simp add: tcp_recv_def)
  have opn: "open_conn us d ?c" and len: "length (take 1024 bs) \<le> 1024" using assms(2) by simp_all
  obtain st n' c' where "chownat_udp_send os cb (take 1024 bs) None ?c = (Ret (st, n'), c')"
    "open_conn us (sent_data d (take 1024 bs)) c'"
    "datagrams (us_socket_fd us) (c_trace c') =
       data_packet (of_nat (length ms)) (take 1024 bs) # datagrams (us_socket_fd us) (c_trace ?c)"
    by (rule send_step [OF assms(1) opn len, unfolded word_of_stored [OF assms(4)]])
  then show ?thesis using run stored_sent [OF k(4) len assms(4)] by auto
qed

lemma tunnel_conn_tcp [simp]: "c_tcp (tunnel_conn m d) =
    Some \<lparr>ts_socket_fd = 4, ts_accepted_sock = 5, ts_reuse = 1, ts_local = test_addr\<rparr>"
  by (simp add: tunnel_conn_def)

theorem tunnel_upstream_witness:
  "\<exists>st c'. tcp_recv (asking_os [104, 105]) (chownat_api (asking_os [104, 105]) (udp_conn_calback quiet_os 9 (Suc 0)) 9)
       (tunnel_conn CHR ''c'' fresh_data) = (Ret st, c') \<and>
     datagrams 3 (c_trace c') = [[0x30, 0x39, 0, 104, 105]]"
  using tunnel_upstream [OF demo_user demo_client _ stored_fresh [OF fresh_data_closed(2)],
      where os = "asking_os [104, 105]" and bs = "[104, 105]" and fuel = 9
        and ts = "\<lparr>ts_socket_fd = 4, ts_accepted_sock = 5, ts_reuse = 1, ts_local = test_addr\<rparr>"]
  by (auto simp: data_packet_def msg_defs)

text \<open>A system that takes something of every write that is not empty.\<close>

definition accepts :: "os \<Rightarrow> int \<Rightarrow> bool" where
  "accepts os fd \<longleftrightarrow> (\<forall>b bs tr. \<exists>n > 0. os_send os tr fd (b # bs) = Inr n)"

lemma tcp_send_loop_accepts:
  assumes "accepts os fd"
  shows "length bs < fuel \<Longrightarrow> \<exists>tr'. tcp_send_loop os fd fuel bs tr = (Ret UDP_CONN_OK, tr')"
proof (induction fuel arbitrary: bs tr)
  case (Suc fuel)
  show ?case
  proof (cases bs)
    case (Cons b bs')
    obtain n where n: "os_send os tr fd (b # bs') = Inr n" "0 < n"
      using assms unfolding accepts_def by blast
    let ?n = "min (length (b # bs')) n"
    have "length (drop ?n (b # bs')) < fuel" using n(2) Suc.prems Cons by (simp add: min_def) linarith
    from Suc.IH [OF this] n Cons show ?thesis by (simp add: sys_defs Let_def)
  qed simp
qed simp

text \<open>
  The payload of the expected packet is written to the local TCP peer completely and unchanged,
  however the system splits the writes; the loop is told its length and the next number is expected.
\<close>

theorem tunnel_downstream:
  assumes "passive_user cb" and "open_conn us d c" and "c_tcp c = Some ts"
    and "os_recv os (c_trace c) (us_socket_fd us) False = Inr (data_packet i p)"
    and "uint i = cd_expected d" and "length p \<le> TCP_MTU_SIZE" and "length buf = TCP_MTU_SIZE"
    and "accepts os (ts_accepted_sock ts)" and "TCP_MTU_SIZE < loop_fuel"
  shows "\<exists>buf' c' d'. deliver os (chownat_api os cb fuel) loop_fuel buf c = (Ret (Delivered (length p), buf'), c') \<and>
     written (ts_accepted_sock ts) (c_trace c') = written (ts_accepted_sock ts) (c_trace c) @ p \<and>
     open_conn us d' c' \<and> cd_expected d' = (cd_expected d + 1) mod 256"
  using assms(2)
proof (rule open_connE)
  fix k
  assume k: "chownat_wf d" "cd_closed d = 0" "c_callback c" "c_tcp c \<noteq> None"
  let ?d = "d\<lparr>cd_expected := (cd_expected d + 1) mod 256\<rparr>"
  let ?c = "c\<lparr>c_trace := recv_event us (data_packet i p) # c_trace c, c_data := Some ?d\<rparr>"
  have "chownat_wf ?d"
    using wf_expected [OF k(1)] k(1) by (simp add: next_seq_mod chownat_wf_def [of d])
  then have opn: "open_conn us ?d (c\<lparr>c_data := Some ?d\<rparr>)"
    using open_conn_data [OF assms(2), of ?d] k(2) by simp
  obtain a where cb: "run_callback cb CHOWNAT_UDP_RECV_DATA p ?c =
      (Ret (), ?c\<lparr>c_trace := EvCallback CHOWNAT_UDP_RECV_DATA p # c_trace ?c, c_app := a\<rparr>)"
    using run_callback_passive [OF assms(1), of ?c] k by auto
  let ?c2 = "?c\<lparr>c_trace := EvCallback CHOWNAT_UDP_RECV_DATA p # c_trace ?c, c_app := a\<rparr>"
  have recv: "chownat_udp_recv os cb fuel (Some buf) TCP_MTU_SIZE (Some 0) c =
      (Ret (UDP_CONN_OK, Some (overwrite buf p), Some (length p)), ?c2)"
    using recv_refines [OF assms(2) _ assms(4), of TCP_MTU_SIZE buf cb fuel 0] assms(5-7) cb
    by (simp add: recv_spec_def parse_data_packet set_data_def)
  have open2: "open_conn us ?d ?c2" using opn by simp
  obtain tr where send: "tcp_send_loop os (ts_accepted_sock ts) loop_fuel p (c_trace ?c2) = (Ret UDP_CONN_OK, tr)"
    using tcp_send_loop_accepts [OF assms(8), of p loop_fuel] assms(6,9) by fastforce
  then have w: "written (ts_accepted_sock ts) tr = written (ts_accepted_sock ts) (c_trace ?c2) @ p"
    using tcp_send_loop_written by fastforce
  have "deliver os (chownat_api os cb fuel) loop_fuel buf c =
      (Ret (Delivered (length p), overwrite buf p), ?c2\<lparr>c_trace := tr\<rparr>)"
    using recv open_not_closed(2) [OF open2] assms(3,6,7) send
    by (simp add: deliver_def Let_def tcp_send_def on_trace_eq)
  moreover have "open_conn us ?d (?c2\<lparr>c_trace := tr\<rparr>)" using opn by simp
  ultimately show ?thesis using w by (auto simp: recv_event_def)
qed

theorem tunnel_downstream_witness:
  "\<exists>buf' c'. deliver (asking_os (data_packet 0 [104, 105]))
       (chownat_api (asking_os (data_packet 0 [104, 105])) (udp_conn_calback quiet_os 9 (Suc 0)) 9) 2000
       (replicate 1024 0) (tunnel_conn CHR ''c'' fresh_data) = (Ret (Delivered 2, buf'), c') \<and>
     written 5 (c_trace c') = [104, 105]"
proof -
  have "accepts (asking_os (data_packet 0 [104, 105])) 5"
    by (auto simp: accepts_def asking_os_def)
  then show ?thesis
    using tunnel_downstream [OF demo_user demo_client tunnel_conn_tcp, where i = 0 and p = "[104, 105]"
        and os = "asking_os (data_packet 0 [104, 105])" and fuel = 9 and loop_fuel = 2000
        and buf = "replicate 1024 0"]
    by (simp add: numeral_2_eq_2) blast
qed

section \<open>A silent peer\<close>

text \<open>
  An idle environment: \<open>select\<close> always times out after exactly the time it was given, the clock counts
  these times, and datagrams can be sent.
\<close>

fun elapsed :: "trace \<Rightarrow> int" where
  "elapsed [] = 0"
| "elapsed (EvSelect n fds (Some tv) r # tr) = micros tv + elapsed tr"
| "elapsed (_ # tr) = elapsed tr"

definition idle :: "os \<Rightarrow> bool" where
  "idle os \<longleftrightarrow> (\<forall>tr fds tv. os_select os tr fds tv = Inr []) \<and>
     (\<forall>tr. os_clock os tr = Some (elapsed tr div 1000000, elapsed tr mod 1000000 * 1000)) \<and>
     (\<forall>tr fd bs. \<exists>n. os_sendto os tr fd bs = Inr n)"

text \<open>The connection after a look at the clock.\<close>

definition tick :: "('c, 'd, 'a) udp_conn \<Rightarrow> ('c, 'd, 'a) udp_conn" where
  "tick c = c\<lparr>c_trace := EvClock (Some (elapsed (c_trace c) div 1000000,
     elapsed (c_trace c) mod 1000000 * 1000)) # c_trace c\<rparr>"

lemma tick_simps [simp]:
  "c_tcp (tick c) = c_tcp c" "c_udp (tick c) = c_udp c" "c_config (tick c) = c_config c"
  "elapsed (c_trace (tick c)) = elapsed (c_trace c)"
  "datagrams fd (c_trace (tick c)) = datagrams fd (c_trace c)"
  "open_conn us d (tick c) = open_conn us d c"
  by (simp_all add: tick_def)

lemma idle_clock: "idle os \<Longrightarrow> on_trace (monotonic_us os) c = (Some (elapsed (c_trace c)), tick c)"
  by (simp add: monotonic_us_def sys_defs Let_def idle_def on_trace_eq tick_def)

lemma idle_with_clock: "idle os \<Longrightarrow> with_clock os ls k c = k (elapsed (c_trace c)) (tick c)"
  by (simp add: with_clock_def idle_clock)

lemma idle_send_ka:
  assumes "idle os" and "open_conn us d c"
  obtains c1 where "chownat_udp_send_ka os c = (Ret UDP_CONN_OK, c1)" and "open_conn us d c1"
    and "c_tcp c1 = c_tcp c" and "c_config c1 = c_config c"
    and "datagrams (us_socket_fd us) (c_trace c1) = msg_ka # datagrams (us_socket_fd us) (c_trace c)"
    and "elapsed (c_trace c1) = elapsed (c_trace c)"
proof -
  obtain k where k: "c_udp c = Some us" "c_data c = Some d" "c_ctrl c = Some k" "cc_init k \<noteq> 0" "cd_closed d = 0"
    using assms(2) by (rule open_connE)
  obtain n where "os_sendto os (c_trace c) (us_socket_fd us) msg_ka = Inr n"
    using assms(1) unfolding idle_def by blast
  with k assms(2) show ?thesis
    by (intro that [of "c\<lparr>c_trace := EvSendto (us_socket_fd us) msg_ka (us_dst us) False
          (Inr (min (length msg_ka) n)) # c_trace c\<rparr>"])
       (simp_all add: chownat_udp_send_ka_def on_trace_eq sys_defs Let_def)
qed

lemma open_conn_reads: "open_conn us d c \<Longrightarrow> open_conn us d (set_read_fds fds c)"
  using chownat_inv_read_fds [of c fds] by (auto simp: open_conn_def set_read_fds_def)

lemma open_watched:
  assumes "open_conn us d c"
  shows "list_all fd_set_ok ((if udp_fd_of c \<noteq> -1 then [udp_fd_of c] else []) @
     (if tcp_fd_of c \<noteq> -1 then [tcp_fd_of c] else []))"
proof -
  have "fds_ok c" using assms by (auto simp: open_conn_def elim: chownat_invE)
  then show ?thesis
    by (auto simp: udp_fd_of_def tcp_fd_of_def fds_ok_def fd_ok_def fd_set_ok_def split: option.splits)
qed

text \<open>The connection after the \<open>select\<close> of an idle iteration.\<close>

definition idle_select :: "('c, 'd, 'a) udp_conn \<Rightarrow> ('c, 'd, 'a) udp_conn" where
  "idle_select c = set_read_fds [] (c\<lparr>c_trace := EvSelect (max (udp_fd_of c) (tcp_fd_of c) + 1)
     ((if udp_fd_of c \<noteq> -1 then [udp_fd_of c] else []) @ (if tcp_fd_of c \<noteq> -1 then [tcp_fd_of c] else []))
     (Some \<lparr>tv_sec = 5, tv_usec = 0\<rparr>) (Inr []) # c_trace c\<rparr>)"

lemma idle_select_simps [simp]:
  "c_tcp (idle_select c) = c_tcp c" "c_config (idle_select c) = c_config c"
  "elapsed (c_trace (idle_select c)) = elapsed (c_trace c) + 5000000"
  "datagrams fd (c_trace (idle_select c)) = datagrams fd (c_trace c)"
  by (simp_all add: idle_select_def set_read_fds_def micros_def)

lemma idle_select_open: "open_conn us d c \<Longrightarrow> open_conn us d (idle_select c)"
  by (simp add: idle_select_def open_conn_reads)

lemma tick_fds: "udp_fd_of (tick c) = udp_fd_of c" "tcp_fd_of (tick c) = tcp_fd_of c"
  by (simp_all add: udp_fd_of_def tcp_fd_of_def tick_def)

lemma idle_select_phase:
  assumes "idle os" and "open_conn us d c" and "ls_next_ka ls = elapsed (c_trace c) + ka_interval_us"
  shows "select_phase os (chownat_api os cb cfuel) fuel ls c =
     on_timeout os (chownat_api os cb cfuel) ls (idle_select (tick c))"
proof -
  obtain k where k: "c_ctrl c = Some k" "cc_init k \<noteq> 0" using assms(2) by (rule open_connE)
  then have timeout: "chownat_get_timeout \<lparr>tv_sec = 0, tv_usec = 0\<rparr> c =
      (Ret (UDP_CONN_OK, \<lparr>tv_sec = 5, tv_usec = 0\<rparr>), c)"
    by (simp add: chownat_get_timeout_def)
  have wait: "wait_time UDP_CONN_OK \<lparr>tv_sec = 5, tv_usec = 0\<rparr>
      (remaining_us (ls_next_ka ls) (elapsed (c_trace c))) = \<lparr>tv_sec = 5, tv_usec = 0\<rparr>"
    by (simp add: wait_time_def remaining_us_def assms(3))
  have select: "\<And>n fds tv tr. sys_select os n fds tv tr = (Inr [], EvSelect n fds tv (Inr []) # tr)"
    using assms(1) by (simp add: sys_defs Let_def idle_def)
  show ?thesis
    using open_watched [OF assms(2)]
    by (simp add: select_phase_def Let_def timeout idle_with_clock [OF assms(1)] wait on_trace_eq select
        idle_select_def tick_fds del: list_all_append)
qed

text \<open>One idle iteration sends one keep-alive and counts it as missed.\<close>

lemma idle_iteration:
  assumes "idle os" and "open_conn us d c" and "ls_next_ka ls = elapsed (c_trace c) + ka_interval_us"
  obtains c1 where "open_conn us d c1" and "c_tcp c1 = c_tcp c" and "c_config c1 = c_config c"
    and "conn_iter os (chownat_api os cb cfuel) (Suc fuel) ls c =
       count_missed (chownat_api os cb cfuel) (ls\<lparr>ls_next_ka := elapsed (c_trace c1) + ka_interval_us\<rparr>) c1"
    and "datagrams (us_socket_fd us) (c_trace c1) = msg_ka # datagrams (us_socket_fd us) (c_trace c)"
proof -
  let ?api = "chownat_api os cb cfuel" and ?c3 = "tick (idle_select (tick c))"
  have open3: "open_conn us d ?c3" using assms(2) by (simp add: idle_select_open)
  obtain c4 where c4: "chownat_udp_send_ka os ?c3 = (Ret UDP_CONN_OK, c4)" "open_conn us d c4"
    "c_tcp c4 = c_tcp ?c3" "c_config c4 = c_config ?c3"
    "datagrams (us_socket_fd us) (c_trace c4) = msg_ka # datagrams (us_socket_fd us) (c_trace ?c3)"
    "elapsed (c_trace c4) = elapsed (c_trace ?c3)"
    by (rule idle_send_ka [OF assms(1) open3])
  have "on_timeout os ?api ls (idle_select (tick c)) =
      count_missed ?api (ls\<lparr>ls_next_ka := elapsed (c_trace c4) + ka_interval_us\<rparr>) (tick c4)"
    using open_not_closed(2) [OF c4(2), of os cb cfuel] assms(2,3) c4(1,6)
      open_not_closed(2) [OF idle_select_open, of us d "tick c" os cb cfuel]
    by (simp add: on_timeout_def idle_with_clock [OF assms(1)])
  then have "conn_iter os ?api (Suc fuel) ls c =
      count_missed ?api (ls\<lparr>ls_next_ka := elapsed (c_trace (tick c4)) + ka_interval_us\<rparr>) (tick c4)"
    using open_not_closed(2) [OF assms(2), of os cb cfuel]
    by (simp add: conn_iter_def idle_select_phase [OF assms])
  with c4 show ?thesis by (intro that [of "tick c4"]) simp_all
qed

lemma open_live:
  assumes "open_conn us d c"
  obtains cfg k where "live_conn cfg us d k c" and "c_config c = Some cfg"
  using assms by (auto simp: open_conn_def live_conn_def has_parts_def elim!: chownat_invE)

text \<open>The last \<open>02\<close> and \<open>03\<close> messages of an active disconnect, newest first.\<close>

definition farewell :: "byte list list \<Rightarrow> bool" where
  "farewell gs \<longleftrightarrow> (\<exists>n. gs = replicate n msg02 \<or> gs = msg03 # replicate n msg02)"

lemma count_missed_limit:
  assumes "open_conn us d c" and "ls_threshold ls = us_ka_miss_threshold us"
  shows "\<exists>ls' c' gs. count_missed (chownat_api os cb cfuel) ls c = (Ret (Continue, ls'), c') \<and>
     chownat_is_closed c' = UDP_CONN_CLOSED \<and> farewell gs \<and>
     datagrams (us_socket_fd us) (c_trace c') = gs @ datagrams (us_socket_fd us) (c_trace c)"
proof -
  obtain cfg k where live: "live_conn cfg us d k c" using assms(1) by (rule open_live)
  obtain c' n where "chownat_disconnect_send os c = (Ret UDP_CONN_OK, c')"
    "chownat_is_closed c' = UDP_CONN_CLOSED"
    "datagrams (us_socket_fd us) (c_trace c') = replicate n msg02 @ datagrams (us_socket_fd us) (c_trace c) \<or>
     datagrams (us_socket_fd us) (c_trace c') = msg03 # replicate n msg02 @ datagrams (us_socket_fd us) (c_trace c)"
    using disconnect_closes [OF live, of os] by blast
  moreover have "c_udp c = Some us" using assms(1) by (simp add: open_conn_def)
  ultimately show ?thesis using assms(2)
    by (auto simp: count_missed_def Let_def farewell_def)
qed

lemma silent_loop:
  assumes "idle os"
  shows "open_conn us d c \<Longrightarrow> ls_next_ka ls = elapsed (c_trace c) + ka_interval_us \<Longrightarrow>
     ls_threshold ls + int n = us_ka_miss_threshold us \<Longrightarrow> Suc n < fuel \<Longrightarrow>
     \<exists>c' gs. conn_loop os (chownat_api os cb cfuel) fuel ls c = (Ret UDP_CONN_OK, c') \<and>
       chownat_is_closed c' = UDP_CONN_CLOSED \<and> farewell gs \<and>
       datagrams (us_socket_fd us) (c_trace c') =
         gs @ replicate (Suc n) msg_ka @ datagrams (us_socket_fd us) (c_trace c)"
proof (induction n arbitrary: c ls fuel)
  case 0
  obtain f where f: "fuel = Suc (Suc f)" using less_imp_Suc_add [OF 0(4)] by auto
  obtain c1 where c1: "open_conn us d c1"
    "conn_iter os (chownat_api os cb cfuel) (Suc f) ls c =
       count_missed (chownat_api os cb cfuel) (ls\<lparr>ls_next_ka := elapsed (c_trace c1) + ka_interval_us\<rparr>) c1"
    "datagrams (us_socket_fd us) (c_trace c1) = msg_ka # datagrams (us_socket_fd us) (c_trace c)"
    by (rule idle_iteration [OF assms 0(1,2)])
  obtain ls' c' gs where "count_missed (chownat_api os cb cfuel)
      (ls\<lparr>ls_next_ka := elapsed (c_trace c1) + ka_interval_us\<rparr>) c1 = (Ret (Continue, ls'), c')"
    "chownat_is_closed c' = UDP_CONN_CLOSED" "farewell gs"
    "datagrams (us_socket_fd us) (c_trace c') = gs @ datagrams (us_socket_fd us) (c_trace c1)"
    using count_missed_limit [OF c1(1), of "ls\<lparr>ls_next_ka := elapsed (c_trace c1) + ka_interval_us\<rparr>" os cb cfuel] 0(3) by auto
  then show ?case
    using open_not_closed(2) [OF 0(1), of os cb cfuel] c1(2,3) f by (auto simp: closed_def)
next
  case (Suc n)
  obtain f where f: "fuel = Suc (Suc f)" "Suc n < Suc f" using less_imp_Suc_add [OF Suc.prems(4)] by auto
  obtain c1 where c1: "open_conn us d c1"
    "conn_iter os (chownat_api os cb cfuel) (Suc f) ls c =
       count_missed (chownat_api os cb cfuel) (ls\<lparr>ls_next_ka := elapsed (c_trace c1) + ka_interval_us\<rparr>) c1"
    "datagrams (us_socket_fd us) (c_trace c1) = msg_ka # datagrams (us_socket_fd us) (c_trace c)"
    by (rule idle_iteration [OF assms Suc.prems(1,2)])
  let ?ls = "ls\<lparr>ls_next_ka := elapsed (c_trace c1) + ka_interval_us, ls_threshold := ls_threshold ls + 1\<rparr>"
  have "count_missed (chownat_api os cb cfuel) (ls\<lparr>ls_next_ka := elapsed (c_trace c1) + ka_interval_us\<rparr>) c1 =
      (Ret (Continue, ?ls), c1)"
    using c1(1) Suc.prems(3) by (auto simp: count_missed_def Let_def open_conn_def)
  then have "conn_loop os (chownat_api os cb cfuel) fuel ls c = conn_loop os (chownat_api os cb cfuel) (Suc f) ?ls c1"
    using open_not_closed(2) [OF Suc.prems(1), of os cb cfuel] c1(2) f(1) by simp
  with Suc.IH [OF c1(1), of ?ls "Suc f"] Suc.prems(3) f(2) c1(3) show ?case
    by (auto simp: replicate_append_same replicate_app_Cons_same)
qed

text \<open>
  C13. A peer that falls silent does not keep the connection: in an idle environment the loop sends a
  keep-alive every five seconds, disconnects at the one after the session's threshold, and returns
  successfully with the connection closed; threshold plus two rounds of fuel are enough.
\<close>

theorem silent_peer_disconnected:
  assumes "idle os" and "open_conn us d c" and "0 \<le> us_ka_miss_threshold us"
    and "nat (us_ka_miss_threshold us) + 2 \<le> fuel"
  shows "\<exists>c' gs. start_loop os (chownat_api os cb cfuel) fuel buf c = (Ret UDP_CONN_OK, c') \<and>
     chownat_is_closed c' = UDP_CONN_CLOSED \<and> farewell gs \<and>
     datagrams (us_socket_fd us) (c_trace c') =
       gs @ replicate (nat (us_ka_miss_threshold us) + 1) msg_ka @ datagrams (us_socket_fd us) (c_trace c)"
proof -
  let ?ls = "\<lparr>ls_threshold = 0, ls_next_ka = elapsed (c_trace c) + ka_interval_us, ls_buf = buf\<rparr>"
  have "start_loop os (chownat_api os cb cfuel) fuel buf c =
      conn_loop os (chownat_api os cb cfuel) fuel ?ls (tick c)"
    by (simp add: start_loop_def idle_clock [OF assms(1)])
  with silent_loop [OF assms(1), of us d "tick c" ?ls "nat (us_ka_miss_threshold us)" fuel cb cfuel] assms(2-4)
  show ?thesis by simp
qed

definition idle_os :: os where
  "idle_os = quiet_os\<lparr>os_clock := (\<lambda>tr. Some (elapsed tr div 1000000, elapsed tr mod 1000000 * 1000))\<rparr>"

lemma idle_os: "idle idle_os"
  by (simp add: idle_def idle_os_def)

theorem silent_peer_disconnected_witness:
  "\<exists>c' gs. start_loop idle_os (chownat_api idle_os (udp_conn_calback quiet_os 9 (Suc 0)) 9) 22
       (replicate 1024 0) (tunnel_conn CHR ''c'' fresh_data) = (Ret UDP_CONN_OK, c') \<and> farewell gs \<and>
     datagrams 3 (c_trace c') = gs @ replicate 21 msg_ka"
  using silent_peer_disconnected [OF idle_os demo_client, where fuel = 22 and cfuel = 9
      and cb = "udp_conn_calback quiet_os 9 (Suc 0)" and buf = "replicate 1024 0"]
  by (auto simp: test_session_def)

section \<open>The end of a connection\<close>

text \<open>
  C20. \<open>udp_connection\<close> returns \<open>UDP_CONN_OK\<close> only when the backend reports the session closed,
  whatever the backend is.
\<close>

theorem connection_ok_means_closed:
  assumes "udp_connection os api e fuel buf c = (Ret UDP_CONN_OK, c')"
  shows "api_is_closed api c' \<noteq> UDP_CONN_OK"
  using connection_ok [OF assms] by (simp add: closed_def)

definition one_try :: "udp_test_app chownat_conn" where
  "one_try = (tunnel_conn CHR ''c'' (closed_data fresh_data))
     \<lparr>c_config := Some (demo_config\<lparr>cf_conn_max_attempts := 1\<rparr>)\<rparr>"

theorem connection_ok_means_closed_witness:
  "\<exists>c'. udp_connection (script_os [Inr msg03]) (chownat_api (script_os [Inr msg03])
       (udp_conn_calback quiet_os 9 (Suc 0)) 9) 0 9 (replicate 1024 0) one_try = (Ret UDP_CONN_OK, c') \<and>
     chownat_is_closed c' \<noteq> UDP_CONN_OK"
proof -
  let ?run = "udp_connection (script_os [Inr msg03]) (chownat_api (script_os [Inr msg03])
      (udp_conn_calback quiet_os 9 (Suc 0)) 9) 0 9 (replicate 1024 0) one_try"
  have "fst ?run = Ret UDP_CONN_OK"
    by (simp add: udp_connection_def one_try_def tunnel_conn_def test_conn_def setup_step_def tcp_bind_def
        tcp_bind_client_def on_trace_eq sys_defs Let_def script_os_def script_recv_def chownat_hole_punching_def
        recv3_def msg_defs overwrite_def numeral_3_eq_3 chownat_connect_def run_callback_def calback_body_def
        start_loop_def monotonic_us_def closed_def chownat_is_closed_def closed_data_def numeral_eq_Suc
        demo_config_def)
  then have "?run = (Ret UDP_CONN_OK, snd ?run)" by (metis prod.collapse)
  from connection_ok_means_closed [OF this] this show ?thesis by auto
qed

lemma client_unanswered:
  assumes "\<And>tr fd dw. \<exists>e. os_recv os tr fd dw = Inl e"
  shows "\<exists>tr'. hole_punching_client os fd dst n tr = (UDP_CONN_ERR, tr') \<and>
     datagrams fd tr' = replicate n msg01 @ datagrams fd tr"
proof (induction n arbitrary: tr)
  case (Suc n)
  obtain r1 tr1 where s: "sys_sendto os fd msg01 dst False tr = (r1, tr1)" by fastforce
  obtain e where "os_recv os tr1 fd False = Inl e" using assms by blast
  then have v: "recv3 os fd buf tr1 = (None, EvRecv fd 3 False (Inl e) # tr1)" for buf
    by (simp add: recv3_def sys_defs Let_def)
  from Suc [of "EvRecv fd 3 False (Inl e) # tr1"] s v sendto_frame(3) [OF s] show ?case
    by (auto simp: replicate_append_same replicate_app_Cons_same)
qed simp

text \<open>
  A client whose peer never answers gives up: \<open>udp_connection\<close> returns the hole-punching error
  after exactly the configured number of \<open>01\<close> messages and has changed nothing but the trace.
\<close>

theorem unreachable_peer_reported:
  assumes "has_parts cfg us d k c" and "cc_init k \<noteq> 0" and "cc_mode k = CHR ''c''" and "c_tcp c = None"
    and "\<forall>tr fd dw. \<exists>e. os_recv os tr fd dw = Inl e"
  shows "\<exists>tr. udp_connection os (chownat_api os cb cfuel) e fuel buf c =
       (Ret UDP_CONN_TCP_HP_ERROR, c\<lparr>c_trace := tr\<rparr>) \<and>
     datagrams (us_socket_fd us) tr =
       replicate (nat (cf_conn_max_attempts cfg)) msg01 @ datagrams (us_socket_fd us) (c_trace c)"
proof -
  obtain tr where "hole_punching_client os (us_socket_fd us) (us_dst us) (nat (cf_conn_max_attempts cfg))
      (c_trace c) = (UDP_CONN_ERR, tr)"
    "datagrams (us_socket_fd us) tr =
      replicate (nat (cf_conn_max_attempts cfg)) msg01 @ datagrams (us_socket_fd us) (c_trace c)"
    using client_unanswered [of os "us_socket_fd us" "us_dst us"] assms(5) by blast
  with assms(1-4) show ?thesis
    by (intro exI [where x = tr]) (simp add: udp_connection_def setup_step_def tcp_bind_def chownat_hole_punching_def has_parts_def
        on_trace_eq)
qed

theorem unreachable_peer_reported_witness:
  "\<exists>c'. udp_connection quiet_os (chownat_api quiet_os (udp_conn_calback quiet_os 9 2) 9) 0 9
       (replicate 1024 0) ((tunnel_conn CHR ''c'' fresh_data)\<lparr>c_tcp := None\<rparr>) =
     (Ret UDP_CONN_TCP_HP_ERROR, c') \<and> datagrams 3 (c_trace c') = replicate 20 msg01"
proof -
  have "has_parts demo_config test_session fresh_data (demo_ctrl CHR ''c'')
      ((tunnel_conn CHR ''c'' fresh_data)\<lparr>c_tcp := None\<rparr>)"
    using demo_parts [of fresh_data "CHR ''c''"] by (simp add: has_parts_def)
  from unreachable_peer_reported [OF this, where os = quiet_os and cfuel = 9 and fuel = 9 and e = 0
      and cb = "udp_conn_calback quiet_os 9 2" and buf = "replicate 1024 0"]
  show ?thesis by auto
qed

end
