(* ===== verification/Tunnel_Streams.thy ===== *)
theory Tunnel_Streams
  imports Conn_Spec
begin

text \<open>
  The two streams of a tunnel as its trace shows them: the blocks it read from its TCP peer and the
  bytes it wrote to it.
\<close>

section \<open>What a trace read and wrote\<close>

text \<open>
  The blocks \<open>tcp_recv\<close> read and the bytes \<open>tcp_send\<close> wrote.  The size of the buffer tells the reads of
  the tunnel from the other calls of \<open>recv\<close>.
\<close>

fun tcp_reads :: "trace \<Rightarrow> byte list list" where
  "tcp_reads [] = []"
| "tcp_reads (EvRecv f cap dw (Inr (bs, longer)) # tr) =
     (if cap = 1024 \<and> bs \<noteq> [] then tcp_reads tr @ [bs] else tcp_reads tr)"
| "tcp_reads (_ # tr) = tcp_reads tr"

fun tcp_writes :: "trace \<Rightarrow> byte list" where
  "tcp_writes [] = []"
| "tcp_writes (EvSend f bs (Inr n) # tr) = tcp_writes tr @ take n bs"
| "tcp_writes (_ # tr) = tcp_writes tr"

section \<open>Writing to the tunnel\<close>

lemma written_writes:
  assumes "trace_ext (\<lambda>e. \<exists>bs r. e = EvSend fd bs r) tr t"
  shows "\<exists>x. tcp_writes t = tcp_writes tr @ x \<and> written fd t = written fd tr @ x"
  using assms
proof (induction rule: trace_ext_induct)
  case (step e t)
  then obtain bs r where "e = EvSend fd bs r" by blast
  with step show ?case by (cases r) auto
qed simp

lemma tcp_send_loop_sends:
  "trace_ext (\<lambda>e. \<exists>bs r. e = EvSend fd bs r) tr t \<Longrightarrow>
     trace_ext (\<lambda>e. \<exists>bs r. e = EvSend fd bs r) tr (snd (tcp_send_loop os fd fuel bs t))"
proof (induction os fd fuel bs t rule: tcp_send_loop.induct)
  case (3 os fd fuel b bs t)
  obtain s t1 where s: "sys_send os fd (b # bs) t = (s, t1)" by fastforce
  then have "trace_ext (\<lambda>e. \<exists>bs r. e = EvSend fd bs r) tr t1"
    using "3.prems" by (auto simp: sys_defs Let_def)
  with 3 s show ?case by (cases s) auto
qed simp_all

lemma tcp_send_loop_writes:
  assumes "tcp_send_loop os fd fuel bs tr = (r, t)"
  shows "\<exists>k. tcp_writes t = tcp_writes tr @ take k bs \<and> (r = Ret UDP_CONN_OK \<longrightarrow> length bs \<le> k) \<and>
     r \<noteq> Fault \<and> (\<forall>st. r = Ret st \<longrightarrow> st = UDP_CONN_OK \<or> st = UDP_CONN_ERR)"
proof -
  have "trace_ext (\<lambda>e. \<exists>bs r. e = EvSend fd bs r) tr t"
    using tcp_send_loop_sends [of fd tr tr os fuel bs] assms by simp
  then obtain x where "tcp_writes t = tcp_writes tr @ x" "written fd t = written fd tr @ x"
    using written_writes by blast
  then show ?thesis using tcp_send_loop_written [OF assms] by auto
qed

end
