(* ===== verification/Chownat_Trace.thy ===== *)
theory Chownat_Trace
  imports Chownat_Delivery Chownat_Close Chownat_Session Tunnel_Streams
begin

text \<open>
  The streams of a CHOWNAT tunnel, read off its trace: the messages behind the datagrams it sent, the
  datagrams it heard, the blocks it read from its TCP peer and the bytes it wrote to it; and the
  operations that leave all four alone.
\<close>

section \<open>What a trace sent, heard, read and wrote\<close>

text \<open>
  The messages behind the datagrams (newest first) of a sender: every packet that carries the next
  number is a new message.  A retransmission carries an older number.
\<close>

fun messages :: "byte list list \<Rightarrow> byte list list" where
  "messages [] = []"
| "messages (g # gs) =
     (let ms = messages gs
      in case parse g of Data i p \<Rightarrow> (if i = of_nat (length ms) then ms @ [p] else ms) | _ \<Rightarrow> ms)"

text \<open>
  The datagrams \<open>chownat_udp_recv\<close> got, newest first, and whether one of them asked for a
  retransmission.  The size of the buffer tells the calls of \<open>recv\<close> apart.
\<close>

fun heard :: "int \<Rightarrow> trace \<Rightarrow> byte list list" where
  "heard fd [] = []"
| "heard fd (EvRecv f cap dw (Inr (g, longer)) # tr) =
     (if f = fd \<and> cap = 1027 then g # heard fd tr else heard fd tr)"
| "heard fd (_ # tr) = heard fd tr"

definition asked :: "int \<Rightarrow> trace \<Rightarrow> bool" where
  "asked fd tr \<longleftrightarrow> list_ex (\<lambda>g. case parse g of Request i \<Rightarrow> True | _ \<Rightarrow> False) (heard fd tr)"

text \<open>
  How a message may arrive: complete, or without its last three bytes once a retransmission was asked
  for.
\<close>

definition arrives_as :: "bool \<Rightarrow> byte list \<Rightarrow> byte list \<Rightarrow> bool" where
  "arrives_as trims m p \<longleftrightarrow> p = m \<or> trims \<and> 3 \<le> length m \<and> p = take (length m - 3) m"

text \<open>
  The datagrams of a sender with the message each packet belongs to: its number, counted from the last
  wrap.  \<open>made_of\<close> says that a packet carries its message.
\<close>

fun origins :: "byte list list \<Rightarrow> (nat \<times> byte list) list" where
  "origins [] = []"
| "origins (g # gs) =
     (let n = length (messages gs)
      in (case parse g of Data i p \<Rightarrow> first_resent n i | _ \<Rightarrow> n, g) # origins gs)"

fun made_of :: "bool \<Rightarrow> byte list list \<Rightarrow> nat \<times> byte list \<Rightarrow> bool" where
  "made_of trims ms (k, g) =
     (case parse g of Data i p \<Rightarrow> k < length ms \<and> i = of_nat k \<and> arrives_as trims (ms ! k) p | _ \<Rightarrow> True)"

lemma origins_datagrams: "map snd (origins gs) = gs"
  by (induction gs) (simp_all add: Let_def)

text \<open>
  What holds of every datagram heard, given the number of messages delivered before it.
\<close>

fun heard_all :: "(nat \<Rightarrow> byte list \<Rightarrow> bool) \<Rightarrow> int \<Rightarrow> trace \<Rightarrow> bool" where
  "heard_all P fd [] = True"
| "heard_all P fd (EvRecv f cap dw (Inr (g, longer)) # tr) =
     ((f = fd \<longrightarrow> cap = 1027 \<longrightarrow> P (length (delivered tr)) g) \<and> heard_all P fd tr)"
| "heard_all P fd (_ # tr) = heard_all P fd tr"

lemma heard_all_mono:
  assumes "heard_all P fd tr" and "\<And>n g. g \<in> set (heard fd tr) \<Longrightarrow> P n g \<Longrightarrow> Q n g"
  shows "heard_all Q fd tr"
  using assms by (induction P fd tr rule: heard_all.induct) (auto split: if_splits)

lemma heard_all_True: "heard_all (\<lambda>n g. True) fd tr"
  by (induction fd tr rule: heard.induct) (simp_all, blast)

text \<open>
  A packet belongs to a message that is less than a round of 256 numbers away from the one expected;
  \<open>on_time\<close> says so of the datagrams of a sender.
\<close>

definition in_round :: "bool \<Rightarrow> byte list list \<Rightarrow> nat \<Rightarrow> byte list \<Rightarrow> bool" where
  "in_round trims ms n g \<longleftrightarrow>
     (case parse g of
        Data i p \<Rightarrow> \<exists>k < length ms. i = of_nat k \<and> arrives_as trims (ms ! k) p \<and>
          k < n + 256 \<and> min n (length ms) < k + 256
      | _ \<Rightarrow> True)"

definition on_time :: "byte list list \<Rightarrow> nat \<Rightarrow> byte list \<Rightarrow> bool" where
  "on_time gs n g \<longleftrightarrow>
     (case parse g of
        Data i p \<Rightarrow> list_ex (\<lambda>(k, h). g = take 1027 h \<and> k < n + 256 \<and> n < k + 256) (origins gs)
      | _ \<Rightarrow> True)"

section \<open>Events that leave the streams alone\<close>

fun inner_event :: "event \<Rightarrow> bool" where
  "inner_event (EvRecv f cap dw r) = (cap \<noteq> 1024 \<and> cap \<noteq> 1027)"
| "inner_event (EvSend f bs r) = False"
| "inner_event _ = True"

fun quiet_event :: "event \<Rightarrow> bool" where
  "quiet_event (EvSendto f g a dw r) = (g \<in> {msg01, msg02, msg03, msg_ka})"
| "quiet_event (EvCallback reason bs) = (reason \<noteq> CHOWNAT_UDP_RECV_DATA)"
| "quiet_event e = inner_event e"

lemma inner_ext:
  assumes "trace_ext inner_event tr t"
  shows "heard fd t = heard fd tr" and "tcp_reads t = tcp_reads tr" and "tcp_writes t = tcp_writes tr"
    and "heard_all (in_round trims ms) fd t = heard_all (in_round trims ms) fd tr" and "asked fd t = asked fd tr"
proof -
  have "heard fd t = heard fd tr \<and> tcp_reads t = tcp_reads tr \<and> tcp_writes t = tcp_writes tr \<and>
     heard_all (in_round trims ms) fd t = heard_all (in_round trims ms) fd tr"
    using assms
  proof (induction rule: trace_ext_induct)
    case (step e t)
    then show ?case
    proof (cases e)
      case (EvRecv f cap dw r)
      with step show ?thesis by (cases r) auto
    qed auto
  qed simp
  then show "heard fd t = heard fd tr" "tcp_reads t = tcp_reads tr" "tcp_writes t = tcp_writes tr"
    "heard_all (in_round trims ms) fd t = heard_all (in_round trims ms) fd tr" "asked fd t = asked fd tr"
    by (simp_all add: asked_def)
qed

lemma quiet_inner: "quiet_event e \<Longrightarrow> inner_event e"
  by (cases e) auto

lemma parse_control:
  "parse msg01 = Unknown" "parse msg02 = Bye" "parse msg03 = Handshake" "parse msg_ka = Keepalive"
  using parse_print [of Unknown] parse_print [of Bye] parse_print [of Handshake] parse_print [of Keepalive]
  by simp_all

lemma quiet_ext:
  assumes "trace_ext quiet_event tr t"
  shows "delivered t = delivered tr" and "messages (datagrams fd t) = messages (datagrams fd tr)"
    and "(\<forall>x \<in> set (origins (datagrams fd t)). made_of trims ms x) =
      (\<forall>x \<in> set (origins (datagrams fd tr)). made_of trims ms x)"
proof -
  have "delivered t = delivered tr \<and> messages (datagrams fd t) = messages (datagrams fd tr) \<and>
     (\<forall>x \<in> set (origins (datagrams fd t)). made_of trims ms x) =
      (\<forall>x \<in> set (origins (datagrams fd tr)). made_of trims ms x)"
    using assms
  proof (induction rule: trace_ext_induct)
    case (step e t)
    then show ?case
      by (cases e) (auto simp: parse_control Let_def)
  qed simp
  then show "delivered t = delivered tr" "messages (datagrams fd t) = messages (datagrams fd tr)"
    "(\<forall>x \<in> set (origins (datagrams fd t)). made_of trims ms x) =
      (\<forall>x \<in> set (origins (datagrams fd tr)). made_of trims ms x)"
    by simp_all
qed

lemma quiet_calls [simp]:
  assumes "trace_ext quiet_event tr t"
  shows "trace_ext quiet_event tr (snd (sys_setsockopt os fd opt t))" "trace_ext quiet_event tr (snd (sys_bind os fd a t))"
    "trace_ext quiet_event tr (snd (sys_listen os fd n t))" "trace_ext quiet_event tr (snd (sys_accept os fd t))"
    "trace_ext quiet_event tr (snd (sys_connect os fd a t))" "trace_ext quiet_event tr (snd (sys_close os fd t))"
    "g \<in> {msg01, msg02, msg03, msg_ka} \<Longrightarrow> trace_ext quiet_event tr (snd (sys_sendto os fd g a dw t))"
    "trace_ext quiet_event tr (snd (recv3 os fd buf t))"
  using assms by (simp_all add: recv3_def sys_defs Let_def split: sum.split)

lemma client_quiet: "trace_ext quiet_event tr t \<Longrightarrow> trace_ext quiet_event tr (snd (hole_punching_client os fd dst n t))"
  by (induction n arbitrary: t) (auto simp: Let_def case_prod_beta split: option.split)

lemma confirm_quiet:
  "trace_ext quiet_event tr t \<Longrightarrow> trace_ext quiet_event tr (snd (hole_punching_confirm os fd dst fuel n buf t))"
proof (induction fuel arbitrary: n buf t)
  case 0
  then show ?case by (cases n) auto
next
  case (Suc fuel)
  then show ?case by (cases n) (auto simp: Let_def case_prod_beta split: option.split)
qed

lemma send_loop_quiet:
  "trace_ext quiet_event tr t \<Longrightarrow> trace_ext quiet_event tr (disconnect_send_loop os fd dst n buf t)"
  by (induction n arbitrary: buf t) (auto simp: Let_def case_prod_beta split: option.split)

lemma recv_loop_quiet:
  "trace_ext quiet_event tr t \<Longrightarrow> trace_ext quiet_event tr (snd (disconnect_recv_loop os fd dst fuel n buf t))"
proof (induction fuel arbitrary: n buf t)
  case 0
  then show ?case by (cases n) auto
next
  case (Suc fuel)
  then show ?case by (cases n) (auto simp: Let_def case_prod_beta split: option.split)
qed

text \<open>
  A step that leaves the streams alone: the trace grows by quiet events, and the connection keeps its
  parts and its data, or is closed.
\<close>

definition quiet_step :: "'a chownat_conn \<Rightarrow> 'a chownat_conn \<Rightarrow> bool" where
  "quiet_step c c' \<longleftrightarrow> trace_ext quiet_event (c_trace c) (c_trace c') \<and> c_udp c' = c_udp c \<and>
     (c_tcp c' = None \<longleftrightarrow> c_tcp c = None) \<and> map_option cc_init (c_ctrl c') = map_option cc_init (c_ctrl c) \<and>
     (c_data c' = c_data c \<or> (\<exists>d. c_data c' = Some d \<and> cd_closed d \<noteq> 0))"

lemma quiet_step_refl [simp]: "quiet_step c c"
  by (simp add: quiet_step_def)

lemma quiet_step_trans: "quiet_step a b \<Longrightarrow> quiet_step b c \<Longrightarrow> quiet_step a c"
  by (auto simp: quiet_step_def intro: trace_ext_trans)

lemma quiet_step_trace [simp]:
  "quiet_step c (c\<lparr>c_trace := t\<rparr>) \<longleftrightarrow> trace_ext quiet_event (c_trace c) t"
  "quiet_step c (c\<lparr>c_trace := t, c_tcp := Some ts\<rparr>) \<longleftrightarrow> trace_ext quiet_event (c_trace c) t \<and> c_tcp c \<noteq> None"
  by (auto simp: quiet_step_def)

lemma quiet_chain:
  assumes "quiet_step c (snd r)" and "\<And>a s. r = (Ret a, s) \<Longrightarrow> quiet_step s (snd (k a s))"
  shows "quiet_step c (snd (chain r k))"
  using assms by (cases "(r, k)" rule: chain.cases) (auto intro: quiet_step_trans)

lemma ka_quiet: "quiet_step c (snd (chownat_udp_send_ka os c))"
  by (auto simp: chownat_udp_send_ka_def on_trace_eq split: option.split sum.split)

lemma server_quiet: "quiet_step c (snd (hole_punching_server os fd dst fuel m n buf c))"
proof (induction fuel arbitrary: n buf c)
  case 0
  then show ?case by (cases n) auto
next
  case (Suc fuel)
  have next_quiet: "quiet_step c (snd (hole_punching_server os fd dst fuel m n buf c'))" if "quiet_step c c'" for n buf c'
    using that Suc by (rule quiet_step_trans)
  show ?case
  proof (cases n)
    case (Suc j)
    let ?t = "snd (recv3 os fd buf (c_trace c))"
    have "quiet_step c (snd (chain (chownat_udp_send_ka os (c\<lparr>c_trace := ?t\<rparr>))
        (\<lambda>_. hole_punching_server os fd dst fuel m j buf)))"
      by (rule quiet_chain [OF quiet_step_trans [OF _ ka_quiet]]) (simp_all add: Suc.IH)
    moreover have "quiet_step c (snd (chain (on_trace (hole_punching_confirm os fd dst fuel m b) (c\<lparr>c_trace := ?t\<rparr>))
        (\<lambda>(res, b') c2. case res of Some st \<Rightarrow> (Ret st, c2)
           | None \<Rightarrow> hole_punching_server os fd dst fuel m (Suc j) b' c2)))" for b
      by (rule quiet_chain) (auto simp: on_trace_eq confirm_quiet Suc.IH split: option.split)
    ultimately show ?thesis using Suc
      by (auto simp: on_trace_eq case_prod_beta next_quiet split: option.split)
  qed simp
qed

lemma hole_punching_quiet: "quiet_step c (snd (chownat_hole_punching os fuel c))"
  by (auto simp: chownat_hole_punching_def on_trace_eq client_quiet server_quiet Let_def split: option.split)

lemma close_tcp_quiet:
  "quiet_step c (close_tcp_guarded os c)" "quiet_step c (close_tcp_always os c)"
  by (auto simp: close_tcp_guarded_def close_tcp_always_def quiet_step_def on_trace_eq Let_def
      split: option.split)

lemma finish_quiet: "quiet_step c c' \<Longrightarrow> quiet_step c (finish_disconnect d c')"
  by (auto simp: quiet_step_def finish_disconnect_def set_data_def)

lemma disconnect_send_quiet: "quiet_step c (snd (chownat_disconnect_send os c))"
  by (auto simp: chownat_disconnect_send_def Let_def send_loop_quiet split: option.split
      intro!: finish_quiet quiet_step_trans [OF _ close_tcp_quiet(1)])

lemma disconnect_recv_quiet: "quiet_step c (snd (chownat_disconnect_recv os fuel c))"
  by (auto simp: chownat_disconnect_recv_def on_trace_eq recv_loop_quiet split: option.split
      intro!: quiet_chain finish_quiet close_tcp_quiet(2))

lemma tcp_bind_quiet: "quiet_step c (snd (tcp_bind os e c))"
  by (auto simp: tcp_bind_def tcp_bind_client_def tcp_bind_server_def tcp_bind_close_def on_trace_eq Let_def
      split: option.split sum.split)

lemma timeout_quiet: "quiet_step c (snd (chownat_get_timeout tv c))"
  by (auto simp: chownat_get_timeout_def split: option.split)

end
