(* ===== verification/Chownat_Link.thy ===== *)
theory Chownat_Link
  imports Chownat_Trace
begin

text \<open>
  One end of a CHOWNAT tunnel: the invariant that ties what it sent to what it read from its TCP peer and
  what it wrote to what it was sent, kept by every step of the main loop; the contract of the loop
  (locale \<open>connection_loop\<close>) carries it through a run of \<open>udp_connection\<close>.
\<close>

section \<open>The invariant of a tunnel\<close>

text \<open>
  The sender: its store holds the messages it numbered, and every datagram it sent is one of them, one
  of them cut, or no data packet.  The receiver: what it delivered are the first messages \<open>ms\<close> of the
  peer, and the number it expects counts them, if the datagrams came in time.
\<close>

definition sender_ok :: "int \<Rightarrow> trace \<Rightarrow> chownat_data \<Rightarrow> bool" where
  "sender_ok fd tr d \<longleftrightarrow> (let ms = messages (datagrams fd tr) in
     (cd_closed d = 0 \<longrightarrow> stored ms d) \<and> (\<forall>m \<in> set ms. length m \<le> TCP_MTU_SIZE) \<and>
     (\<forall>x \<in> set (origins (datagrams fd tr)). made_of (asked fd tr) ms x))"

definition receiver_ok :: "bool \<Rightarrow> byte list list \<Rightarrow> int \<Rightarrow> trace \<Rightarrow> chownat_data \<Rightarrow> bool" where
  "receiver_ok trims ms fd tr d \<longleftrightarrow> (heard_all (in_round trims ms) fd tr \<longrightarrow> (let n = length (delivered tr) in
     n \<le> length ms \<and> list_all2 (arrives_as trims) (take n ms) (delivered tr) \<and>
     (cd_closed d = 0 \<longrightarrow> cd_expected d = int (n mod 256))))"

text \<open>
  Between two steps of the loop everything read from the tunnel was sent as a message and everything
  delivered was written to it; inside a step, or after a failed write has closed the session, the bytes
  written are the beginning of those delivered.
\<close>

definition tunnel_weak :: "bool \<Rightarrow> byte list list \<Rightarrow> udp_session \<Rightarrow> 'a chownat_conn \<Rightarrow> bool" where
  "tunnel_weak trims ms us c \<longleftrightarrow> chownat_inv c \<and> c_udp c = Some us \<and> c_tcp c \<noteq> None \<and>
     map_option (\<lambda>k. cc_init k = 0) (c_ctrl c) = Some False \<and>
     sender_ok (us_socket_fd us) (c_trace c) (the (c_data c)) \<and>
     receiver_ok trims ms (us_socket_fd us) (c_trace c) (the (c_data c)) \<and>
     tcp_reads (c_trace c) = messages (datagrams (us_socket_fd us) (c_trace c)) \<and>
     prefix (tcp_writes (c_trace c)) (concat (delivered (c_trace c)))"

definition tunnel_inv :: "bool \<Rightarrow> byte list list \<Rightarrow> udp_session \<Rightarrow> 'a chownat_conn \<Rightarrow> bool" where
  "tunnel_inv trims ms us c \<longleftrightarrow> tunnel_weak trims ms us c \<and>
     (cd_closed (the (c_data c)) = 0 \<longrightarrow> tcp_writes (c_trace c) = concat (delivered (c_trace c)))"

lemma tunnel_open:
  assumes "tunnel_inv trims ms us c" and "cd_closed (the (c_data c)) = 0"
  obtains d where "open_conn us d c" and "c_data c = Some d" and "sender_ok (us_socket_fd us) (c_trace c) d"
    and "receiver_ok trims ms (us_socket_fd us) (c_trace c) d"
    and "tcp_reads (c_trace c) = messages (datagrams (us_socket_fd us) (c_trace c))"
    and "tcp_writes (c_trace c) = concat (delivered (c_trace c))"
  using assms by (auto simp: tunnel_inv_def tunnel_weak_def open_conn_def elim!: chownat_invE)

lemma open_tunnel_weak:
  assumes "open_conn us d c" and "sender_ok (us_socket_fd us) (c_trace c) d"
    and "receiver_ok trims ms (us_socket_fd us) (c_trace c) d"
    and "tcp_reads (c_trace c) = messages (datagrams (us_socket_fd us) (c_trace c))"
    and "prefix (tcp_writes (c_trace c)) (concat (delivered (c_trace c)))"
  shows "tunnel_weak trims ms us c"
  using assms by (auto simp: tunnel_weak_def open_conn_def)

lemma open_tunnel:
  assumes "open_conn us d c" and "sender_ok (us_socket_fd us) (c_trace c) d"
    and "receiver_ok trims ms (us_socket_fd us) (c_trace c) d"
    and "tcp_reads (c_trace c) = messages (datagrams (us_socket_fd us) (c_trace c))"
    and "tcp_writes (c_trace c) = concat (delivered (c_trace c))"
  shows "tunnel_inv trims ms us c"
  using open_tunnel_weak [OF assms(1-4)] assms(5) by (simp add: tunnel_inv_def)

lemma quiet_streams:
  assumes "trace_ext quiet_event tr t"
  shows "sender_ok fd t d = sender_ok fd tr d" and "receiver_ok trims ms fd t d = receiver_ok trims ms fd tr d"
    and "tcp_reads t = tcp_reads tr" and "tcp_writes t = tcp_writes tr" and "delivered t = delivered tr"
    and "messages (datagrams fd t) = messages (datagrams fd tr)"
proof -
  have "trace_ext inner_event tr t" using assms by (rule trace_ext_mono) (rule quiet_inner)
  note same = inner_ext [OF this] quiet_ext [OF assms]
  show "sender_ok fd t d = sender_ok fd tr d" "receiver_ok trims ms fd t d = receiver_ok trims ms fd tr d"
    "tcp_reads t = tcp_reads tr" "tcp_writes t = tcp_writes tr" "delivered t = delivered tr"
    "messages (datagrams fd t) = messages (datagrams fd tr)"
    by (simp_all add: sender_ok_def receiver_ok_def Let_def same)
qed

lemma closed_streams:
  assumes "cd_closed d' \<noteq> 0"
  shows "sender_ok fd tr d \<Longrightarrow> sender_ok fd tr d'" and "receiver_ok trims ms fd tr d \<Longrightarrow> receiver_ok trims ms fd tr d'"
  using assms by (auto simp: sender_ok_def receiver_ok_def Let_def)

lemma closed_streams_update [simp]:
  "sender_ok fd tr d \<Longrightarrow> sender_ok fd tr (d\<lparr>cd_closed := 1\<rparr>)"
  "receiver_ok trims ms fd tr d \<Longrightarrow> receiver_ok trims ms fd tr (d\<lparr>cd_closed := 1\<rparr>)"
  by (simp_all add: closed_streams [where d = d])

lemma quiet_weak:
  assumes "tunnel_weak trims ms us c" and "quiet_step c c'" and "chownat_inv c'"
  shows "tunnel_weak trims ms us c'"
proof -
  from assms(2) have "trace_ext quiet_event (c_trace c) (c_trace c')" by (simp add: quiet_step_def)
  note same = quiet_streams [OF this]
  have "map_option (\<lambda>k. cc_init k = 0) (c_ctrl c') = map_option (\<lambda>k. cc_init k = 0) (c_ctrl c)"
    using assms(2) by (auto simp: quiet_step_def map_option_case split: option.splits)
  moreover have "sender_ok fd tr (the (c_data c')) \<and> receiver_ok trims ms fd tr (the (c_data c'))"
    if "sender_ok fd tr (the (c_data c))" and "receiver_ok trims ms fd tr (the (c_data c))" for fd tr
    using that assms(2) by (auto simp: quiet_step_def intro: closed_streams)
  moreover have "c_udp c' = c_udp c" "c_tcp c' = None \<longleftrightarrow> c_tcp c = None"
    using assms(2) by (simp_all add: quiet_step_def)
  ultimately show ?thesis using assms(1,3) by (simp add: tunnel_weak_def same)
qed

lemma quiet_inv:
  assumes "tunnel_inv trims ms us c" and "quiet_step c c'" and "chownat_inv c'"
  shows "tunnel_inv trims ms us c'"
proof -
  from assms(2) have "trace_ext quiet_event (c_trace c) (c_trace c')" by (simp add: quiet_step_def)
  note same = quiet_streams [OF this]
  have "tunnel_weak trims ms us c'"
    using assms(1) quiet_weak [OF _ assms(2,3)] by (simp add: tunnel_inv_def)
  with assms(1,2) show ?thesis by (auto simp: tunnel_inv_def quiet_step_def same)
qed

lemma quiet_leaves:
  assumes "tunnel_inv trims ms us c" and "quiet_step c (snd r)" and "keeps chownat_inv r"
  shows "leaves (tunnel_inv trims ms us) (tunnel_weak trims ms us) r"
proof (rule keeps_leaves)
  show "keeps (tunnel_inv trims ms us) r"
    using assms(3) quiet_inv [OF assms(1,2)] by (simp add: keeps_def)
qed (simp add: tunnel_inv_def)

section \<open>Sending and retransmitting\<close>

lemma made_of_mono:
  assumes "made_of trims ms x" and "trims \<Longrightarrow> trims'"
  shows "made_of trims' (ms @ ms') x"
  using assms by (cases x) (auto simp: nth_append arrives_as_def split: wire.splits)

lemma parse_packet: "parse (data_packet i p) = Data i p"
  using parse_print [of "Data i p"] by simp

lemma first_resent_number:
  assumes "n - n mod 256 \<le> k" and "k \<le> n"
  shows "first_resent n (of_nat k) = k"
proof -
  have "n div 256 * 256 \<le> k" using assms(1) by (simp add: minus_mod_eq_div_mult)
  then have "n div 256 \<le> k div 256" by (metis div_le_mono div_mult_self_is_m zero_less_numeral)
  moreover have "k div 256 \<le> n div 256" using assms(2) by (rule div_le_mono)
  ultimately have "n - n mod 256 = k - k mod 256" by (simp add: minus_mod_eq_div_mult)
  then show ?thesis by (simp add: first_resent_def unsigned_of_nat take_bit_eq_mod)
qed

lemma send_streams:
  assumes "sender_ok fd tr d" and "chownat_wf d" and "cd_closed d = 0" and "length b \<le> TCP_MTU_SIZE"
    and "datagrams fd t = data_packet (word_of_int (cd_id d)) b # datagrams fd tr" and "asked fd t = asked fd tr"
  shows "sender_ok fd t (sent_data d b)"
    and "messages (datagrams fd t) = messages (datagrams fd tr) @ [b]"
proof -
  let ?ms = "messages (datagrams fd tr)"
  from assms(1,3) have old: "stored ?ms d" "\<forall>m \<in> set ?ms. length m \<le> 1024"
    "\<forall>x \<in> set (origins (datagrams fd tr)). made_of (asked fd tr) ?ms x"
    by (simp_all add: sender_ok_def Let_def)
  then have dg: "datagrams fd t = data_packet (of_nat (length ?ms)) b # datagrams fd tr"
    using assms(5) word_of_stored by simp
  then show ms: "messages (datagrams fd t) = ?ms @ [b]" by (simp add: parse_packet Let_def)
  have "made_of (asked fd tr) (?ms @ [b]) (first_resent (length ?ms) (of_nat (length ?ms)), data_packet (of_nat (length ?ms)) b)"
    using first_resent_number [of "length ?ms" "length ?ms"] by (simp add: parse_packet arrives_as_def)
  then show "sender_ok fd t (sent_data d b)"
    unfolding sender_ok_def Let_def ms assms(6)
    using old assms(4) stored_sent [OF assms(2) _ old(1)] dg
    by (auto simp: parse_packet Let_def simp del: made_of.simps intro: made_of_mono)
qed

lemma resent_not_new:
  assumes "first_resent (length ms) i \<le> k" and "k < length ms"
  shows "(of_nat k :: byte) \<noteq> of_nat (length ms)"
proof -
  have "length ms < k + 256" using assms(1) mod_less_divisor [of 256 "length ms"] by (simp add: first_resent_def)
  then have "k mod 256 \<noteq> length ms mod 256" using mod_256_inj assms(2) by blast
  then show ?thesis by (simp add: word_of_nat_eq_iff take_bit_eq_mod)
qed

lemma resent_messages:
  assumes "ms = messages gs" and "\<forall>k \<in> set ks. first_resent (length ms) i \<le> k \<and> k < length ms"
  shows "messages (map (\<lambda>k. take (length (ms ! k)) (data_packet (of_nat k) (ms ! k))) ks @ gs) = ms"
  using assms(2)
proof (induction ks)
  case (Cons k ks)
  then show ?case using resent_not_new [of ms i k] by (simp add: parse_cut cut_packet_def Let_def)
qed (simp add: assms(1))

lemma resent_made:
  assumes "ms = messages gs" and "\<forall>x \<in> set (origins gs). made_of True ms x"
    and "\<forall>k \<in> set ks. first_resent (length ms) i \<le> k \<and> k < length ms"
  shows "\<forall>x \<in> set (origins (map (\<lambda>k. take (length (ms ! k)) (data_packet (of_nat k) (ms ! k))) ks @ gs)). made_of True ms x"
  using assms(3)
proof (induction ks)
  case (Cons k ks)
  then have "length ms - length ms mod 256 + unat i \<le> k" "k \<le> length ms" by (simp_all add: first_resent_def)
  then have "first_resent (length ms) (of_nat k) = k" by (intro first_resent_number) linarith+
  moreover have "\<forall>k \<in> set ks. first_resent (length ms) i \<le> k \<and> k < length ms" using Cons.prems by simp
  note resent_messages [OF assms(1) this]
  ultimately show ?case using Cons
    by (auto simp: parse_cut cut_packet_def Let_def arrives_as_def)
qed (simp add: assms(2))

lemma resend_streams:
  assumes "sender_ok fd tr d" and "ms = messages (datagrams fd tr)" and "asked fd t"
    and "datagrams fd t = rev (map (\<lambda>k. take (length (ms ! k)) (data_packet (of_nat k) (ms ! k)))
       [first_resent (length ms) i..<length ms]) @ datagrams fd tr"
  shows "sender_ok fd t d" and "messages (datagrams fd t) = messages (datagrams fd tr)"
proof -
  let ?ks = "rev [first_resent (length ms) i..<length ms]"
  have ks: "\<forall>k \<in> set ?ks. first_resent (length ms) i \<le> k \<and> k < length ms" by simp
  show ms: "messages (datagrams fd t) = messages (datagrams fd tr)"
    using resent_messages [OF assms(2) ks] assms(2,4) by (simp add: rev_map)
  from assms(1,2) have "\<forall>x \<in> set (origins (datagrams fd tr)). made_of True ms x"
    using made_of_mono [of "asked fd tr" ms _ True "[]"] by (auto simp: sender_ok_def Let_def simp del: made_of.simps)
  from resent_made [OF assms(2) this ks] have "\<forall>x \<in> set (origins (datagrams fd t)). made_of True ms x"
    using assms(4) by (simp add: rev_map del: made_of.simps)
  then show "sender_ok fd t d" using assms(1-3) by (simp add: sender_ok_def Let_def ms del: made_of.simps)
qed

lemma passive_callback_inner:
  assumes "passive_user cb" and "c_tcp c \<noteq> None"
  shows "trace_ext inner_event (c_trace c) (c_trace (snd (run_callback cb reason bs c)))"
proof (cases "c_callback c")
  case True
  with run_callback_passive [OF assms] obtain a where
    "run_callback cb reason bs c = (Ret (), c\<lparr>c_trace := EvCallback reason bs # c_trace c, c_app := a\<rparr>)" .
  then show ?thesis by simp
qed (simp add: run_callback_def)

lemma inner_chain:
  assumes "trace_ext inner_event t (c_trace (snd r))"
    and "\<And>a s. r = (Ret a, s) \<Longrightarrow> trace_ext inner_event t (c_trace s) \<Longrightarrow> trace_ext inner_event t (c_trace (snd (k a s)))"
  shows "trace_ext inner_event t (c_trace (snd (chain r k)))"
  using assms by (cases "(r, k)" rule: chain.cases) auto

lemma send_inner:
  assumes "passive_user cb" and "c_tcp c \<noteq> None"
  shows "trace_ext inner_event (c_trace c) (c_trace (snd (chownat_udp_send os cb b n c)))"
proof -
  have "trace_ext inner_event (c_trace c) (c_trace (snd (run_callback cb r b (set_data d c\<lparr>c_trace := EvSendto f g a dw x # c_trace c\<rparr>))))"
    for r d f g a dw x
    using passive_callback_inner [OF assms(1), of "set_data d c\<lparr>c_trace := EvSendto f g a dw x # c_trace c\<rparr>" r b] assms(2)
    by (auto simp: set_data_def intro: trace_ext_trans [rotated])
  then show ?thesis
    by (auto simp: chownat_udp_send_def on_trace_eq sys_defs Let_def set_data_def split: option.split sum.split
        intro!: inner_chain)
qed

lemma retransmit_inner: "trace_ext inner_event tr t \<Longrightarrow> trace_ext inner_event tr (snd (retransmit os fd dst d fuel i t))"
  by (induction fuel arbitrary: i t) (auto simp: Let_def case_prod_beta sys_defs)

lemma recv_spec_inner:
  assumes "passive_user cb" and "c_tcp c \<noteq> None"
  shows "trace_ext inner_event (c_trace c) (c_trace (snd (recv_spec os cb fuel us d g m n c)))"
proof -
  have cb: "trace_ext inner_event (c_trace c) (c_trace (snd (run_callback cb r b c')))"
    if "trace_ext inner_event (c_trace c) (c_trace c')" and "c_tcp c' = c_tcp c" for r b c'
    using passive_callback_inner [OF assms(1), of c' r b] assms(2) that by (auto intro: trace_ext_trans)
  have "trace_ext inner_event (c_trace c) (c_trace (snd (chownat_disconnect_recv os fuel c)))"
    using disconnect_recv_quiet [of c os fuel] by (auto simp: quiet_step_def intro: trace_ext_mono quiet_inner)
  then show ?thesis
    by (auto simp: recv_spec_def on_trace_eq set_data_def set_closed_def sys_defs Let_def retransmit_inner
        split: wire.split intro!: inner_chain cb)
qed

section \<open>The steps of the main loop\<close>

text \<open>A read from the tunnel leaves everything but the blocks read alone.\<close>

lemma read_streams:
  "sender_ok fd (EvRecv f 1024 dw r # tr) d = sender_ok fd tr d"
  "receiver_ok trims ms fd (EvRecv f 1024 dw r # tr) d = receiver_ok trims ms fd tr d"
  "asked fd (EvRecv f 1024 dw r # tr) = asked fd tr"
  by (cases r; auto simp: sender_ok_def receiver_ok_def asked_def Let_def)+

lemma read_nothing:
  assumes "tunnel_inv trims ms us c" and "tcp_reads (EvRecv f 1024 dw r # c_trace c) = tcp_reads (c_trace c)"
  shows "tunnel_inv trims ms us (c\<lparr>c_trace := EvRecv f 1024 dw r # c_trace c\<rparr>)"
  using assms by (simp add: tunnel_inv_def tunnel_weak_def read_streams)

lemma sends_frame:
  assumes "trace_ext (\<lambda>e. \<exists>bs r. e = EvSend fd bs r) tr t"
  shows "heard f t = heard f tr" and "tcp_reads t = tcp_reads tr" and "heard_all (in_round trims ms) f t = heard_all (in_round trims ms) f tr"
    and "asked f t = asked f tr" and "delivered t = delivered tr" and "datagrams f t = datagrams f tr"
proof -
  have "heard f t = heard f tr \<and> tcp_reads t = tcp_reads tr \<and> heard_all (in_round trims ms) f t = heard_all (in_round trims ms) f tr \<and>
     delivered t = delivered tr \<and> datagrams f t = datagrams f tr"
    using assms by (induction rule: trace_ext_induct) auto
  then show "heard f t = heard f tr" "tcp_reads t = tcp_reads tr" "heard_all (in_round trims ms) f t = heard_all (in_round trims ms) f tr"
    "asked f t = asked f tr" "delivered t = delivered tr" "datagrams f t = datagrams f tr"
    by (simp_all add: asked_def)
qed

text \<open>Hearing a datagram.\<close>

lemma recv_event_streams:
  "heard (us_socket_fd us) (recv_event us g # tr) = take 1027 g # heard (us_socket_fd us) tr"
  "tcp_reads (recv_event us g # tr) = tcp_reads tr"
  "tcp_writes (recv_event us g # tr) = tcp_writes tr"
  "asked (us_socket_fd us) (recv_event us g # tr) \<longleftrightarrow>
     (\<exists>i. parse (take 1027 g) = Request i) \<or> asked (us_socket_fd us) tr"
  "heard_all (in_round trims ms) (us_socket_fd us) (recv_event us g # tr) \<longleftrightarrow>
     in_round trims ms (length (delivered tr)) (take 1027 g) \<and> heard_all (in_round trims ms) (us_socket_fd us) tr"
  by (auto simp: recv_event_def asked_def split: wire.splits)

lemma hear_sender:
  assumes "sender_ok (us_socket_fd us) tr d"
  shows "sender_ok (us_socket_fd us) (recv_event us g # tr) d"
  using assms made_of_mono [of "asked (us_socket_fd us) tr" _ _ _ "[]"]
  by (auto simp: sender_ok_def Let_def recv_event_streams)

lemma hear_receiver:
  assumes "receiver_ok trims ms (us_socket_fd us) tr d"
  shows "receiver_ok trims ms (us_socket_fd us) (recv_event us g # tr) d"
  using assms by (auto simp: receiver_ok_def Let_def recv_event_streams)

text \<open>A packet with the expected number, heard in time, is the next message.\<close>

lemma expected_next:
  assumes "in_round trims ms (length D) g" and "parse g = Data i p" and "uint i = int (length D mod 256)"
    and "length D \<le> length ms" and "list_all2 (arrives_as trims) (take (length D) ms) D"
  shows "length D < length ms" and "list_all2 (arrives_as trims) (take (Suc (length D)) ms) (D @ [p])"
proof -
  from assms(1,2,4) obtain k where k: "k < length ms" "i = of_nat k" "arrives_as trims (ms ! k) p"
    "k < length D + 256" "length D < k + 256"
    by (auto simp: in_round_def min_def)
  have "k = length D" using assms(3) k(2) seq_eq_iff [OF k(4,5)] by simp
  with k assms(5) show "length D < length ms" "list_all2 (arrives_as trims) (take (Suc (length D)) ms) (D @ [p])"
    by (simp_all add: take_Suc_conv_app_nth list_all2_appendI)
qed

text \<open>
  The user of a tunnel: well behaved, and passive as long as there is one.  \<open>fuel\<close> is enough for every
  retransmission.
\<close>

locale chownat_tunnel_user = chownat_user cb for cb :: "'a chownat_callback" +
  fixes os :: os and fuel :: nat
  assumes is_passive: "passive_user cb" and enough: "256 < fuel"
begin

lemma send_tunnel:
  assumes "tunnel_inv trims ms us c" and "cd_closed (the (c_data c)) = 0" and "length b \<le> TCP_MTU_SIZE"
    and "b \<noteq> []"
  obtains st n c' where "chownat_udp_send os cb b None (c\<lparr>c_trace := EvRecv f 1024 dw (Inr (b, l)) # c_trace c\<rparr>) =
      (Ret (st, n), c')" and "tunnel_inv trims ms us c'"
proof (rule tunnel_open [OF assms(1,2)])
  fix d
  let ?tr = "EvRecv f 1024 dw (Inr (b, l)) # c_trace c" and ?fd = "us_socket_fd us"
  let ?c = "c\<lparr>c_trace := ?tr\<rparr>"
  assume d: "open_conn us d c" "c_data c = Some d" "sender_ok ?fd (c_trace c) d"
    "receiver_ok trims ms ?fd (c_trace c) d" "tcp_reads (c_trace c) = messages (datagrams ?fd (c_trace c))"
    "tcp_writes (c_trace c) = concat (delivered (c_trace c))"
  then have wf: "chownat_wf d" "cd_closed d = 0" "c_tcp c \<noteq> None" by (auto elim: open_connE)
  have opn: "open_conn us d ?c" using d(1) by simp
  obtain st n c' where c': "chownat_udp_send os cb b None ?c = (Ret (st, n), c')"
    "open_conn us (sent_data d b) c'"
    "datagrams ?fd (c_trace c') = data_packet (word_of_int (cd_id d)) b # datagrams ?fd ?tr"
    "delivered (c_trace c') = delivered ?tr"
    by (rule send_step [OF is_passive opn assms(3), where os = os and n = None]) simp
  have "trace_ext inner_event ?tr (c_trace c')" using send_inner [OF is_passive, of ?c os b None] wf(3) c'(1) by simp
  note same = inner_ext [OF this]
  have "sender_ok ?fd ?tr d" using d(3) by (simp add: read_streams)
  note sent = send_streams [OF this wf(1,2) assms(3) c'(3) same(5)]
  have "receiver_ok trims ms ?fd (c_trace c') (sent_data d b)"
    using d(4) by (simp add: receiver_ok_def same(4) c'(4) sent_data_def)
  then have "tunnel_inv trims ms us c'"
    using d(5,6) sent(2) assms(4) by (intro open_tunnel [OF c'(2) sent(1)]) (simp_all add: same(2,3) c'(4))
  with c'(1) show ?thesis by (rule that)
qed

lemma tcp_recv_step:
  assumes "tunnel_inv trims ms us c"
  shows "leaves (tunnel_inv trims ms us) (tunnel_weak trims ms us) (tcp_recv os' (chownat_api os cb fuel) c)"
proof (cases "cd_closed (the (c_data c)) = 0")
  case False
  then have "tcp_recv os' (chownat_api os cb fuel) c = (Ret UDP_CONN_CLOSED, c)"
    using assms by (auto simp: tunnel_inv_def tunnel_weak_def tcp_recv_def chownat_api_def chownat_is_closed_def
        elim!: chownat_invE)
  with assms show ?thesis by simp
next
  case True
  obtain ts k where parts: "c_tcp c = Some ts" "c_ctrl c = Some k" "cc_init k \<noteq> 0" "c_udp c = Some us"
    "chownat_is_closed c = UDP_CONN_OK"
    using assms True by (auto simp: tunnel_inv_def tunnel_weak_def chownat_is_closed_def elim!: chownat_invE)
  let ?c = "\<lambda>r. c\<lparr>c_trace := EvRecv (ts_accepted_sock ts) 1024 False r # c_trace c\<rparr>"
  have unread: "tunnel_inv trims ms us (?c (Inl e))" "tunnel_inv trims ms us (?c (Inr ([], l)))" for e l
    using assms by (auto intro!: read_nothing)
  have "leaves (tunnel_inv trims ms us) (tunnel_weak trims ms us)
      (chain (chownat_udp_send os cb b None (?c (Inr (b, l)))) (\<lambda>(st, _) c2. (Ret st, c2)))"
    if "b \<noteq> []" and "length b \<le> 1024" for b l
    by (rule send_tunnel [OF assms True that(2,1), where f = "ts_accepted_sock ts" and dw = False and l = l]) auto
  with parts unread show ?thesis
    by (auto simp: tcp_recv_def chownat_api_def on_trace_eq sys_defs Let_def split: sum.split)
qed

text \<open>What the loop does with a payload of \<open>n\<close> bytes the backend put into the buffer.\<close>

definition pass_on :: "os \<Rightarrow> nat \<Rightarrow> byte list \<Rightarrow> nat \<Rightarrow> ('a, delivery \<times> byte list) chownat_op" where
  "pass_on os' fuel' b n c =
     chain (tcp_send os' fuel' (take n b) c) (\<lambda>st c'.
       if is_err st then disconnect_return (chownat_api os cb fuel) st b c' else (Ret (Delivered n, b), c'))"

lemma api_ops:
  "api_is_closed (chownat_api os cb fuel) = chownat_is_closed"
  "api_udp_recv (chownat_api os cb fuel) = chownat_udp_recv os cb fuel"
  "api_process_events (chownat_api os cb fuel) = None"
  "api_pending_data (chownat_api os cb fuel) = None"
  by (simp_all add: chownat_api_def)

lemma deliver_received:
  assumes "chownat_udp_recv os cb fuel (Some buf) TCP_MTU_SIZE (Some 0) c = (Ret (UDP_CONN_OK, Some b, Some n), c')"
    and "open_conn us d c'" and "n \<le> length b"
  shows "deliver os' (chownat_api os cb fuel) fuel' buf c = pass_on os' fuel' b n c'"
proof -
  have "\<not> closed (chownat_api os cb fuel) c'"
    using assms(2) by (auto simp: closed_def api_ops chownat_is_closed_def elim!: open_connE)
  with assms show ?thesis by (simp add: deliver_def pass_on_def api_ops Let_def cong: if_cong)
qed

lemma pass_on_nothing: "pass_on os' fuel' b 0 c = (Ret (Delivered 0, b), c)"
  by (auto simp: pass_on_def tcp_send_def on_trace_eq split: option.split)

lemma disconnect_tunnel:
  assumes "tunnel_weak trims ms us c" and "cd_closed (the (c_data c)) = 0"
  shows "leaves (tunnel_inv trims ms us) (tunnel_weak trims ms us)
     (disconnect_return (chownat_api os cb fuel) st b c)"
proof -
  have "chownat_inv c" using assms(1) by (simp add: tunnel_weak_def)
  then have keeps: "keeps chownat_inv (chownat_disconnect_send os c)" by (rule disconnect_send_keeps)
  obtain st' c' where c': "chownat_disconnect_send os c = (Ret st', c')" and "cd_closed (the (c_data c')) \<noteq> 0"
    using assms by (auto simp: tunnel_weak_def chownat_disconnect_send_def Let_def finish_disconnect_def set_data_def
        elim!: chownat_invE split: option.splits)
  moreover have "tunnel_weak trims ms us c'"
    using quiet_weak [OF assms(1)] disconnect_send_quiet [of c os] keeps c' by simp
  ultimately show ?thesis by (simp add: disconnect_return_def chownat_api_def tunnel_inv_def)
qed

lemma pass_on_tunnel:
  assumes "open_conn us d c" and "sender_ok (us_socket_fd us) (c_trace c) d"
    and "receiver_ok trims ms (us_socket_fd us) (c_trace c) d"
    and "tcp_reads (c_trace c) = messages (datagrams (us_socket_fd us) (c_trace c))"
    and "concat (delivered (c_trace c)) = tcp_writes (c_trace c) @ take n b"
  shows "leaves (tunnel_inv trims ms us) (tunnel_weak trims ms us) (pass_on os' fuel' b n c)"
proof -
  obtain ts where ts: "c_tcp c = Some ts" using assms(1) by (auto elim: open_connE)
  obtain r t where r: "tcp_send_loop os' (ts_accepted_sock ts) fuel' (take n b) (c_trace c) = (r, t)" by fastforce
  obtain k where k: "tcp_writes t = tcp_writes (c_trace c) @ take k (take n b)"
    "r = Ret UDP_CONN_OK \<longrightarrow> length (take n b) \<le> k" "r \<noteq> Fault" "\<forall>st. r = Ret st \<longrightarrow> st = UDP_CONN_OK \<or> st = UDP_CONN_ERR"
    using tcp_send_loop_writes [OF r] by blast
  have "trace_ext (\<lambda>e. \<exists>bs x. e = EvSend (ts_accepted_sock ts) bs x) (c_trace c) t"
    using tcp_send_loop_sends [of "ts_accepted_sock ts" "c_trace c" "c_trace c" os' fuel' "take n b"] r by simp
  note same = sends_frame [OF this]
  have opn: "open_conn us d (c\<lparr>c_trace := t\<rparr>)" using assms(1) by simp
  have parts: "sender_ok (us_socket_fd us) t d" "receiver_ok trims ms (us_socket_fd us) t d"
    "tcp_reads t = messages (datagrams (us_socket_fd us) t)"
    using assms(2-4) by (simp_all add: sender_ok_def receiver_ok_def same)
  have weak: "tunnel_weak trims ms us (c\<lparr>c_trace := t\<rparr>)"
    using parts k(1) assms(5) by (intro open_tunnel_weak [OF opn]) (simp_all add: same take_is_prefix del: take_take)
  have full: "tunnel_inv trims ms us (c\<lparr>c_trace := t\<rparr>)" if "r = Ret UDP_CONN_OK"
  proof (rule open_tunnel [OF opn])
    have "take k (take n b) = take n b" using k(2) that by (intro take_all) simp
    with k(1) assms(5) show "tcp_writes (c_trace (c\<lparr>c_trace := t\<rparr>)) = concat (delivered (c_trace (c\<lparr>c_trace := t\<rparr>)))"
      by (simp add: same)
  qed (use parts in simp_all)
  have "cd_closed (the (c_data (c\<lparr>c_trace := t\<rparr>))) = 0" using assms(1) by (auto elim: open_connE)
  from disconnect_tunnel [OF weak this] full weak k(3,4) show ?thesis
    by (cases r) (auto simp: pass_on_def tcp_send_def ts on_trace_eq r)
qed

text \<open>Receiving one datagram, by its kind, in a tunnel that is open.\<close>

lemma deliver_ignored:
  assumes "tunnel_inv trims ms us c" and "cd_closed (the (c_data c)) = 0" and "length buf = TCP_MTU_SIZE"
    and "os_recv os (c_trace c) (us_socket_fd us) False = Inr g"
    and "parse (take 1027 g) = Keepalive \<or> parse (take 1027 g) = Handshake \<or> parse (take 1027 g) = Unknown"
  shows "leaves (tunnel_inv trims ms us) (tunnel_weak trims ms us)
     (deliver os' (chownat_api os cb fuel) fuel' buf c)"
proof (rule tunnel_open [OF assms(1,2)])
  fix d
  let ?c = "c\<lparr>c_trace := recv_event us g # c_trace c\<rparr>"
  assume d: "open_conn us d c" "sender_ok (us_socket_fd us) (c_trace c) d"
    "receiver_ok trims ms (us_socket_fd us) (c_trace c) d"
    "tcp_reads (c_trace c) = messages (datagrams (us_socket_fd us) (c_trace c))"
    "tcp_writes (c_trace c) = concat (delivered (c_trace c))"
  have opn: "open_conn us d ?c" using d(1) by simp
  have "chownat_udp_recv os cb fuel (Some buf) TCP_MTU_SIZE (Some 0) c = (Ret (UDP_CONN_OK, Some buf, Some 0), ?c)"
    using assms(5) recv_refines [OF d(1), of TCP_MTU_SIZE buf os g cb fuel 0] assms(3,4) by (auto simp: recv_spec_def)
  then have "deliver os' (chownat_api os cb fuel) fuel' buf c = (Ret (Delivered 0, buf), ?c)"
    using deliver_received [OF _ opn] by (simp add: pass_on_nothing)
  moreover have "tunnel_inv trims ms us ?c"
    using d by (intro open_tunnel [OF opn]) (simp_all add: hear_sender hear_receiver recv_event_streams)
  ultimately show ?thesis by simp
qed

lemma deliver_request:
  assumes "tunnel_inv trims ms us c" and "cd_closed (the (c_data c)) = 0" and "length buf = TCP_MTU_SIZE"
    and "os_recv os (c_trace c) (us_socket_fd us) False = Inr g" and "parse (take 1027 g) = Request i"
  shows "leaves (tunnel_inv trims ms us) (tunnel_weak trims ms us)
     (deliver os' (chownat_api os cb fuel) fuel' buf c)"
proof (rule tunnel_open [OF assms(1,2)])
  fix d
  let ?tr = "recv_event us g # c_trace c" and ?fd = "us_socket_fd us"
  let ?sent = "messages (datagrams ?fd (c_trace c))"
  assume d: "open_conn us d c" "sender_ok ?fd (c_trace c) d" "receiver_ok trims ms ?fd (c_trace c) d"
    "tcp_reads (c_trace c) = ?sent" "tcp_writes (c_trace c) = concat (delivered (c_trace c))"
  have "cd_closed d = 0" "c_tcp c \<noteq> None" using d(1) by (auto elim: open_connE)
  then have stored: "stored ?sent d" using d(2) by (simp add: sender_ok_def Let_def)
  have m: "TCP_MTU_SIZE \<le> length buf" using assms(3) by simp
  obtain c' where c': "chownat_udp_recv os cb fuel (Some buf) TCP_MTU_SIZE (Some 0) c =
      (Ret (UDP_CONN_OK, Some buf, Some 0), c')" "open_conn us d c'"
    "delivered (c_trace c') = delivered (c_trace c)"
    "datagrams ?fd (c_trace c') = rev (map (\<lambda>j. take (length (?sent ! j)) (data_packet (of_nat j) (?sent ! j)))
       [first_resent (length ?sent) i..<length ?sent]) @ datagrams ?fd (c_trace c)"
    by (rule request_step [OF is_passive d(1) stored m assms(4,5) enough])
  have "trace_ext inner_event ?tr (c_trace c')"
    using recv_spec_inner [OF is_passive, of "c\<lparr>c_trace := ?tr\<rparr>" os fuel us d "take 1027 g" buf TCP_MTU_SIZE]
      recv_refines [OF d(1) m assms(4), of cb fuel 0, symmetric] c'(1) \<open>c_tcp c \<noteq> None\<close> by simp
  note same = inner_ext [OF this]
  have "asked ?fd (c_trace c')" using assms(5) by (simp add: same(5) recv_event_streams)
  note sent = resend_streams [OF d(2) refl this c'(4)]
  have "receiver_ok trims ms ?fd (c_trace c') d"
    using hear_receiver [OF d(3), of g] by (simp add: receiver_ok_def same(4) c'(3))
  then have "tunnel_inv trims ms us c'"
    using d(4,5) sent(2) by (intro open_tunnel [OF c'(2) sent(1)]) (simp_all add: same(2,3) c'(3) recv_event_streams)
  then show ?thesis using deliver_received [OF c'(1,2)] by (simp add: pass_on_nothing)
qed

lemma deliver_bye:
  assumes "tunnel_inv trims ms us c" and "cd_closed (the (c_data c)) = 0" and "length buf = TCP_MTU_SIZE"
    and "os_recv os (c_trace c) (us_socket_fd us) False = Inr g" and "parse (take 1027 g) = Bye"
  shows "leaves (tunnel_inv trims ms us) (tunnel_weak trims ms us)
     (deliver os' (chownat_api os cb fuel) fuel' buf c)"
proof (rule tunnel_open [OF assms(1,2)])
  fix d
  let ?c = "c\<lparr>c_trace := recv_event us g # c_trace c\<rparr>"
  assume d: "open_conn us d c" "sender_ok (us_socket_fd us) (c_trace c) d"
    "receiver_ok trims ms (us_socket_fd us) (c_trace c) d"
    "tcp_reads (c_trace c) = messages (datagrams (us_socket_fd us) (c_trace c))"
    "tcp_writes (c_trace c) = concat (delivered (c_trace c))"
  have opn: "open_conn us d ?c" using d(1) by simp
  have inv: "tunnel_inv trims ms us ?c"
    using d by (intro open_tunnel [OF opn]) (simp_all add: hear_sender hear_receiver recv_event_streams)
  have keeps: "keeps chownat_inv (chownat_disconnect_recv os fuel ?c)"
    using opn by (intro disconnect_recv_keeps) (simp add: open_conn_def)
  have "leaves (tunnel_inv trims ms us) (tunnel_weak trims ms us) (chownat_disconnect_recv os fuel ?c)"
    by (rule quiet_leaves [OF inv disconnect_recv_quiet keeps])
  moreover have "tunnel_inv trims ms us (set_closed c')" if "tunnel_inv trims ms us c'" for c'
    using that chownat_inv_set_closed [of c']
    by (auto simp: tunnel_inv_def tunnel_weak_def set_closed_def elim!: chownat_invE)
  moreover have "closed (chownat_api os cb fuel) (set_closed c')" if "tunnel_inv trims ms us c'" for c'
    using that by (auto simp: tunnel_inv_def tunnel_weak_def closed_def api_ops chownat_is_closed_def set_closed_def
        elim!: chownat_invE)
  moreover have "chownat_udp_recv os cb fuel (Some buf) TCP_MTU_SIZE (Some 0) c =
      chain (chownat_disconnect_recv os fuel ?c) (\<lambda>_ c'. (Ret (UDP_CONN_ERR, Some buf, Some 0), set_closed c'))"
    using recv_refines [OF d(1), of TCP_MTU_SIZE buf os g cb fuel 0] assms(3-5) by (simp add: recv_spec_def)
  ultimately show ?thesis
    by (auto simp: deliver_def api_ops chain_assoc Let_def intro!: leaves_chain)
qed

lemma deliver_unexpected:
  assumes "tunnel_inv trims ms us c" and "cd_closed (the (c_data c)) = 0" and "length buf = TCP_MTU_SIZE"
    and "os_recv os (c_trace c) (us_socket_fd us) False = Inr g" and "parse (take 1027 g) = Data i p"
    and "uint i \<noteq> cd_expected (the (c_data c))"
  shows "leaves (tunnel_inv trims ms us) (tunnel_weak trims ms us)
     (deliver os' (chownat_api os cb fuel) fuel' buf c)"
proof (rule tunnel_open [OF assms(1,2)])
  fix d :: chownat_data
  let ?q = "request_packet (word_of_int (cd_expected d))" and ?fd = "us_socket_fd us"
  let ?r = "map_sum id (min (length ?q)) (os_sendto os (recv_event us g # c_trace c) ?fd ?q)"
  let ?t = "EvSendto ?fd ?q (us_dst us) False ?r # recv_event us g # c_trace c"
  assume d: "open_conn us d c" "c_data c = Some d" "sender_ok (us_socket_fd us) (c_trace c) d"
    "receiver_ok trims ms (us_socket_fd us) (c_trace c) d"
    "tcp_reads (c_trace c) = messages (datagrams (us_socket_fd us) (c_trace c))"
    "tcp_writes (c_trace c) = concat (delivered (c_trace c))"
  have opn: "open_conn us d (c\<lparr>c_trace := ?t\<rparr>)" using d(1) by simp
  have q: "parse ?q = Request (word_of_int (cd_expected d))" using parse_print [of "Request _"] by simp
  have "chownat_udp_recv os cb fuel (Some buf) TCP_MTU_SIZE (Some 0) c = (Ret (UDP_CONN_OK, Some buf, Some 0), c\<lparr>c_trace := ?t\<rparr>)"
    using recv_refines [OF d(1), of TCP_MTU_SIZE buf os g cb fuel 0] assms(3-6) d(2)
    by (simp add: recv_spec_def on_trace_eq sys_defs Let_def)
  then have "deliver os' (chownat_api os cb fuel) fuel' buf c = (Ret (Delivered 0, buf), c\<lparr>c_trace := ?t\<rparr>)"
    using deliver_received [OF _ opn] by (simp add: pass_on_nothing)
  moreover have "asked ?fd ?t = asked ?fd (recv_event us g # c_trace c)" by (simp add: asked_def)
  then have "sender_ok ?fd ?t d" "receiver_ok trims ms ?fd ?t d"
    using hear_sender [OF d(3), of g] hear_receiver [OF d(4), of g]
    by (simp_all add: sender_ok_def receiver_ok_def Let_def q)
  then have "tunnel_inv trims ms us (c\<lparr>c_trace := ?t\<rparr>)"
    using d(5,6) by (intro open_tunnel [OF opn]) (simp_all add: recv_event_streams q Let_def)
  ultimately show ?thesis by simp
qed

lemma deliver_expected:
  assumes "tunnel_inv trims ms us c" and "cd_closed (the (c_data c)) = 0" and "length buf = TCP_MTU_SIZE"
    and "os_recv os (c_trace c) (us_socket_fd us) False = Inr g" and "parse (take 1027 g) = Data i p"
    and "uint i = cd_expected (the (c_data c))"
  shows "leaves (tunnel_inv trims ms us) (tunnel_weak trims ms us)
     (deliver os' (chownat_api os cb fuel) fuel' buf c)"
proof (rule tunnel_open [OF assms(1,2)])
  fix d :: chownat_data
  let ?fd = "us_socket_fd us" and ?d = "d\<lparr>cd_expected := (cd_expected d + 1) mod 256\<rparr>"
  let ?t = "EvCallback CHOWNAT_UDP_RECV_DATA p # recv_event us g # c_trace c"
  assume d: "open_conn us d c" "c_data c = Some d" "sender_ok (us_socket_fd us) (c_trace c) d"
    "receiver_ok trims ms (us_socket_fd us) (c_trace c) d"
    "tcp_reads (c_trace c) = messages (datagrams (us_socket_fd us) (c_trace c))"
    "tcp_writes (c_trace c) = concat (delivered (c_trace c))"
  have wf: "chownat_wf d" "cd_closed d = 0" "c_tcp c \<noteq> None" "c_callback c" using d(1) by (auto elim: open_connE)
  have len: "length p \<le> 1024"
    using assms(5) by (auto simp: parse_def split: if_splits)
  have "chownat_wf ?d" using wf_expected [OF wf(1)] wf(1) by (simp add: next_seq_mod chownat_wf_def [of d])
  then have opn: "open_conn us ?d (c\<lparr>c_data := Some ?d\<rparr>)" using open_conn_data [OF d(1), of ?d] wf(2) by simp
  let ?c = "c\<lparr>c_trace := recv_event us g # c_trace c, c_data := Some ?d\<rparr>"
  obtain a where "run_callback cb CHOWNAT_UDP_RECV_DATA p ?c =
      (Ret (), ?c\<lparr>c_trace := EvCallback CHOWNAT_UDP_RECV_DATA p # c_trace ?c, c_app := a\<rparr>)"
    using run_callback_passive [OF is_passive, of ?c] wf(3,4) by auto
  then have recv: "chownat_udp_recv os cb fuel (Some buf) TCP_MTU_SIZE (Some 0) c =
      (Ret (UDP_CONN_OK, Some (overwrite buf p), Some (length p)), c\<lparr>c_trace := ?t, c_data := Some ?d, c_app := a\<rparr>)"
    using recv_refines [OF d(1), of TCP_MTU_SIZE buf os g cb fuel 0] assms(3-6) d(2) len
    by (simp add: recv_spec_def set_data_def)
  have opn': "open_conn us ?d (c\<lparr>c_trace := ?t, c_data := Some ?d, c_app := a\<rparr>)"
    using opn by (simp add: open_conn_def chownat_inv_def)
  have "sender_ok ?fd ?t ?d"
    using hear_sender [OF d(3), of g] by (simp add: sender_ok_def Let_def asked_def stored_def in_slot_def)
  moreover have "receiver_ok trims ms ?fd ?t ?d"
    using d(4) expected_next [of trims ms "delivered (c_trace c)" "take 1027 g" i p] assms(5,6) wf(2) d(2)
    by (auto simp: receiver_ok_def Let_def recv_event_streams int_Suc_mod)
  ultimately show ?thesis
    using deliver_received [OF recv opn'] pass_on_tunnel [OF opn', of trims ms "length p" "overwrite buf p"]
      assms(3) d(5,6) len
    by (simp add: recv_event_streams take_overwrite)
qed

lemma deliver_fails:
  assumes "tunnel_inv trims ms us c" and "cd_closed (the (c_data c)) = 0"
    and "os_recv os (c_trace c) (us_socket_fd us) False = Inl e"
  shows "leaves (tunnel_inv trims ms us) (tunnel_weak trims ms us)
     (deliver os' (chownat_api os cb fuel) fuel' buf c)"
proof (rule tunnel_open [OF assms(1,2)])
  fix d :: chownat_data
  let ?fd = "us_socket_fd us" and ?d = "d\<lparr>cd_closed := 1\<rparr>"
  let ?t = "EvRecv ?fd 1027 False (Inl e) # c_trace c"
  assume d: "open_conn us d c" "c_data c = Some d" "sender_ok (us_socket_fd us) (c_trace c) d"
    "receiver_ok trims ms (us_socket_fd us) (c_trace c) d"
    "tcp_reads (c_trace c) = messages (datagrams (us_socket_fd us) (c_trace c))"
    "tcp_writes (c_trace c) = concat (delivered (c_trace c))"
  obtain k where k: "c_udp c = Some us" "c_ctrl c = Some k" "cc_init k \<noteq> 0" "cd_closed d = 0" "chownat_inv c"
    "c_tcp c \<noteq> None" using d(1) by (auto elim: open_connE)
  have "chownat_udp_recv os cb fuel (Some buf) TCP_MTU_SIZE (Some 0) c =
      (Ret (UDP_CONN_ERR, Some buf, Some 0), c\<lparr>c_trace := ?t, c_data := Some ?d\<rparr>)"
    using k(1-4) d(2) assms(3) by (simp add: chownat_udp_recv_def on_trace_eq sys_defs Let_def set_closed_def)
  then have "deliver os' (chownat_api os cb fuel) fuel' buf c = (Ret (Deliver_Closed, buf), c\<lparr>c_trace := ?t, c_data := Some ?d\<rparr>)"
    by (simp add: deliver_def api_ops closed_def chownat_is_closed_def)
  moreover have "chownat_inv (c\<lparr>c_trace := ?t, c_data := Some ?d\<rparr>)"
    using chownat_inv_set_closed [OF k(5)] d(2) by (simp add: set_closed_def chownat_inv_def)
  moreover have "sender_ok ?fd ?t ?d" "receiver_ok trims ms ?fd ?t ?d"
    using d(3,4) closed_streams_update by (simp_all add: sender_ok_def receiver_ok_def asked_def Let_def)
  ultimately show ?thesis using d(5,6) k by (simp add: tunnel_inv_def tunnel_weak_def)
qed

lemma deliver_step:
  assumes "tunnel_inv trims ms us c" and "length buf = TCP_MTU_SIZE"
  shows "leaves (tunnel_inv trims ms us) (tunnel_weak trims ms us)
     (deliver os' (chownat_api os cb fuel) fuel' buf c)"
proof (cases "cd_closed (the (c_data c)) = 0")
  case False
  then have "deliver os' (chownat_api os cb fuel) fuel' buf c = (Ret (Deliver_Closed, buf), c)"
    using assms(1) by (auto simp: tunnel_inv_def tunnel_weak_def deliver_def api_ops chownat_udp_recv_def closed_def
        chownat_is_closed_def elim!: chownat_invE)
  with assms(1) show ?thesis by simp
next
  case True
  show ?thesis
  proof (cases "os_recv os (c_trace c) (us_socket_fd us) False")
    case (Inl e)
    with assms(1) True show ?thesis by (rule deliver_fails)
  next
    case (Inr g)
    note here = assms(1) True assms(2) Inr
    show ?thesis
    proof (cases "parse (take 1027 g)")
      case Bye
      with here show ?thesis by (rule deliver_bye)
    next
      case (Request i)
      with here show ?thesis by (rule deliver_request)
    next
      case (Data i p)
      with here show ?thesis
        by (cases "uint i = cd_expected (the (c_data c))") (rule deliver_expected deliver_unexpected; assumption)+
    qed (auto intro: deliver_ignored [OF here])
  qed
qed

lemma connect_quiet:
  assumes "c_tcp c \<noteq> None"
  shows "quiet_step c (snd (chownat_connect cb c))"
proof -
  have "quiet_step c (snd (run_callback cb CHOWNAT_UDP_CONNECTED [] c))"
  proof (cases "c_callback c")
    case True
    obtain a where "run_callback cb CHOWNAT_UDP_CONNECTED [] c =
        (Ret (), c\<lparr>c_trace := EvCallback CHOWNAT_UDP_CONNECTED [] # c_trace c, c_app := a\<rparr>)"
      by (rule run_callback_passive [OF is_passive assms True])
    then show ?thesis by (simp add: quiet_step_def)
  qed (simp add: run_callback_def)
  then show ?thesis
    by (auto simp: chownat_connect_def split: option.split intro!: quiet_chain)
qed

lemma tunnel_facts:
  assumes "tunnel_inv trims ms us c"
  shows "chownat_inv c" and "c_udp c = Some us" and "c_tcp c \<noteq> None" and "tunnel_weak trims ms us c"
  using assms by (simp_all add: tunnel_inv_def tunnel_weak_def)

lemma wait_quiet: "trace_ext wait_event tr t \<Longrightarrow> trace_ext quiet_event tr t"
  by (erule trace_ext_mono) (auto simp: wait_event_def is_EvClock_def is_EvSelect_def)

lemma backend: "udp_backend (chownat_api os cb fuel) chownat_inv chownat_inv"
  by (rule chownat_backend) unfold_locales

lemma tunnel_loop:
  "connection_loop (chownat_api os cb fuel) (tunnel_inv trims ms us) (tunnel_inv trims ms us) (tunnel_weak trims ms us)"
proof -
  have quiet: "leaves (tunnel_inv trims ms us) (tunnel_weak trims ms us) r"
    if "tunnel_inv trims ms us c" and "quiet_step c (snd r)" and "chownat_inv c \<Longrightarrow> keeps chownat_inv r"
    for r :: "'x outcome \<times> 'a chownat_conn" and c
    using quiet_leaves [OF that(1,2)] that(3) tunnel_facts(1) [OF that(1)] by blast
  show ?thesis
  proof unfold_locales
    show "tunnel_inv trims ms us c \<Longrightarrow> fds_ok c \<and> c_udp c \<noteq> None" for c :: "'a chownat_conn"
      using tunnel_facts [of trims ms us c] by (auto elim: chownat_invE)
    show "tunnel_inv trims ms us (c\<lparr>c_trace := t\<rparr>)"
      if "tunnel_inv trims ms us c" and "trace_ext wait_event (c_trace c) t" for c :: "'a chownat_conn" and t
      using quiet_inv [OF that(1)] tunnel_facts(1) [OF that(1)] wait_quiet [OF that(2)] by simp
    show "tunnel_inv trims ms us (set_read_fds fds c)" if "tunnel_inv trims ms us c" for c :: "'a chownat_conn" and fds
      using quiet_inv [OF that, of "set_read_fds fds c"] chownat_inv_read_fds [OF tunnel_facts(1) [OF that], of fds]
      by (auto simp: quiet_step_def set_read_fds_def map_option_case split: option.split)
    show "leaves (tunnel_inv trims ms us) (tunnel_weak trims ms us) (tcp_bind os e c)"
      if "tunnel_inv trims ms us c" and "\<And>tr fd n. os_accept os tr fd = Inr n \<Longrightarrow> int n < FD_SETSIZE"
      for os e and c :: "'a chownat_conn"
      using that(1) tcp_bind_quiet
      by (rule quiet) (rule udp_backend.keeps_tcp_bind [OF backend _ that(2)]; assumption)
    show "leaves (tunnel_inv trims ms us) (tunnel_weak trims ms us) (api_connect (chownat_api os cb fuel) c)"
      if "tunnel_inv trims ms us c" for c
      using quiet [OF that connect_quiet [OF tunnel_facts(3) [OF that]] connect_keeps]
      by (simp add: chownat_api_def)
    show "length buf' = TCP_MTU_SIZE"
      if "tunnel_inv trims ms us c" and "length buf = TCP_MTU_SIZE"
        and "deliver os' (chownat_api os cb fuel) n buf c = (Ret (dl, buf'), c')" for os' n buf dl buf' c c'
      using udp_backend.keeps_deliver [OF backend tunnel_facts(1) [OF that(1)] that(2)] that(3) by blast
    show "tunnel_inv trims ms us c \<Longrightarrow> leaves (tunnel_inv trims ms us) (tunnel_weak trims ms us)
        (api_hole_punching (chownat_api os cb fuel) c)" for c
      using quiet [OF _ hole_punching_quiet hole_punching_keeps]
      by (simp add: chownat_api_def)
    show "tunnel_inv trims ms us c \<Longrightarrow> leaves (tunnel_inv trims ms us) (tunnel_weak trims ms us)
        (api_get_timeout (chownat_api os cb fuel) tv c)" for c tv
      using quiet [OF _ timeout_quiet get_timeout_keeps [of chownat_inv]]
      by (simp add: chownat_api_def)
    show "tunnel_inv trims ms us c \<Longrightarrow> leaves (tunnel_inv trims ms us) (tunnel_weak trims ms us)
        (api_udp_send_ka (chownat_api os cb fuel) c)" for c
      using quiet [OF _ ka_quiet send_ka_keeps] by (simp add: chownat_api_def)
    show hang_up: "tunnel_inv trims ms us c \<Longrightarrow> leaves (tunnel_inv trims ms us) (tunnel_weak trims ms us)
        (api_disconnect (chownat_api os cb fuel) c)" for c
      using quiet [OF _ disconnect_send_quiet disconnect_send_keeps]
      by (simp add: chownat_api_def)
    show "tunnel_inv trims ms us c \<Longrightarrow> leaves (tunnel_inv trims ms us) (tunnel_weak trims ms us)
        (on_tcp_ready os' (chownat_api os cb fuel) fd c)" for os' fd c
      by (rule on_tcp_ready_leaves [OF _ tcp_recv_step hang_up])
  qed (auto intro: deliver_step tunnel_facts(4) simp: api_ops)
qed

sublocale tunnel: connection_loop "chownat_api os cb fuel" "tunnel_inv trims ms us" "tunnel_inv trims ms us"
    "tunnel_weak trims ms us" for trims ms us
  by (rule tunnel_loop)

lemma run_tunnel:
  assumes "tunnel_inv trims ms us c" and "length buf = TCP_MTU_SIZE"
    and "\<And>tr fd n. os_accept os' tr fd = Inr n \<Longrightarrow> int n < FD_SETSIZE"
  shows "tunnel_weak trims ms us (snd (udp_connection os' (chownat_api os cb fuel) e fuel' buf c))"
proof -
  have "leaves (tunnel_inv trims ms us) (tunnel_weak trims ms us)
      (udp_connection os' (chownat_api os cb fuel) e fuel' buf c)"
    by (rule tunnel.udp_connection_leaves [OF assms(1) _ _ assms(2)]) (use assms(3) in auto)
  then have "keeps (tunnel_weak trims ms us) (udp_connection os' (chownat_api os cb fuel) e fuel' buf c)"
    by (rule leaves_keeps) (rule tunnel_facts(4))
  then show ?thesis by (simp add: keeps_def)
qed

end

interpretation test_tunnel: chownat_tunnel_user "udp_conn_calback os' n (Suc depth)" os "n' + 257"
  for os' n depth os n'
  by unfold_locales (simp_all add: calback_passive)

end
