(* ===== verification/Chownat_Network.thy ===== *)
theory Chownat_Network
  imports Chownat_Link
begin

text \<open>
  Two CHOWNAT tunnels and the network between them: their runs of \<open>udp_connection\<close>, joined by a network
  that loses, repeats and reorders datagrams, carry the bytes of one TCP connection to the other.
\<close>

section \<open>Two tunnels\<close>

text \<open>A tunnel whose connection was initialised and has carried nothing yet.\<close>

definition fresh_tunnel :: "udp_session \<Rightarrow> 'a chownat_conn \<Rightarrow> bool" where
  "fresh_tunnel us c \<longleftrightarrow> (\<exists>d. open_conn us d c \<and> cd_id d = 0 \<and> cd_expected d = 0) \<and>
     trace_ext quiet_event [] (c_trace c)"

lemma fresh_inv: "fresh_tunnel us c \<Longrightarrow> tunnel_inv trims ms us c"
  unfolding fresh_tunnel_def
proof (elim conjE exE)
  fix d
  assume d: "open_conn us d c" "cd_id d = 0" "cd_expected d = 0" and q: "trace_ext quiet_event [] (c_trace c)"
  note same = quiet_streams [OF q]
  show ?thesis
    using d(2,3) by (intro open_tunnel [OF d(1)])
      (simp_all add: same sender_ok_def [of _ "[]"] receiver_ok_def [of _ _ _ "[]"] stored_fresh)
qed

text \<open>What a sender's datagrams mean to the receiver, read off the sender's final trace.\<close>

lemma parse_take:
  assumes "parse (take 1027 h) = Data i p"
  shows "\<exists>p'. parse h = Data i p' \<and> p = take 1024 p'"
  using assms by (auto simp: parse_def take_drop split: if_splits)

lemma sender_parses:
  assumes "sender_ok fd tr d" and "(k, h) \<in> set (origins (datagrams fd tr))" and "parse (take 1027 h) = Data i p"
  shows "k < length (messages (datagrams fd tr))" and "i = of_nat k"
    and "arrives_as (asked fd tr) (messages (datagrams fd tr) ! k) p"
proof -
  let ?ms = "messages (datagrams fd tr)"
  obtain p' where p': "parse h = Data i p'" "p = take 1024 p'" using parse_take [OF assms(3)] by blast
  have "made_of (asked fd tr) ?ms (k, h)" using assms(1,2) by (auto simp: sender_ok_def Let_def simp del: made_of.simps)
  then have k: "k < length ?ms" "i = of_nat k" "arrives_as (asked fd tr) (?ms ! k) p'" using p'(1) by simp_all
  then have "length (?ms ! k) \<le> 1024" using assms(1) by (simp add: sender_ok_def Let_def)
  then have "length p' \<le> 1024" using k(3) by (auto simp: arrives_as_def)
  with k p'(2) show "k < length ?ms" "i = of_nat k" "arrives_as (asked fd tr) (?ms ! k) p" by simp_all
qed

lemma on_time_in_round:
  assumes "sender_ok fd tr d" and "on_time (datagrams fd tr) n g"
  shows "in_round (asked fd tr) (messages (datagrams fd tr)) n g"
proof (cases "parse g")
  case (Data i p)
  with assms(2) obtain k h where h: "(k, h) \<in> set (origins (datagrams fd tr))" "g = take 1027 h"
    "k < n + 256" "n < k + 256"
    by (auto simp: on_time_def list_ex_iff)
  with Data sender_parses [OF assms(1) h(1)] show ?thesis by (auto simp: in_round_def)
qed (simp_all add: in_round_def)

lemma few_in_round:
  assumes "sender_ok fd tr d" and "length (messages (datagrams fd tr)) < 256"
    and "g \<in> take 1027 ` set (datagrams fd tr)"
  shows "in_round (asked fd tr) (messages (datagrams fd tr)) n g"
proof (cases "parse g")
  case (Data i p)
  from assms(3) obtain h where "g = take 1027 h" "h \<in> set (map snd (origins (datagrams fd tr)))"
    by (auto simp: origins_datagrams)
  then obtain k where h: "(k, h) \<in> set (origins (datagrams fd tr))" "g = take 1027 h" by auto
  with Data sender_parses [OF assms(1) h(1)] assms(2) show ?thesis by (auto simp: in_round_def)
qed (simp_all add: in_round_def)

lemma arrives_uncut: "list_all2 (arrives_as False) ms ps \<longleftrightarrow> ps = ms"
  by (simp add: arrives_as_def list_all2_conv_all_nth list_eq_iff_nth_eq) metis

text \<open>What a tunnel guarantees of its trace alone; closing and releasing it keeps it.\<close>

definition stream_ok :: "bool \<Rightarrow> byte list list \<Rightarrow> int \<Rightarrow> trace \<Rightarrow> bool" where
  "stream_ok trims ms fd tr \<longleftrightarrow> (\<exists>d. sender_ok fd tr d \<and> receiver_ok trims ms fd tr d) \<and>
     tcp_reads tr = messages (datagrams fd tr) \<and> prefix (tcp_writes tr) (concat (delivered tr))"

lemma weak_stream: "tunnel_weak trims ms us c \<Longrightarrow> stream_ok trims ms (us_socket_fd us) (c_trace c)"
  by (auto simp: tunnel_weak_def stream_ok_def)

lemma quiet_stream: "trace_ext quiet_event tr t \<Longrightarrow> stream_ok trims ms fd t = stream_ok trims ms fd tr"
  by (simp add: stream_ok_def quiet_streams)

lemma carried_over:
  assumes "stream_ok trims ms fd tr" and "heard_all (in_round trims ms) fd tr"
  shows "\<exists>ps. list_all2 (arrives_as trims) (take (length ps) ms) ps \<and> prefix (tcp_writes tr) (concat ps)"
    and "\<not> trims \<Longrightarrow> prefix (tcp_writes tr) (concat ms)"
proof -
  let ?ps = "delivered tr"
  from assms have ps: "list_all2 (arrives_as trims) (take (length ?ps) ms) ?ps" "prefix (tcp_writes tr) (concat ?ps)"
    by (auto simp: stream_ok_def receiver_ok_def Let_def)
  then show "\<exists>ps. list_all2 (arrives_as trims) (take (length ps) ms) ps \<and> prefix (tcp_writes tr) (concat ps)"
    by blast
  assume "\<not> trims"
  with ps(1) have "?ps = take (length ?ps) ms" by (simp add: arrives_uncut)
  then have "prefix (concat ?ps) (concat ms)"
    by (metis append_take_drop_id concat_append prefixI)
  with ps(2) show "prefix (tcp_writes tr) (concat ms)" by (rule prefix_order.trans)
qed

lemma fresh_run:
  assumes "chownat_tunnel_user cb fuel" and "fresh_tunnel us c" and "length buf = TCP_MTU_SIZE"
    and "\<forall>tr fd n. os_accept os tr fd = Inr n \<longrightarrow> int n < FD_SETSIZE"
    and "c' = snd (udp_connection os (chownat_api os cb fuel) e n buf c)"
  shows "tunnel_weak trims ms us c'"
  unfolding assms(5) by (rule chownat_tunnel_user.run_tunnel [OF assms(1) fresh_inv [OF assms(2)] assms(3)]) (use assms(4) in blast)

text \<open>Two traces and a network that is in time, or few messages.\<close>

definition stream_joined :: "int \<Rightarrow> trace \<Rightarrow> trace \<Rightarrow> bool" where
  "stream_joined fd a b \<longleftrightarrow>
     (\<exists>ps. list_all2 (arrives_as (asked fd a)) (take (length ps) (tcp_reads a)) ps \<and> prefix (tcp_writes b) (concat ps)) \<and>
     (\<not> asked fd a \<longrightarrow> prefix (tcp_writes b) (concat (tcp_reads a)))"

lemma join_in_time:
  assumes "\<And>trims ms. stream_ok trims ms fdA a" and "\<And>trims ms. stream_ok trims ms fdB b"
    and "heard_all (on_time (datagrams fdA a)) fdB b"
  shows "stream_joined fdA a b"
proof -
  obtain d where A: "sender_ok fdA a d" "tcp_reads a = messages (datagrams fdA a)"
    using assms(1) by (auto simp: stream_ok_def)
  have "heard_all (in_round (asked fdA a) (tcp_reads a)) fdB b"
    using assms(3) by (rule heard_all_mono) (simp add: A(2) on_time_in_round [OF A(1)])
  from carried_over [OF assms(2) this] show ?thesis by (simp add: stream_joined_def)
qed

lemma join_few:
  assumes "\<And>trims ms. stream_ok trims ms fdA a" and "\<And>trims ms. stream_ok trims ms fdB b"
    and "set (heard fdB b) \<subseteq> take 1027 ` set (datagrams fdA a)" and "length (tcp_reads a) < 256"
  shows "stream_joined fdA a b"
proof -
  obtain d where A: "sender_ok fdA a d" "tcp_reads a = messages (datagrams fdA a)"
    using assms(1) by (auto simp: stream_ok_def)
  have "heard_all (in_round (asked fdA a) (tcp_reads a)) fdB b"
    using heard_all_True by (rule heard_all_mono) (use assms(3,4) few_in_round [OF A(1)] in \<open>auto simp: A(2)\<close>)
  from carried_over [OF assms(2) this] show ?thesis by (simp add: stream_joined_def)
qed

text \<open>
  C3. Two tunnels joined by a network.  Whatever the network loses, repeats and reorders, as long as no
  packet is a round of sequence numbers away from the one expected, the bytes one tunnel writes to its
  TCP peer are the beginning of the blocks the other read from its own, in order, none lost in between
  and none twice; a block lacks its last three bytes only if the receiver asked for a retransmission,
  and without one the bytes are exactly a prefix of those read.  This holds at every moment of both
  runs of \<open>udp_connection\<close>, for every behaviour of the two systems.
\<close>

theorem chownat_tunnel_stream:
  assumes "chownat_tunnel_user cbA fuelA" and "fresh_tunnel usA a" and "length bufA = TCP_MTU_SIZE"
    and "\<forall>tr fd n. os_accept osA tr fd = Inr n \<longrightarrow> int n < FD_SETSIZE"
    and "a' = snd (udp_connection osA (chownat_api osA cbA fuelA) eA nA bufA a)"
    and "chownat_tunnel_user cbB fuelB" and "fresh_tunnel usB b" and "length bufB = TCP_MTU_SIZE"
    and "\<forall>tr fd n. os_accept osB tr fd = Inr n \<longrightarrow> int n < FD_SETSIZE"
    and "b' = snd (udp_connection osB (chownat_api osB cbB fuelB) eB nB bufB b)"
    and "heard_all (on_time (datagrams (us_socket_fd usA) (c_trace a'))) (us_socket_fd usB) (c_trace b')"
  shows "(\<exists>ps. list_all2 (arrives_as (asked (us_socket_fd usA) (c_trace a')))
             (take (length ps) (tcp_reads (c_trace a'))) ps \<and> prefix (tcp_writes (c_trace b')) (concat ps)) \<and>
     (\<not> asked (us_socket_fd usA) (c_trace a') \<longrightarrow>
        prefix (tcp_writes (c_trace b')) (concat (tcp_reads (c_trace a'))))"
  using join_in_time [OF fresh_run [OF assms(1-5), THEN weak_stream] fresh_run [OF assms(6-10), THEN weak_stream] assms(11)]
  unfolding stream_joined_def .

text \<open>
  With fewer than 256 blocks no packet can be mistaken for another, and nothing has to be assumed of
  the network but that it delivers datagrams that were sent.
\<close>

theorem chownat_tunnel_any_network:
  assumes "chownat_tunnel_user cbA fuelA" and "fresh_tunnel usA a" and "length bufA = TCP_MTU_SIZE"
    and "\<forall>tr fd n. os_accept osA tr fd = Inr n \<longrightarrow> int n < FD_SETSIZE"
    and "a' = snd (udp_connection osA (chownat_api osA cbA fuelA) eA nA bufA a)"
    and "chownat_tunnel_user cbB fuelB" and "fresh_tunnel usB b" and "length bufB = TCP_MTU_SIZE"
    and "\<forall>tr fd n. os_accept osB tr fd = Inr n \<longrightarrow> int n < FD_SETSIZE"
    and "b' = snd (udp_connection osB (chownat_api osB cbB fuelB) eB nB bufB b)"
    and "set (heard (us_socket_fd usB) (c_trace b')) \<subseteq> take 1027 ` set (datagrams (us_socket_fd usA) (c_trace a'))"
    and "length (tcp_reads (c_trace a')) < 256"
  shows "(\<exists>ps. list_all2 (arrives_as (asked (us_socket_fd usA) (c_trace a')))
             (take (length ps) (tcp_reads (c_trace a'))) ps \<and> prefix (tcp_writes (c_trace b')) (concat ps)) \<and>
     (\<not> asked (us_socket_fd usA) (c_trace a') \<longrightarrow>
        prefix (tcp_writes (c_trace b')) (concat (tcp_reads (c_trace a'))))"
  using join_few [OF fresh_run [OF assms(1-5), THEN weak_stream] fresh_run [OF assms(6-10), THEN weak_stream] assms(11,12)]
  unfolding stream_joined_def .

section \<open>A run of both\<close>

text \<open>
  The client's system answers the handshake and has two bytes to read; the server's hands over the
  handshake and the packet with the two bytes.  Both loops go round once.
\<close>

definition reading_os :: os where
  "reading_os = quiet_os\<lparr>os_recv := (\<lambda>tr fd dw. Inr (if fd = 3 then msg03 else [104, 105])),
     os_select := (\<lambda>tr fds tv. Inr [5])\<rparr>"

definition writing_os :: os where
  "writing_os = quiet_os\<lparr>os_recv := script_recv [Inr msg01, Inr msg03, Inr (data_packet 0 [104, 105]), Inr msg03],
     os_select := (\<lambda>tr fds tv. Inr [3])\<rparr>"

definition run_a :: "udp_test_app chownat_conn" where
  "run_a = snd (udp_connection reading_os (chownat_api reading_os (udp_conn_calback quiet_os 9 (Suc 0)) 257) 0
     (Suc (Suc 0)) (replicate 1024 0) (tunnel_conn CHR ''c'' fresh_data))"

definition run_b :: "udp_test_app chownat_conn" where
  "run_b = snd (udp_connection writing_os (chownat_api writing_os (udp_conn_calback quiet_os 9 (Suc 0)) 257) 0
     (Suc (Suc 0)) (replicate 1024 0) (tunnel_conn CHR ''s'' fresh_data))"

lemma demo_os [simp]:
  "os_recv reading_os = (\<lambda>tr fd dw. Inr (if fd = 3 then msg03 else [104, 105]))"
  "os_recv writing_os = script_recv [Inr msg01, Inr msg03, Inr (data_packet 0 [104, 105]), Inr msg03]"
  "os_select reading_os = (\<lambda>tr fds tv. Inr [5])" "os_select writing_os = (\<lambda>tr fds tv. Inr [3])"
  "os_setsockopt reading_os = os_setsockopt quiet_os" "os_bind reading_os = os_bind quiet_os"
  "os_listen reading_os = os_listen quiet_os" "os_accept reading_os = os_accept quiet_os"
  "os_sendto reading_os = os_sendto quiet_os" "os_clock reading_os = os_clock quiet_os"
  "os_garbage reading_os = os_garbage quiet_os" "os_accept writing_os = os_accept quiet_os"
  "os_sendto writing_os = os_sendto quiet_os" "os_clock writing_os = os_clock quiet_os"
  "os_send writing_os = os_send quiet_os" "os_connect writing_os = os_connect quiet_os"
  "os_garbage writing_os = os_garbage quiet_os"
  "os_close reading_os = os_close quiet_os" "os_close writing_os = os_close quiet_os"
  "os_setsockopt writing_os = os_setsockopt quiet_os" "os_bind writing_os = os_bind quiet_os"
  by (simp_all add: reading_os_def writing_os_def)

lemma fresh_slots [simp]: "length (cd_buffer fresh_data) = 256" "cd_buffer fresh_data \<noteq> []"
  by (simp_all add: fresh_data_def zero_buffer_def)

lemma strncmp_steps:
  "strncmp_eq 3 (a # b # c # x) (a' # b' # c' # y) = (a = a' \<and> (a \<noteq> 0 \<longrightarrow> b = b' \<and> (b \<noteq> 0 \<longrightarrow> c = c')))"
  "strncmp_eq 2 (a # b # x) (a' # b' # y) = (a = a' \<and> (a \<noteq> 0 \<longrightarrow> b = b'))"
  by (auto simp: numeral_3_eq_3 numeral_2_eq_2)

lemmas punching_steps = hole_punching_client.simps(2) [where attempts = 19, simplified]
  hole_punching_server.simps(3) [where attempts = 19 and fuel = 256, simplified]
  hole_punching_confirm.simps(3) [where attempts = 19 and fuel = 255, simplified]

lemmas run_steps = punching_steps strncmp_steps udp_connection_def setup_step_def tcp_bind_def tcp_bind_client_def
  tcp_bind_server_def chownat_hole_punching_def recv3_def start_loop_def monotonic_us_def conn_iter_def select_phase_def
  chownat_connect_def run_callback_def calback_body_def on_ready_def on_tcp_ready_def tcp_recv_def
  restart_interval_def with_clock_def wait_time_def remaining_us_def udp_fd_of_def tcp_fd_of_def fd_isset_def
  set_read_fds_def closed_def chownat_is_closed_def chownat_get_timeout_def fd_set_ok_def deliver_def
  chownat_udp_recv_def on_data_def tcp_send_def chownat_udp_send_def set_data_def next_seq_def chownat_api_def
  tunnel_conn_def test_conn_def test_session_def on_trace_eq sys_defs Let_def garbage_def overwrite_def
  script_recv_def msg_defs data_packet_def

lemma run_a_trace:
  "tcp_reads (c_trace run_a) = [[104, 105]]"
  "datagrams 3 (c_trace run_a) = [data_packet 0 [104, 105], msg03, msg01]" "\<not> asked 3 (c_trace run_a)"
  by (simp_all add: run_a_def run_steps asked_def)

lemma run_b_trace:
  "tcp_writes (c_trace run_b) = [104, 105]" "heard 3 (c_trace run_b) = [data_packet 0 [104, 105]]"
  "heard_all P 3 (c_trace run_b) = P 0 (data_packet 0 [104, 105])"
  by (simp_all add: run_b_def run_steps)

lemma demo_fresh: "fresh_tunnel test_session (tunnel_conn m fresh_data)"
  using tunnel_conn_open [of fresh_data m] by (auto simp: fresh_tunnel_def)

lemma demo_tunnel_user: "chownat_tunnel_user (udp_conn_calback quiet_os 9 (Suc 0)) 257"
  using test_tunnel.chownat_tunnel_user_axioms [of quiet_os 9 0 0] by simp

theorem chownat_tunnel_stream_witness:
  "prefix (tcp_writes (c_trace run_b)) (concat (tcp_reads (c_trace run_a))) \<and> tcp_writes (c_trace run_b) = [104, 105]"
  using chownat_tunnel_stream [OF demo_tunnel_user demo_fresh _ _ run_a_def demo_tunnel_user demo_fresh _ _ run_b_def]
  by (simp add: run_a_trace run_b_trace on_time_def parse_packet Let_def first_resent_def parse_control
      data_packet_def msg_defs)

theorem chownat_tunnel_any_network_witness:
  "prefix (tcp_writes (c_trace run_b)) (concat (tcp_reads (c_trace run_a)))"
  using chownat_tunnel_any_network [OF demo_tunnel_user demo_fresh _ _ run_a_def demo_tunnel_user demo_fresh _ _ run_b_def]
  by (simp add: run_a_trace run_b_trace)

section \<open>Recovery from a gap\<close>

lemma cut_is_packet:
  assumes "3 \<le> length x"
  shows "take (length x) (data_packet j x) = data_packet j (take (length x - 3) x)"
proof -
  obtain l where "length x = 3 + l" using assms le_Suc_ex by blast
  then show ?thesis by (simp add: data_packet_def msg_defs numeral_3_eq_3)
qed

lemma resent_arrivals:
  assumes "\<forall>x \<in> set ms. 3 \<le> length x"
  shows "map (\<lambda>j. take (length (ms ! j)) (data_packet (of_nat j) (ms ! j))) [n..<length ms] =
     map (arrival_bytes (map (\<lambda>x. take (length x - 3) x) ms)) (map Pkt [n..<length ms])"
  using assms by (auto simp: cut_is_packet)



end
