(* ===== verification/Utils.thy ===== *)
theory Utils
  imports Prelude
begin

text \<open>
  \<open>usage\<close> of \<open>common/utils/src/utils.c\<close>, which reads the command line of the programs.  An argument is
  the list of its bytes without the terminating zero, \<open>argv\<close> the list of the arguments.  \<open>atoi\<close> of the
  C library is written out: a value that does not fit an \<open>int\<close> is undefined behaviour.
\<close>

section \<open>Numbers\<close>

definition is_space :: "byte \<Rightarrow> bool" where
  "is_space b \<longleftrightarrow> b = 32 \<or> 9 \<le> b \<and> b \<le> 13"

definition is_digit :: "byte \<Rightarrow> bool" where
  "is_digit b \<longleftrightarrow> 48 \<le> b \<and> b \<le> 57"

fun leading_number :: "byte list \<Rightarrow> int \<Rightarrow> int" where
  "leading_number [] n = n"
| "leading_number (b # bs) n = (if is_digit b then leading_number bs (10 * n + (uint b - 48)) else n)"

definition atoi :: "byte list \<Rightarrow> int outcome" where
  "atoi s =
     (let t = dropWhile is_space s;
          n = (case t of [] \<Rightarrow> 0
               | b # bs \<Rightarrow> (if b = 45 then - leading_number bs 0
                            else if b = 43 then leading_number bs 0 else leading_number t 0))
      in if - (2 ^ 31) \<le> n \<and> n < 2 ^ 31 then Ret n else Fault)"

lemma leading_number_snoc:
  "list_all is_digit s \<Longrightarrow> is_digit b \<Longrightarrow>
     leading_number (s @ [b]) n = 10 * leading_number s n + (uint b - 48)"
  by (induction s arbitrary: n) auto

lemma digit_byte:
  assumes "n < 10"
  shows "is_digit (of_nat (48 + n))" and "uint (of_nat (48 + n) :: byte) = 48 + int n"
proof -
  have "unat (of_nat (48 + n) :: byte) = 48 + n" using assms by (simp add: unat_of_nat del: of_nat_add)
  then show "is_digit (of_nat (48 + n))" "uint (of_nat (48 + n) :: byte) = 48 + int n"
    using assms by (auto simp: is_digit_def word_le_nat_alt uint_nat simp del: of_nat_add)
qed

lemma decimal_number: "list_all is_digit (decimal n) \<and> decimal n \<noteq> [] \<and> leading_number (decimal n) 0 = int n"
proof (induction n rule: decimal.induct)
  case (1 n)
  show ?case
  proof (cases "n < 10")
    case True
    then show ?thesis using digit_byte [of n] by (simp add: decimal.simps [of n] del: of_nat_add)
  next
    case False
    then have "list_all is_digit (decimal (n div 10))" "leading_number (decimal (n div 10)) 0 = int (n div 10)"
      using 1 by auto
    moreover have "10 * int (n div 10) + int (n mod 10) = int n"
      by (metis mult_div_mod_eq of_nat_add of_nat_mult of_nat_numeral)
    ultimately show ?thesis
      using False digit_byte [of "n mod 10"]
      by (subst (1 2 3) decimal.simps) (simp add: leading_number_snoc del: of_nat_add)
  qed
qed

lemma atoi_decimal:
  assumes "int n < 2 ^ 31"
  shows "atoi (decimal n) = Ret (int n)"
proof -
  obtain b bs where d: "decimal n = b # bs" "is_digit b" using decimal_number [of n] by (cases "decimal n") auto
  then have "\<not> is_space b" "b \<noteq> 45" "b \<noteq> 43" by (auto simp: is_digit_def is_space_def word_le_nat_alt unat_arith_simps)
  then show ?thesis using d assms decimal_number [of n] by (simp add: atoi_def)
qed

section \<open>The command line\<close>

record usage_result =
  ur_DEBUG :: int
  ur_mode :: "byte list"
  ur_localport :: "int option"
  ur_remoteaddr :: "byte list"
  ur_remoteport :: int

text \<open>
  The index \<open>arg_idx\<close> is the rest of the argument list.  The leading \<open>-d\<close> are counted.
\<close>

fun skip_d :: "byte list list \<Rightarrow> int \<Rightarrow> int \<times> byte list list" where
  "skip_d [] n = (n, [])"
| "skip_d (a # as) n = (if a = ascii ''-d'' then skip_d as (n + 1) else (n, a # as))"

text \<open>\<open>wants_port\<close> says that the caller passed a pointer for the local port.\<close>

definition usage :: "bool \<Rightarrow> byte list list \<Rightarrow> usage_result outcome" where
  "usage wants_port argv =
     (let (n, as) = skip_d (drop 1 argv) 0;
          (dbg, as) = (case as of [] \<Rightarrow> (n, as) | a # as' \<Rightarrow> (if a = ascii ''-dd'' then (2, as') else (n, as)))
      in if length as < (if wants_port then 3 else 2) then Exited 1
         else let mode = as ! 0
              in if mode \<noteq> ascii ''-c'' \<and> mode \<noteq> ascii ''-s'' then Exited 1
                 else case (if wants_port then chain (atoi (as ! 1), ()) (\<lambda>p _. (Ret (Some p), ()))
                            else (Ret None, ())) of
                        (Ret port, _) \<Rightarrow>
                          (let rest = drop (if wants_port then 2 else 1) as
                           in case (if 1 < length rest then atoi (rest ! 1) else Ret 2222) of
                                Ret remote \<Rightarrow> Ret \<lparr>ur_DEBUG = dbg, ur_mode = mode, ur_localport = port,
                                                 ur_remoteaddr = rest ! 0, ur_remoteport = remote\<rparr>
                              | _ \<Rightarrow> Fault)
                      | _ \<Rightarrow> Fault)"

lemma skip_d_flags:
  "a \<noteq> ascii ''-d'' \<Longrightarrow> skip_d (replicate k (ascii ''-d'') @ a # as) n = (n + int k, a # as)"
  by (induction k arbitrary: n) auto

lemma skip_d_all: "skip_d (replicate k (ascii ''-d'')) n = (n + int k, [])"
  by (induction k arbitrary: n) auto

lemma flags_distinct:
  "ascii ''-c'' \<noteq> ascii ''-d''" "ascii ''-s'' \<noteq> ascii ''-d''" "ascii ''-c'' \<noteq> ascii ''-dd''"
  "ascii ''-s'' \<noteq> ascii ''-dd''" "ascii ''-dd'' \<noteq> ascii ''-d''"
  by (simp_all add: ascii_def)

text \<open>
  C37. A command line with any number of \<open>-d\<close>, an optional \<open>-dd\<close>, a mode, a port and a host printed in
  decimal is read back as it was written: the debug level is the number of \<open>-d\<close> or 2, the ports are
  the numbers printed, and 2222 is taken when no communication port follows.  Without a mode, port
  and host behind the flags, or with another mode, the program ends with status 1.
\<close>

theorem usage_reads_back:
  assumes "mode = ascii ''-c'' \<or> mode = ascii ''-s''" and "int l < 2 ^ 31" and "int p < 2 ^ 31"
    and "bad = [] \<or> hd bad \<noteq> ascii ''-d'' \<and> hd bad \<noteq> ascii ''-dd'' \<and>
      (length bad < 3 \<or> hd bad \<noteq> ascii ''-c'' \<and> hd bad \<noteq> ascii ''-s'')"
  shows "usage True (prog # replicate k (ascii ''-d'') @ (if dd then [ascii ''-dd''] else []) @
      [mode, decimal l, host] @ (if given then [decimal p] else [])) =
    Ret \<lparr>ur_DEBUG = (if dd then 2 else int k), ur_mode = mode, ur_localport = Some (int l), ur_remoteaddr = host,
         ur_remoteport = (if given then int p else 2222)\<rparr> \<and>
    usage True (prog # replicate k (ascii ''-d'') @ bad) = Exited 1"
proof
  have skip: "skip_d (replicate k (ascii ''-d'') @ (if dd then [ascii ''-dd''] else []) @ mode # as) 0 =
      (int k, (if dd then [ascii ''-dd''] else []) @ mode # as)" for as
    using assms(1) flags_distinct by (auto simp: skip_d_flags)
  have mode: "mode \<noteq> ascii ''-dd''" using assms(1) flags_distinct by auto
  show "usage True (prog # replicate k (ascii ''-d'') @ (if dd then [ascii ''-dd''] else []) @
      [mode, decimal l, host] @ (if given then [decimal p] else [])) =
    Ret \<lparr>ur_DEBUG = (if dd then 2 else int k), ur_mode = mode, ur_localport = Some (int l), ur_remoteaddr = host,
         ur_remoteport = (if given then int p else 2222)\<rparr>"
    using skip [of "decimal l # host # (if given then [decimal p] else [])"] mode assms
    by (auto simp: usage_def atoi_decimal)
  show "usage True (prog # replicate k (ascii ''-d'') @ bad) = Exited 1"
    using assms(4) by (cases bad) (auto simp: usage_def skip_d_flags skip_d_all)
qed

theorem usage_reads_back_witness:
  "usage True (map ascii [''chownat'', ''-d'', ''-d'', ''-s'', ''22'', ''10.0.0.20'', ''4000'']) =
     Ret \<lparr>ur_DEBUG = 2, ur_mode = ascii ''-s'', ur_localport = Some 22, ur_remoteaddr = ascii ''10.0.0.20'',
          ur_remoteport = 4000\<rparr> \<and>
   usage True (map ascii [''chownat'', ''-d'', ''-d'', ''-x'', ''22'', ''10.0.0.20'']) = Exited 1"
proof -
  have d: "decimal 22 = ascii ''22''" "decimal 4000 = ascii ''4000''"
    by (simp_all add: decimal.simps ascii_def)
  show ?thesis
    using usage_reads_back [of "ascii ''-s''" 22 4000 "map ascii [''-x'', ''22'', ''10.0.0.20'']" "ascii ''chownat''" 2
        False "ascii ''10.0.0.20''" True]
    by (simp add: d numeral_2_eq_2) (simp add: ascii_def)
qed

end
