(* ===== verification/Program.thy ===== *)
theory Program
  imports Conn_Spec Utils
begin

text \<open>
  The \<open>main\<close> functions of the programs under \<open>tests/WebRTC\<close>: the command line, the sockets, the
  sessions, and the session that is run and released.  They differ in the objects, the callback, the
  judgement at the end, and in whether a local TCP port is asked for; a program that asks for one has a
  tunnel.  \<open>inet_addr\<close> of the C library is a parameter; byte order is not modelled.
\<close>

section \<open>Setting up\<close>

definition open_socket :: "os \<Rightarrow> trace \<Rightarrow> int outcome \<times> trace" where
  "open_socket os tr = (case sys_socket os tr of (Inl e, tr') \<Rightarrow> (Exited 1, tr') | (Inr fd, tr') \<Rightarrow> (Ret fd, tr'))"

definition localhost :: "byte list" where
  "localhost = ascii ''127.0.0.1''"

text \<open>The sessions and the control block, filled from the command line.\<close>

definition peer_session :: "(byte list \<Rightarrow> 32 word) \<Rightarrow> usage_result \<Rightarrow> int \<Rightarrow> udp_session" where
  "peer_session inet_addr u fd =
     (let port = word_of_int (ur_remoteport u)
      in \<lparr>us_socket_fd = fd, us_ka_miss_threshold = 20,
          us_dst = \<lparr>sin_family = AF_INET, sin_addr = inet_addr (ur_remoteaddr u), sin_port = port\<rparr>,
          us_src = \<lparr>sin_family = AF_INET, sin_addr = 0, sin_port = port\<rparr>\<rparr>)"

definition local_session :: "(byte list \<Rightarrow> 32 word) \<Rightarrow> int \<Rightarrow> int \<Rightarrow> tcp_session" where
  "local_session inet_addr localport fd =
     \<lparr>ts_socket_fd = fd, ts_accepted_sock = -1, ts_reuse = 1,
      ts_local = \<lparr>sin_family = AF_INET, sin_addr = inet_addr localhost, sin_port = word_of_int localport\<rparr>\<rparr>"

definition mode_ctrl :: "byte list \<Rightarrow> udp_conn_ctrl" where
  "mode_ctrl mode = \<lparr>cc_mode = char_of (unat ((mode @ [0]) ! 1)), cc_init = 0, cc_read_fds = []\<rparr>"

definition set_up :: "os \<Rightarrow> (byte list \<Rightarrow> 32 word) \<Rightarrow> usage_result \<Rightarrow> ('c, 'd, 'a, unit) op" where
  "set_up os inet_addr u conn =
     chain (on_trace (open_socket os) conn) (\<lambda>udp_fd c1.
       let c2 = c1\<lparr>c_udp := Some (peer_session inet_addr u udp_fd), c_ctrl := Some (mode_ctrl (ur_mode u))\<rparr>
       in if ur_mode u = [] then (Fault, c1)
          else case ur_localport u of
            None \<Rightarrow> (Ret (), c2)
          | Some port \<Rightarrow> chain (on_trace (open_socket os) c2) (\<lambda>tcp_fd c3.
              (Ret (), c3\<lparr>c_tcp := Some (local_session inet_addr port tcp_fd)\<rparr>)))"

section \<open>Running\<close>

text \<open>The part of \<open>main\<close> behind the set-up; \<open>finish\<close> judges the session and releases it.\<close>

definition run_session ::
    "os \<Rightarrow> ('c, 'd, 'a) udp_conn_api \<Rightarrow> int \<Rightarrow> nat \<Rightarrow> byte list \<Rightarrow> (udp_conn_status \<Rightarrow> ('c, 'd, 'a, int) op)
       \<Rightarrow> ('c, 'd, 'a, int) op" where
  "run_session os api last_errno fuel buf finish conn =
     chain (udp_conn_init api conn) (\<lambda>st c1.
       if st \<noteq> UDP_CONN_OK then (Exited 1, c1)
       else chain (udp_connection os api last_errno fuel buf c1) finish)"

definition program ::
    "bool \<Rightarrow> os \<Rightarrow> (byte list \<Rightarrow> 32 word) \<Rightarrow> ('c, 'd, 'a, int) op \<Rightarrow> byte list list \<Rightarrow> ('c, 'd, 'a, int) op" where
  "program tunnel os inet_addr body argv conn =
     chain (usage tunnel argv, conn) (\<lambda>u c1. chain (set_up os inet_addr u c1) (\<lambda>_. body))"

section \<open>What the set-up leaves\<close>

lemma usage_Ret:
  assumes "usage tunnel argv = Ret u"
  shows "ur_mode u = ascii ''-c'' \<or> ur_mode u = ascii ''-s''" and "(ur_localport u = None) = (\<not> tunnel)"
  using assms
  by (auto simp: usage_def Let_def chain_Ret_iff split: prod.splits list.splits if_splits outcome.splits)

lemma usage_ends: "usage tunnel argv = Fault \<or> usage tunnel argv = Exited 1 \<or> (\<exists>u. usage tunnel argv = Ret u)"
  by (auto simp: usage_def Let_def split: prod.splits list.splits if_splits outcome.splits)

lemma mode_ctrl_mode: "cc_mode (mode_ctrl (ascii [CHR ''-'', m])) = m" "cc_init (mode_ctrl mode) = 0"
proof -
  have "unat (of_char m :: byte) = of_char m"
    using unat_of_nat [where 'a = 8 and x = "of_char m"] by (simp add: of_nat_of_char nat_of_char_less_256)
  then show "cc_mode (mode_ctrl (ascii [CHR ''-'', m])) = m" by (simp add: mode_ctrl_def ascii_def)
qed (simp add: mode_ctrl_def)

text \<open>
  A connection set up from the command line: the objects are those of the program, the sessions and
  the control block are new, and nothing has happened but sockets being created.
\<close>

definition small_sockets :: "os \<Rightarrow> bool" where
  "small_sockets os \<longleftrightarrow> (\<forall>tr n. os_socket os tr = Inr n \<longrightarrow> int n < FD_SETSIZE)"

definition socket_fd_ok :: "int \<Rightarrow> bool" where
  "socket_fd_ok fd \<longleftrightarrow> 0 \<le> fd \<and> fd < FD_SETSIZE"

definition set_up_conn ::
    "bool \<Rightarrow> (byte list \<Rightarrow> 32 word) \<Rightarrow> usage_result \<Rightarrow> ('c, 'd, 'a) udp_conn \<Rightarrow> ('c, 'd, 'a) udp_conn \<Rightarrow> bool" where
  "set_up_conn tunnel inet_addr u c0 c \<longleftrightarrow>
     trace_ext is_EvSocket (c_trace c0) (c_trace c) \<and>
     c_ctrl c = Some (mode_ctrl (ur_mode u)) \<and> c_callback c = c_callback c0 \<and> c_config c = c_config c0 \<and>
     c_data c = c_data c0 \<and> c_app c = c_app c0 \<and>
     (\<exists>fd. c_udp c = Some (peer_session inet_addr u fd) \<and> socket_fd_ok fd) \<and>
     (if tunnel then \<exists>port fd. c_tcp c = Some (local_session inet_addr port fd) \<and> socket_fd_ok fd
      else c_tcp c = c_tcp c0)"

lemma session_fields [simp]:
  "us_socket_fd (peer_session inet_addr u fd) = fd" "ts_socket_fd (local_session inet_addr port fd) = fd"
  "ts_accepted_sock (local_session inet_addr port fd) = -1"
  by (simp_all add: peer_session_def local_session_def Let_def)

lemma set_up_fds:
  assumes "set_up_conn tunnel inet_addr u c0 c" and "tunnel \<or> c_tcp c0 = None"
  shows "fds_ok c"
  using assms by (auto simp: set_up_conn_def fds_ok_def fd_ok_def socket_fd_ok_def split: if_splits)

lemma open_socket_leaves:
  assumes "small_sockets os"
  obtains e where "open_socket os tr = (Exited 1, EvSocket e # tr)"
    | fd e where "open_socket os tr = (Ret fd, EvSocket e # tr)" "socket_fd_ok fd"
  using assms
  by (cases "os_socket os tr") (auto simp: open_socket_def sys_defs Let_def small_sockets_def socket_fd_ok_def)

lemma set_up_cases:
  assumes "usage tunnel argv = Ret u" and "small_sockets os"
  obtains c1 where "set_up os inet_addr u c = (Exited 1, c1)" "trace_ext is_EvSocket (c_trace c) (c_trace c1)"
    | c1 where "set_up os inet_addr u c = (Ret (), c1)" "set_up_conn tunnel inet_addr u c c1"
proof (rule open_socket_leaves [OF assms(2), of "c_trace c"])
  fix fd e
  assume udp: "open_socket os (c_trace c) = (Ret fd, EvSocket e # c_trace c)" "socket_fd_ok fd"
  have mode: "ur_mode u \<noteq> []" using usage_Ret(1) [OF assms(1)] by (auto simp: ascii_def)
  show thesis
  proof (cases "ur_localport u")
    case None
    with udp mode usage_Ret(2) [OF assms(1)] show ?thesis
      by (intro that(2)) (auto simp: set_up_def on_trace_eq set_up_conn_def Let_def)
  next
    case (Some port)
    note usage = usage_Ret(2) [OF assms(1)]
    show ?thesis
    proof (rule open_socket_leaves [OF assms(2), of "EvSocket e # c_trace c"])
      fix f
      assume "open_socket os (EvSocket e # c_trace c) = (Exited 1, EvSocket f # EvSocket e # c_trace c)"
      with udp mode Some usage show ?thesis by (intro that(1)) (auto simp: set_up_def on_trace_eq Let_def)
    next
      fix tcp_fd f
      assume "open_socket os (EvSocket e # c_trace c) = (Ret tcp_fd, EvSocket f # EvSocket e # c_trace c)"
        "socket_fd_ok tcp_fd"
      with udp mode Some usage show ?thesis
        by (intro that(2)) (fastforce simp: set_up_def on_trace_eq set_up_conn_def Let_def)+
    qed
  qed
next
  fix e
  assume "open_socket os (c_trace c) = (Exited 1, EvSocket e # c_trace c)"
  then show thesis by (intro that(1)) (auto simp: set_up_def on_trace_eq)
qed

text \<open>A program ends before the session begins, or it is its body on a connection set up for it.\<close>

lemma program_cases:
  assumes "usage tunnel argv \<noteq> Fault" and "small_sockets os"
  obtains c1 where "program tunnel os inet_addr body argv c = (Exited 1, c1)" "trace_ext is_EvSocket (c_trace c) (c_trace c1)"
    | u c1 where "usage tunnel argv = Ret u" "set_up_conn tunnel inet_addr u c c1"
        "program tunnel os inet_addr body argv c = body c1"
proof (cases "\<exists>u. usage tunnel argv = Ret u")
  case True
  then obtain u where u: "usage tunnel argv = Ret u" by blast
  show thesis
    by (rule set_up_cases [OF u assms(2), of inet_addr c]) (use u that in \<open>auto simp: program_def\<close>)
next
  case False
  then have "usage tunnel argv = Exited 1" using usage_ends [of tunnel argv] assms(1) by blast
  then show thesis by (intro that(1)) (auto simp: program_def)
qed

section \<open>The session\<close>

lemma run_session_Ret:
  "run_session os api e fuel buf finish c = (Ret v, c') \<longleftrightarrow>
     (\<exists>c1 st c2. udp_conn_init api c = (Ret UDP_CONN_OK, c1) \<and>
        udp_connection os api e fuel buf c1 = (Ret st, c2) \<and> finish st c2 = (Ret v, c'))"
  by (auto simp: run_session_def chain_Ret_iff split: if_splits)

context udp_backend
begin

lemma run_session_keeps:
  assumes "keeps inv (udp_conn_init api c)" and "\<And>c1. udp_conn_init api c = (Ret UDP_CONN_OK, c1) \<Longrightarrow> pre c1"
    and "length buf = TCP_MTU_SIZE" and "\<And>tr fd n. os_accept os tr fd = Inr n \<Longrightarrow> int n < FD_SETSIZE"
    and "\<And>st c2. inv c2 \<Longrightarrow> keeps inv (finish st c2)"
  shows "keeps inv (run_session os api e fuel buf finish c)"
  unfolding run_session_def
proof (rule keeps_chain [OF assms(1)])
  fix st c1
  assume st: "udp_conn_init api c = (Ret st, c1)" "inv c1"
  have "keeps inv (chain (udp_connection os api e fuel buf c1) finish)" if "st = UDP_CONN_OK"
    using st that by (intro keeps_chain [OF udp_connection_keeps]) (use assms in blast)+
  with st(2) show "keeps inv (if st \<noteq> UDP_CONN_OK then (Exited 1, c1) else chain (udp_connection os api e fuel buf c1) finish)"
    by simp
qed

end

end
