(* ===== verification/Chownat_Programs.thy ===== *)
theory Chownat_Programs
  imports Chownat_Network Program
begin

text \<open>
  The programs over CHOWNAT under \<open>tests/WebRTC\<close>, from their command line to their exit status: the
  finite test \<open>test_chownat_udp\<close>, the tunnel \<open>test_chownat\<close>, and \<open>test_chownat_udp_close\<close>, whose client
  hangs up after 20 messages.
\<close>

section \<open>The programs\<close>

text \<open>The objects of a program, as its initialisers leave them.\<close>

definition chownat_globals :: "tcp_session option \<Rightarrow> 'a \<Rightarrow> 'a chownat_conn" where
  "chownat_globals tcp app = \<lparr>
     c_udp = Some \<lparr>us_socket_fd = 0, us_ka_miss_threshold = 0, us_dst = zero_addr, us_src = zero_addr\<rparr>,
     c_tcp = tcp, c_ctrl = Some \<lparr>cc_mode = CHR 0x00, cc_init = 0, cc_read_fds = []\<rparr>, c_callback = True,
     c_config = Some \<lparr>cf_udp_recv_timeout_sec = 1, cf_reuse = 1, cf_conn_max_attempts = 20, cf_dconn_max_attempts = 20\<rparr>,
     c_data = Some \<lparr>cd_closed = 0, cd_id = 0, cd_expected = 0, cd_buffer = zero_buffer, cd_sizes = zero_sizes\<rparr>,
     c_app = app, c_trace = []\<rparr>"

definition zero_tcp :: tcp_session where
  "zero_tcp = \<lparr>ts_socket_fd = 0, ts_accepted_sock = 0, ts_reuse = 0, ts_local = zero_addr\<rparr>"

text \<open>\<open>test_chownat_udp\<close>: the end of \<open>main\<close> and the program.\<close>

definition test_finish ::
    "(chownat_config, chownat_data, udp_test_app) udp_conn_api \<Rightarrow> udp_conn_status \<Rightarrow> (udp_test_app, int) chownat_op" where
  "test_finish api status conn =
     (case c_data conn of
        None \<Rightarrow> (Fault, conn)
      | Some d \<Rightarrow>
          (let incomplete = (status \<noteq> UDP_CONN_OK \<or> ap_completed_rounds (c_app conn) \<noteq> TEST_ROUNDS \<or> cd_closed d = 0);
               c1 = (if incomplete then conn\<lparr>c_app := (c_app conn)\<lparr>ap_test_failed := True\<rparr>\<rparr> else conn)
           in chain (udp_conn_deinit api c1) (\<lambda>st c2.
                (Ret (if st \<noteq> UDP_CONN_OK \<or> ap_test_failed (c_app c2) then 1 else 0), c2))))"

definition chownat_udp_program ::
    "os \<Rightarrow> (byte list \<Rightarrow> 32 word) \<Rightarrow> int \<Rightarrow> nat \<Rightarrow> nat \<Rightarrow> byte list \<Rightarrow> byte list list
       \<Rightarrow> int outcome \<times> udp_test_app chownat_conn" where
  "chownat_udp_program os inet_addr last_errno fuel depth buf argv =
     (let api = chownat_api os (udp_conn_calback os fuel depth) fuel
      in program False os inet_addr (run_session os api last_errno fuel buf (test_finish api)) argv
           (chownat_globals None \<lparr>ap_completed_rounds = 0, ap_test_failed = False\<rparr>))"

text \<open>
  \<open>test_chownat\<close>: the callback answers each message and waits a second, but not in a program with a
  tunnel, as this one is.  \<open>test_chownat_udp_close\<close>: the same without a tunnel and without the wait, and
  the client disconnects when it expects message 20.
\<close>

type_synonym plain_api = "(chownat_config, chownat_data, unit) udp_conn_api"

definition is_client :: "'a chownat_conn \<Rightarrow> bool" where
  "is_client conn = (case c_ctrl conn of None \<Rightarrow> False | Some k \<Rightarrow> cc_mode k = CHR ''c'')"

definition hello_reply :: "plain_api \<Rightarrow> (unit, unit) chownat_op" where
  "hello_reply api conn =
     (case c_data conn of
        None \<Rightarrow> (Fault, conn)
      | Some d \<Rightarrow>
          (let buf = decimal (nat (cd_expected d)) @
                 ascii (if is_client conn then '': Hello from client'' else '': Hello from server'')
           in chain (udp_conn_send api buf (Some 0) conn) (\<lambda>_ c. (Ret (), c))))"

definition hello_body :: "plain_api \<Rightarrow> unit chownat_callback" where
  "hello_body api reason data_in conn =
     (if c_tcp conn \<noteq> None then (Ret (), conn)
      else if reason = CHOWNAT_UDP_CONNECTED
      then chain (udp_conn_send api (ascii ''Hello World!'') (Some 0) conn) (\<lambda>_ c. (Ret (), c))
      else if reason = CHOWNAT_UDP_RECV_DATA
      then chain (hello_reply api conn) (\<lambda>_ c. (Ret (), c\<lparr>c_trace := msleep 1000 (c_trace c)\<rparr>))
      else (Ret (), conn))"

definition closing_body :: "plain_api \<Rightarrow> unit chownat_callback" where
  "closing_body api reason data_in conn =
     (if c_tcp conn \<noteq> None then (Ret (), conn)
      else if reason = CHOWNAT_UDP_CONNECTED
      then chain (udp_conn_send api (ascii ''Hello World!'') (Some 0) conn) (\<lambda>_ c. (Ret (), c))
      else if reason = CHOWNAT_UDP_RECV_DATA
      then chain (hello_reply api conn) (\<lambda>_ c.
             case c_data c of
               None \<Rightarrow> (Fault, c)
             | Some d \<Rightarrow>
                 (if is_client c \<and> 20 \<le> cd_expected d
                  then chain (udp_conn_disconnect api c) (\<lambda>_ c1. (Ret (), c1)) else (Ret (), c)))
      else (Ret (), conn))"

text \<open>A callback through the table it is called from; nested calls return at once.\<close>

fun nested :: "(plain_api \<Rightarrow> unit chownat_callback) \<Rightarrow> os \<Rightarrow> nat \<Rightarrow> nat \<Rightarrow> unit chownat_callback" where
  "nested body os fuel 0 reason data_in conn = (NoFuel, conn)"
| "nested body os fuel (Suc depth) reason data_in conn =
     body (chownat_api os (nested body os fuel depth) fuel) reason data_in conn"

text \<open>The end of both \<open>main\<close> functions: the status of the session is only printed.\<close>

definition plain_finish :: "plain_api \<Rightarrow> udp_conn_status \<Rightarrow> (unit, int) chownat_op" where
  "plain_finish api status conn = chain (udp_conn_deinit api conn) (\<lambda>_ c. (Ret 0, c))"

definition chownat_tunnel_program ::
    "os \<Rightarrow> (byte list \<Rightarrow> 32 word) \<Rightarrow> int \<Rightarrow> nat \<Rightarrow> nat \<Rightarrow> byte list \<Rightarrow> byte list list
       \<Rightarrow> int outcome \<times> unit chownat_conn" where
  "chownat_tunnel_program os inet_addr last_errno fuel depth buf argv =
     (let api = chownat_api os (nested hello_body os fuel depth) fuel
      in program True os inet_addr (run_session os api last_errno fuel buf (plain_finish api)) argv
           (chownat_globals (Some zero_tcp) ()))"

definition chownat_close_program ::
    "os \<Rightarrow> (byte list \<Rightarrow> 32 word) \<Rightarrow> int \<Rightarrow> nat \<Rightarrow> nat \<Rightarrow> byte list \<Rightarrow> byte list list
       \<Rightarrow> int outcome \<times> unit chownat_conn" where
  "chownat_close_program os inet_addr last_errno fuel depth buf argv =
     (let api = chownat_api os (nested closing_body os fuel depth) fuel
      in program False os inet_addr (run_session os api last_errno fuel buf (plain_finish api)) argv
           (chownat_globals None ()))"

section \<open>Their callbacks are well behaved\<close>

lemma hello_reply_keeps:
  assumes "chownat_user cb" and "chownat_inv c"
  shows "keeps chownat_inv (hello_reply (chownat_api os cb fuel) c)"
  using assms(2)
proof (rule chownat_invE)
  fix us cfg d k
  assume "c_data c = Some d" "c_ctrl c = Some k"
  with assms show ?thesis
    by (auto simp: hello_reply_def Let_def intro!: keeps_chain chownat_user.api_send_keeps)
qed

lemma hello_keeps:
  assumes "chownat_user cb" and "chownat_inv c"
  shows "keeps chownat_inv (hello_body (chownat_api os cb fuel) reason bs c)"
  using assms by (auto simp: hello_body_def intro!: keeps_chain hello_reply_keeps chownat_user.api_send_keeps)

lemma closing_keeps:
  assumes "chownat_user cb" and "chownat_inv c"
  shows "keeps chownat_inv (closing_body (chownat_api os cb fuel) reason bs c)"
proof -
  let ?api = "chownat_api os cb fuel"
  have bye: "keeps chownat_inv (case c_data c1 of None \<Rightarrow> (Fault, c1)
      | Some d \<Rightarrow> (if is_client c1 \<and> 20 \<le> cd_expected d
          then chain (udp_conn_disconnect ?api c1) (\<lambda>_ c2. (Ret (), c2)) else (Ret (), c1)))"
    if "chownat_inv c1" for c1
    using that by (rule chownat_invE) (use that assms(1) in \<open>auto intro!: keeps_chain chownat_user.api_disconnect_keeps\<close>)
  show ?thesis
    unfolding closing_body_def
    using assms by (auto intro!: keeps_chain [OF chownat_user.api_send_keeps] keeps_chain [OF hello_reply_keeps] bye)
qed

lemma nested_user:
  fixes body :: "plain_api \<Rightarrow> unit chownat_callback"
  assumes "\<forall>cb os fuel reason bs c. chownat_user cb \<longrightarrow> chownat_inv c \<longrightarrow>
    keeps chownat_inv (body (chownat_api os cb fuel) reason bs c)"
  shows "chownat_user (nested body os fuel depth)"
proof (induction depth)
  case 0
  show ?case by unfold_locales simp
next
  case (Suc depth)
  show ?case by unfold_locales (simp add: Suc assms)
qed

lemma hello_passive: "passive_user (nested hello_body os fuel (Suc depth))"
  by (auto simp: passive_user_def hello_body_def intro: exI [of _ "()"])

interpretation hello: chownat_tunnel_user "nested hello_body os' n (Suc depth)" os "n' + 257"
  for os' n depth os n'
  using nested_user [of hello_body os' n "Suc depth"]
  by (simp add: chownat_tunnel_user_def chownat_tunnel_user_axioms_def hello_passive hello_keeps del: nested.simps)

interpretation closing: chownat_user "nested closing_body os n depth" for os n depth
  by (rule nested_user) (simp add: closing_keeps)

section \<open>From the command line to the session\<close>

lemma chownat_globals_inv:
  assumes "set_up_conn tunnel inet_addr u (chownat_globals ts app) c" and "tunnel \<or> ts = None"
  shows "chownat_inv c"
proof -
  have "fds_ok c" using set_up_fds [OF assms(1)] assms(2) by (simp add: chownat_globals_def)
  then show ?thesis using assms(1) by (auto simp: chownat_inv_def set_up_conn_def chownat_globals_def mode_ctrl_mode)
qed

text \<open>A program ends before the session begins, or is its body on a connection that was set up.\<close>

lemma chownat_program_rule:
  assumes "usage tunnel argv \<noteq> Fault" and "small_sockets os" and "tunnel \<or> ts = None"
    and "\<And>c1. trace_ext is_EvSocket [] (c_trace c1) \<Longrightarrow> P (Exited 1, c1)"
    and "\<And>u c1. set_up_conn tunnel inet_addr u (chownat_globals ts app) c1 \<Longrightarrow> chownat_inv c1 \<Longrightarrow> P (body c1)"
  shows "P (program tunnel os inet_addr body argv (chownat_globals ts app))"
proof (rule program_cases [OF assms(1,2), of inet_addr body "chownat_globals ts app"])
  fix c1 :: "'a chownat_conn"
  assume "program tunnel os inet_addr body argv (chownat_globals ts app) = (Exited 1, c1)"
    "trace_ext is_EvSocket (c_trace (chownat_globals ts app)) (c_trace c1)"
  with assms(4) [of c1] show ?thesis by (simp add: chownat_globals_def)
next
  fix u and c1 :: "'a chownat_conn"
  assume c1: "set_up_conn tunnel inet_addr u (chownat_globals ts app) c1"
    "program tunnel os inet_addr body argv (chownat_globals ts app) = body c1"
  from assms(5) [OF c1(1) chownat_globals_inv [OF c1(1) assms(3)]] show ?thesis by (simp add: c1(2))
qed

lemma chownat_api_wrappers:
  "udp_conn_init (chownat_api os cb fuel) = chownat_init os" "udp_conn_deinit (chownat_api os cb fuel) = chownat_deinit os"
  by (simp_all add: fun_eq_iff udp_conn_init_def udp_conn_deinit_def chownat_api_def)

lemma chownat_session_keeps:
  assumes "chownat_user cb" and "chownat_inv c" and "length buf = TCP_MTU_SIZE"
    and "\<forall>tr fd n. os_accept os tr fd = Inr n \<longrightarrow> int n < FD_SETSIZE"
    and "\<And>st c2. chownat_inv c2 \<Longrightarrow> keeps chownat_inv (finish st c2)"
  shows "keeps chownat_inv (run_session os (chownat_api os cb fuel) e fuel buf finish c)"
proof (rule udp_backend.run_session_keeps [OF chownat_backend [OF assms(1)]])
  show "keeps chownat_inv (udp_conn_init (chownat_api os cb fuel) c)"
    unfolding chownat_api_wrappers by (rule init_keeps [OF assms(2)])
  then show "chownat_inv c1" if "udp_conn_init (chownat_api os cb fuel) c = (Ret UDP_CONN_OK, c1)" for c1
    using that by simp
qed (use assms(3-5) in auto)

lemma test_finish_keeps:
  assumes "chownat_inv c"
  shows "keeps chownat_inv (test_finish (chownat_api os cb fuel) st c)"
  using assms
  by (rule chownat_invE) (use assms in \<open>auto simp: test_finish_def chownat_api_wrappers Let_def intro!: keeps_chain deinit_keeps\<close>)

lemma plain_finish_keeps:
  "chownat_inv c \<Longrightarrow> keeps chownat_inv (plain_finish (chownat_api os cb fuel) st c)"
  by (auto simp: plain_finish_def chownat_api_wrappers intro!: keeps_chain deinit_keeps)

lemma deinit_app: "c_app (snd (chownat_deinit os c)) = c_app c"
  by (auto simp: chownat_deinit_def chownat_disconnect_send_def close_positive_def close_tcp_guarded_def
      finish_disconnect_def set_data_def on_trace_eq Let_def split: option.split)

section \<open>The finite test\<close>

lemma test_finish_success:
  assumes "test_finish (chownat_api os cb fuel) st c = (Ret 0, c')"
  shows "st = UDP_CONN_OK \<and> ap_completed_rounds (c_app c') = TEST_ROUNDS \<and> \<not> ap_test_failed (c_app c') \<and>
    (\<exists>d. c_data c' = Some d \<and> cd_closed d \<noteq> 0)"
proof -
  obtain d where d: "c_data c = Some d" using assms by (auto simp: test_finish_def split: option.splits)
  define inc where "inc = (st \<noteq> UDP_CONN_OK \<or> ap_completed_rounds (c_app c) \<noteq> TEST_ROUNDS \<or> cd_closed d = 0)"
  define c1 where "c1 = (if inc then c\<lparr>c_app := (c_app c)\<lparr>ap_test_failed := True\<rparr>\<rparr> else c)"
  have "test_finish (chownat_api os cb fuel) st c = chain (chownat_deinit os c1) (\<lambda>s c2.
      (Ret (if s \<noteq> UDP_CONN_OK \<or> ap_test_failed (c_app c2) then 1 else 0), c2))"
    using d by (simp add: test_finish_def chownat_api_wrappers c1_def inc_def Let_def)
  with assms have run: "chownat_deinit os c1 = (Ret UDP_CONN_OK, c')" "\<not> ap_test_failed (c_app c')"
    by (auto simp: chain_Ret_iff split: if_splits)
  have app: "c_app c' = c_app c1" using deinit_app [of os c1] run(1) by simp
  with run(2) have "\<not> inc" by (auto simp: c1_def)
  then have "c1 = c" "cd_closed d \<noteq> 0" by (simp_all add: c1_def inc_def)
  then have "c_data c' = Some d"
    using run(1) d by (auto simp: chownat_deinit_def close_positive_def on_trace_eq Let_def split: option.splits if_splits)
  with app run(2) \<open>\<not> inc\<close> \<open>c1 = c\<close> \<open>cd_closed d \<noteq> 0\<close> show ?thesis by (simp add: inc_def)
qed



section \<open>The tunnel\<close>

definition udp_socket :: "'a chownat_conn \<Rightarrow> int" where
  "udp_socket c = us_socket_fd (the (c_udp c))"

lemma quiet_stream_start:
  assumes "trace_ext quiet_event [] tr"
  shows "stream_ok trims ms fd tr"
proof -
  have "sender_ok fd [] fresh_data \<and> receiver_ok trims ms fd [] fresh_data"
    by (simp add: sender_ok_def receiver_ok_def fresh_data_def stored_fresh)
  then have "stream_ok trims ms fd []" by (auto simp: stream_ok_def)
  then show ?thesis using quiet_stream [OF assms] by simp
qed

lemma sockets_quiet: "trace_ext is_EvSocket [] tr \<Longrightarrow> trace_ext quiet_event [] tr"
  by (erule trace_ext_mono) (auto simp: is_EvSocket_def)

lemma init_quiet: "trace_ext quiet_event (c_trace c) (c_trace (snd (chownat_init os c)))"
  by (auto simp: chownat_init_def on_trace_eq Let_def split: option.split)

lemma init_open:
  assumes "chownat_init os c = (Ret UDP_CONN_OK, c')" and "chownat_inv c" and "c_tcp c \<noteq> None"
  shows "\<exists>us d. open_conn us d c' \<and> cd_id d = 0 \<and> cd_expected d = 0"
proof -
  have "chownat_inv c'" using init_keeps [OF assms(2), of os] assms(1) by simp
  with assms(1,3) show ?thesis
    by (auto simp: chownat_init_def open_conn_def on_trace_eq Let_def split: option.splits if_splits)
qed

text \<open>A step of which only the trace and the UDP session matter.\<close>

definition quietly :: "'a chownat_conn \<Rightarrow> 'a chownat_conn \<Rightarrow> bool" where
  "quietly c c' \<longleftrightarrow> trace_ext quiet_event (c_trace c) (c_trace c') \<and> c_udp c' = c_udp c"

lemma quietly_refl [simp]: "quietly c c"
  by (simp add: quietly_def)

lemma quietly_chain:
  assumes "quietly c (snd r)" and "\<And>a s. quietly c s \<Longrightarrow> quietly c (snd (k a s))"
  shows "quietly c (snd (chain r k))"
  using assms by (cases "(r, k)" rule: chain.cases) auto

lemma quietly_steps [simp]:
  "quietly c c' \<Longrightarrow> quietly c (close_positive os fd c')" "quietly c (c'\<lparr>c_ctrl := k\<rparr>) = quietly c c'"
  by (auto simp: quietly_def close_positive_def on_trace_eq)

lemma disconnect_quietly: "quietly c (snd (chownat_disconnect_send os c))"
  using disconnect_send_quiet [of c os] by (simp add: quietly_def quiet_step_def)

lemma deinit_quiet: "quietly c (snd (chownat_deinit os c))"
  by (auto simp: chownat_deinit_def Let_def disconnect_quietly intro!: quietly_chain split: option.split)

lemma chownat_tunnel_session:
  assumes "chownat_tunnel_user cb fuel" and "chownat_inv c" and "c_tcp c \<noteq> None" and "trace_ext quiet_event [] (c_trace c)"
    and "length buf = TCP_MTU_SIZE" and "\<forall>tr fd n. os_accept os tr fd = Inr n \<longrightarrow> int n < FD_SETSIZE"
    and "r = run_session os (chownat_api os cb fuel) e n buf (plain_finish (chownat_api os cb fuel)) c"
  shows "stream_ok trims ms (udp_socket (snd r)) (c_trace (snd r))"
proof -
  let ?api = "chownat_api os cb fuel"
  obtain st c1 where init: "chownat_init os c = (st, c1)" by fastforce
  have q1: "trace_ext quiet_event [] (c_trace c1)" using init_quiet [of c os] init assms(4) by (auto intro: trace_ext_trans)
  show ?thesis
  proof (cases "st = Ret UDP_CONN_OK")
    case False
    then have "snd r = c1"
      using init by (cases st) (auto simp: assms(7) run_session_def chownat_api_wrappers)
    then show ?thesis using quiet_stream_start [OF q1] by simp
  next
    case True
    then obtain us where fresh: "fresh_tunnel us c1"
      using init_open [of os c c1] init assms(2,3) q1 by (auto simp: fresh_tunnel_def)
    let ?run = "udp_connection os ?api e n buf c1"
    have weak: "tunnel_weak trims ms us (snd ?run)" by (rule fresh_run [OF assms(1) fresh assms(5,6) refl])
    have "r = chain ?run (plain_finish ?api)"
      using init True by (simp add: assms(7) run_session_def chownat_api_wrappers)
    moreover have "quietly (snd ?run) (snd (chain ?run (plain_finish ?api)))"
      by (cases "(?run, plain_finish ?api)" rule: chain.cases)
         (auto simp: plain_finish_def chownat_api_wrappers deinit_quiet intro!: quietly_chain)
    ultimately have "quietly (snd ?run) (snd r)" by simp
    then have "trace_ext quiet_event (c_trace (snd ?run)) (c_trace (snd r))" "udp_socket (snd r) = us_socket_fd us"
      using weak by (simp_all add: quietly_def udp_socket_def tunnel_weak_def)
    with quiet_stream [OF this(1)] weak_stream [OF weak] show ?thesis by simp
  qed
qed

lemma hello_tunnel_user: "256 < fuel \<Longrightarrow> 0 < depth \<Longrightarrow> chownat_tunnel_user (nested hello_body os n depth) fuel"
  using hello.chownat_tunnel_user_axioms [of os n "depth - 1" "fuel - 257"] by simp

lemma program_stream:
  assumes "usage True argv \<noteq> Fault" and "small_sockets os" and "256 < fuel" and "0 < depth" and "length buf = TCP_MTU_SIZE"
    and "\<forall>tr fd n. os_accept os tr fd = Inr n \<longrightarrow> int n < FD_SETSIZE"
    and "c = snd (chownat_tunnel_program os inet_addr e fuel depth buf argv)"
  shows "stream_ok trims ms (udp_socket c) (c_trace c)"
  unfolding assms(7) chownat_tunnel_program_def Let_def
proof (rule chownat_program_rule [OF assms(1,2), where P = "\<lambda>r. stream_ok trims ms (udp_socket (snd r)) (c_trace (snd r))"])
  show "stream_ok trims ms (udp_socket (snd (Exited 1, c1))) (c_trace (snd (Exited 1, c1)))"
    if "trace_ext is_EvSocket [] (c_trace c1)" for c1 :: "unit chownat_conn"
    using quiet_stream_start [OF sockets_quiet [OF that]] by simp
  fix u and c1 :: "unit chownat_conn"
  let ?api = "chownat_api os (nested hello_body os fuel depth) fuel"
  assume c1: "set_up_conn True inet_addr u (chownat_globals (Some zero_tcp) ()) c1" "chownat_inv c1"
  then have "c_tcp c1 \<noteq> None" "trace_ext quiet_event [] (c_trace c1)"
    by (auto simp: set_up_conn_def chownat_globals_def sockets_quiet)
  from chownat_tunnel_session [OF hello_tunnel_user [OF assms(3,4)] c1(2) this assms(5,6) refl]
  show "stream_ok trims ms (udp_socket (snd (run_session os ?api e fuel buf (plain_finish ?api) c1)))
      (c_trace (snd (run_session os ?api e fuel buf (plain_finish ?api) c1)))" .
qed simp

text \<open>
  C1. Two tunnel programs, from their command lines on, joined by a network.  Whatever the network loses,
  repeats and reorders, as long as no packet is a round of sequence numbers away from the one expected,
  the bytes one program writes to its TCP peer are the beginning of the blocks the other read from its
  own, in order, none lost in between and none twice; a block lacks its last three bytes only if the
  receiver asked for a retransmission, and without one the bytes are exactly a prefix of those read.
  This holds at every moment of both runs and for every behaviour of the two systems.
\<close>

theorem chownat_programs_stream:
  assumes "usage True argvA \<noteq> Fault" and "small_sockets osA" and "256 < fuelA" and "0 < depthA" and "length bufA = TCP_MTU_SIZE"
    and "\<forall>tr fd n. os_accept osA tr fd = Inr n \<longrightarrow> int n < FD_SETSIZE"
    and "a = snd (chownat_tunnel_program osA inetA eA fuelA depthA bufA argvA)"
    and "usage True argvB \<noteq> Fault" and "small_sockets osB" and "256 < fuelB" and "0 < depthB" and "length bufB = TCP_MTU_SIZE"
    and "\<forall>tr fd n. os_accept osB tr fd = Inr n \<longrightarrow> int n < FD_SETSIZE"
    and "b = snd (chownat_tunnel_program osB inetB eB fuelB depthB bufB argvB)"
    and "heard_all (on_time (datagrams (udp_socket a) (c_trace a))) (udp_socket b) (c_trace b)"
  shows "(\<exists>ps. list_all2 (arrives_as (asked (udp_socket a) (c_trace a)))
             (take (length ps) (tcp_reads (c_trace a))) ps \<and> prefix (tcp_writes (c_trace b)) (concat ps)) \<and>
     (\<not> asked (udp_socket a) (c_trace a) \<longrightarrow> prefix (tcp_writes (c_trace b)) (concat (tcp_reads (c_trace a))))"
  using join_in_time [OF program_stream [OF assms(1-7)] program_stream [OF assms(8-14)] assms(15)]
  unfolding stream_joined_def .

text \<open>Two programs whose systems hand over two bytes and then fail the second \<open>select\<close>.\<close>

definition once_ready :: "nat \<Rightarrow> os \<Rightarrow> os" where
  "once_ready fd os = os\<lparr>os_socket := (\<lambda>tr. Inr (if tr = [] then 3 else 4)),
     os_select := (\<lambda>tr fds tv. if list_ex is_EvSelect tr then Inl EBADF else Inr [int fd])\<rparr>"

definition args_a :: "byte list list" where
  "args_a = map ascii [''test_chownat'', ''-c'', ''22'', ''10.0.0.20'']"

definition args_b :: "byte list list" where
  "args_b = map ascii [''test_chownat'', ''-s'', ''22'', ''10.0.0.30'']"

definition program_a :: "unit chownat_conn" where
  "program_a = snd (chownat_tunnel_program (once_ready 5 reading_os) (\<lambda>host. 7) 0 257 1 (replicate 1024 0) args_a)"

definition program_b :: "unit chownat_conn" where
  "program_b = snd (chownat_tunnel_program (once_ready 3 writing_os) (\<lambda>host. 7) 0 257 1 (replicate 1024 0) args_b)"

lemma once_ready_simps [simp]:
  "os_socket (once_ready fd os) = (\<lambda>tr. Inr (if tr = [] then 3 else 4))"
  "os_select (once_ready fd os) = (\<lambda>tr fds tv. if list_ex is_EvSelect tr then Inl EBADF else Inr [int fd])"
  "os_recv (once_ready fd os) = os_recv os" "os_accept (once_ready fd os) = os_accept os"
  "os_setsockopt (once_ready fd os) = os_setsockopt os" "os_bind (once_ready fd os) = os_bind os"
  "os_listen (once_ready fd os) = os_listen os" "os_sendto (once_ready fd os) = os_sendto os"
  "os_clock (once_ready fd os) = os_clock os" "os_connect (once_ready fd os) = os_connect os"
  "os_send (once_ready fd os) = os_send os" "os_close (once_ready fd os) = os_close os"
  "os_garbage (once_ready fd os) = os_garbage os"
  by (simp_all add: once_ready_def)

lemma demo_usage:
  "usage True args_a =
     Ret \<lparr>ur_DEBUG = 0, ur_mode = ascii ''-c'', ur_localport = Some 22, ur_remoteaddr = ascii ''10.0.0.20'', ur_remoteport = 2222\<rparr>"
  "usage True args_b =
     Ret \<lparr>ur_DEBUG = 0, ur_mode = ascii ''-s'', ur_localport = Some 22, ur_remoteaddr = ascii ''10.0.0.30'', ur_remoteport = 2222\<rparr>"
  by code_simp+

lemma demo_usage_mode: "ascii ''-c'' \<noteq> []" "ascii ''-s'' \<noteq> []" "zero_buffer \<noteq> []"
  by (simp_all add: ascii_def zero_buffer_def)

lemmas numeral_steps = conn_loop.simps(2) [where fuel = "pred_numeral k" for k, folded numeral_eq_Suc]
  tcp_send_loop.simps(3) [where fuel = "pred_numeral k" for k, folded numeral_eq_Suc]
  drain.simps(2) [where fuel = "pred_numeral k" for k, folded numeral_eq_Suc]
  disconnect_send_loop.simps(2) [where attempts = 19, simplified]

lemmas program_steps = chownat_tunnel_program_def program_def demo_usage demo_usage_mode set_up_def open_socket_def
  mode_ctrl_mode on_trace_eq sys_defs Let_def chownat_globals_def peer_session_def local_session_def run_session_def
  chownat_api_wrappers chownat_init_def

lemmas session_steps = run_steps numeral_steps mode_ctrl_mode demo_usage_mode hello_body_def plain_finish_def
  udp_conn_deinit_def chownat_deinit_def close_tcp_guarded_def close_positive_def finish_disconnect_def
  chownat_disconnect_send_def udp_socket_def

lemma program_a_trace:
  "tcp_reads (c_trace program_a) = [[104, 105]]"
  "datagrams (udp_socket program_a) (c_trace program_a) = [msg03, msg02, data_packet 0 [104, 105], msg03, msg01]"
  "\<not> asked (udp_socket program_a) (c_trace program_a)"
  by (simp_all add: program_a_def program_steps) (simp_all add: session_steps asked_def)

lemma program_b_trace:
  "tcp_writes (c_trace program_b) = [104, 105]"
  "heard_all P (udp_socket program_b) (c_trace program_b) = P 0 (data_packet 0 [104, 105])"
  by (simp_all add: program_b_def program_steps) (simp_all add: session_steps)

theorem chownat_programs_stream_witness:
  "prefix (tcp_writes (c_trace program_b)) (concat (tcp_reads (c_trace program_a))) \<and> tcp_writes (c_trace program_b) = [104, 105]"
proof -
  have "usage True args_a \<noteq> Fault" "usage True args_b \<noteq> Fault" by (simp_all add: demo_usage)
  moreover have "small_sockets (once_ready fd os)" for fd os by (simp add: small_sockets_def)
  ultimately show ?thesis
    using chownat_programs_stream [OF _ _ _ _ _ _ program_a_def _ _ _ _ _ _ program_b_def]
    by (simp add: program_a_trace program_b_trace on_time_def parse_packet Let_def first_resent_def parse_control
        data_packet_def msg_defs)
qed

end
