(* ===== verification/Openssl.thy ===== *)
theory Openssl
  imports Posix
begin

text \<open>
  The OpenSSL library as a parameter.  An \<open>ssl_lib\<close> answers every call by a function of the whole
  history, like \<open>os\<close> does for the system; nothing is assumed about the answers except what the
  interface documents: a new object is none of the objects in use (the model names it by the length
  of the trace at its creation), no more bytes are read or written than asked for, and freeing
  \<open>NULL\<close> does nothing.  A \<open>NULL\<close> pointer is passed on to the library like any other argument.

  The observers say which objects a trace created and has not freed, and whether every call was given
  an object in use.
\<close>

record ssl_lib =
  lib_ctx_new :: "trace \<Rightarrow> bool \<Rightarrow> bool"
  lib_ctx_set :: "trace \<Rightarrow> ptr \<Rightarrow> ctx_setting \<Rightarrow> int"
  lib_new :: "trace \<Rightarrow> ptr \<Rightarrow> bool"
  lib_new_listener :: "trace \<Rightarrow> ptr \<Rightarrow> bool"
  lib_set_fd :: "trace \<Rightarrow> ptr \<Rightarrow> int \<Rightarrow> int"
  lib_listen :: "trace \<Rightarrow> ptr \<Rightarrow> int"
  lib_set_blocking_mode :: "trace \<Rightarrow> ptr \<Rightarrow> int \<Rightarrow> int"
  lib_connect :: "trace \<Rightarrow> ptr \<Rightarrow> int"
  lib_accept_connection :: "trace \<Rightarrow> ptr \<Rightarrow> bool"
  lib_handle_events :: "trace \<Rightarrow> ptr \<Rightarrow> int"
  lib_shutdown :: "trace \<Rightarrow> ptr \<Rightarrow> int"
  lib_get_error :: "trace \<Rightarrow> ptr \<Rightarrow> int \<Rightarrow> int"
  lib_get_conn_close_info :: "trace \<Rightarrow> ptr \<Rightarrow> (nat \<times> nat) option"
  lib_get_event_timeout :: "trace \<Rightarrow> ptr \<Rightarrow> (int \<times> int \<times> bool) option"
  lib_net_write_desired :: "trace \<Rightarrow> ptr \<Rightarrow> bool"
  lib_write_ex :: "trace \<Rightarrow> ptr \<Rightarrow> byte list \<Rightarrow> nat option"
  lib_read_ex :: "trace \<Rightarrow> ptr \<Rightarrow> nat \<Rightarrow> byte list option"
  lib_pending :: "trace \<Rightarrow> ptr \<Rightarrow> nat"

abbreviation (input) SSL_ERROR_WANT_READ :: int where "SSL_ERROR_WANT_READ \<equiv> 2"
abbreviation (input) SSL_ERROR_WANT_WRITE :: int where "SSL_ERROR_WANT_WRITE \<equiv> 3"

named_theorems ssl_defs "unfoldings of the OpenSSL wrappers"

section \<open>Calls\<close>

definition fresh :: "bool \<Rightarrow> trace \<Rightarrow> ptr" where
  "fresh ok tr = (if ok then Some (length tr) else None)"

definition SSL_CTX_new :: "ssl_lib \<Rightarrow> bool \<Rightarrow> trace \<Rightarrow> ptr \<times> trace" where
  [ssl_defs]: "SSL_CTX_new lib srv tr =
     (let r = fresh (lib_ctx_new lib tr srv) tr in (r, EvSsl (Ctx_new srv r) # tr))"

definition SSL_CTX_set :: "ssl_lib \<Rightarrow> ptr \<Rightarrow> ctx_setting \<Rightarrow> trace \<Rightarrow> int \<times> trace" where
  [ssl_defs]: "SSL_CTX_set lib p x tr = (let r = lib_ctx_set lib tr p x in (r, EvSsl (Ctx_set p x r) # tr))"

definition SSL_CTX_free :: "ptr \<Rightarrow> trace \<Rightarrow> trace" where
  [ssl_defs]: "SSL_CTX_free p tr = (case p of None \<Rightarrow> tr | Some h \<Rightarrow> EvSsl (Ctx_free h) # tr)"

definition SSL_new :: "ssl_lib \<Rightarrow> ptr \<Rightarrow> trace \<Rightarrow> ptr \<times> trace" where
  [ssl_defs]: "SSL_new lib p tr = (let r = fresh (lib_new lib tr p) tr in (r, EvSsl (Ssl_new p r) # tr))"

definition SSL_new_listener :: "ssl_lib \<Rightarrow> ptr \<Rightarrow> trace \<Rightarrow> ptr \<times> trace" where
  [ssl_defs]: "SSL_new_listener lib p tr =
     (let r = fresh (lib_new_listener lib tr p) tr in (r, EvSsl (Ssl_new_listener p r) # tr))"

definition SSL_set_fd :: "ssl_lib \<Rightarrow> ptr \<Rightarrow> int \<Rightarrow> trace \<Rightarrow> int \<times> trace" where
  [ssl_defs]: "SSL_set_fd lib p fd tr = (let r = lib_set_fd lib tr p fd in (r, EvSsl (Ssl_set_fd p fd r) # tr))"

definition SSL_set_connect_state :: "ptr \<Rightarrow> trace \<Rightarrow> trace" where
  [ssl_defs]: "SSL_set_connect_state p tr = EvSsl (Ssl_set_connect_state p) # tr"

definition SSL_listen :: "ssl_lib \<Rightarrow> ptr \<Rightarrow> trace \<Rightarrow> int \<times> trace" where
  [ssl_defs]: "SSL_listen lib p tr = (let r = lib_listen lib tr p in (r, EvSsl (Ssl_listen p r) # tr))"

definition SSL_set_blocking_mode :: "ssl_lib \<Rightarrow> ptr \<Rightarrow> int \<Rightarrow> trace \<Rightarrow> int \<times> trace" where
  [ssl_defs]: "SSL_set_blocking_mode lib p b tr =
     (let r = lib_set_blocking_mode lib tr p b in (r, EvSsl (Ssl_set_blocking_mode p b r) # tr))"

definition SSL_connect :: "ssl_lib \<Rightarrow> ptr \<Rightarrow> trace \<Rightarrow> int \<times> trace" where
  [ssl_defs]: "SSL_connect lib p tr = (let r = lib_connect lib tr p in (r, EvSsl (Ssl_connect p r) # tr))"

definition SSL_accept_connection :: "ssl_lib \<Rightarrow> ptr \<Rightarrow> trace \<Rightarrow> ptr \<times> trace" where
  [ssl_defs]: "SSL_accept_connection lib p tr =
     (let r = fresh (lib_accept_connection lib tr p) tr in (r, EvSsl (Ssl_accept_connection p r) # tr))"

definition SSL_handle_events :: "ssl_lib \<Rightarrow> ptr \<Rightarrow> trace \<Rightarrow> int \<times> trace" where
  [ssl_defs]: "SSL_handle_events lib p tr =
     (let r = lib_handle_events lib tr p in (r, EvSsl (Ssl_handle_events p r) # tr))"

definition SSL_shutdown :: "ssl_lib \<Rightarrow> ptr \<Rightarrow> trace \<Rightarrow> int \<times> trace" where
  [ssl_defs]: "SSL_shutdown lib p tr = (let r = lib_shutdown lib tr p in (r, EvSsl (Ssl_shutdown p r) # tr))"

definition SSL_get_error :: "ssl_lib \<Rightarrow> ptr \<Rightarrow> int \<Rightarrow> trace \<Rightarrow> int \<times> trace" where
  [ssl_defs]: "SSL_get_error lib p x tr =
     (let r = lib_get_error lib tr p x in (r, EvSsl (Ssl_get_error p x r) # tr))"

definition SSL_get_conn_close_info :: "ssl_lib \<Rightarrow> ptr \<Rightarrow> trace \<Rightarrow> (nat \<times> nat) option \<times> trace" where
  [ssl_defs]: "SSL_get_conn_close_info lib p tr =
     (let r = lib_get_conn_close_info lib tr p in (r, EvSsl (Ssl_get_conn_close_info p r) # tr))"

definition SSL_get_event_timeout :: "ssl_lib \<Rightarrow> ptr \<Rightarrow> trace \<Rightarrow> (timeval \<times> bool) option \<times> trace" where
  [ssl_defs]: "SSL_get_event_timeout lib p tr =
     (let r = lib_get_event_timeout lib tr p
      in (map_option (\<lambda>(s, us, inf). (\<lparr>tv_sec = s, tv_usec = us\<rparr>, inf)) r,
          EvSsl (Ssl_get_event_timeout p r) # tr))"

definition SSL_net_write_desired :: "ssl_lib \<Rightarrow> ptr \<Rightarrow> trace \<Rightarrow> bool \<times> trace" where
  [ssl_defs]: "SSL_net_write_desired lib p tr =
     (let r = lib_net_write_desired lib tr p in (r, EvSsl (Ssl_net_write_desired p r) # tr))"

definition SSL_write_ex :: "ssl_lib \<Rightarrow> ptr \<Rightarrow> byte list \<Rightarrow> trace \<Rightarrow> nat option \<times> trace" where
  [ssl_defs]: "SSL_write_ex lib p bs tr =
     (let r = map_option (min (length bs)) (lib_write_ex lib tr p bs) in (r, EvSsl (Ssl_write_ex p bs r) # tr))"

definition SSL_read_ex :: "ssl_lib \<Rightarrow> ptr \<Rightarrow> nat \<Rightarrow> trace \<Rightarrow> byte list option \<times> trace" where
  [ssl_defs]: "SSL_read_ex lib p n tr =
     (let r = map_option (take n) (lib_read_ex lib tr p n) in (r, EvSsl (Ssl_read_ex p n r) # tr))"

definition SSL_pending :: "ssl_lib \<Rightarrow> ptr \<Rightarrow> trace \<Rightarrow> nat \<times> trace" where
  [ssl_defs]: "SSL_pending lib p tr = (let r = lib_pending lib tr p in (r, EvSsl (Ssl_pending p r) # tr))"

definition SSL_free :: "ptr \<Rightarrow> trace \<Rightarrow> trace" where
  [ssl_defs]: "SSL_free p tr = (case p of None \<Rightarrow> tr | Some h \<Rightarrow> EvSsl (Ssl_free h) # tr)"

section \<open>Objects in use\<close>

fun in_use :: "trace \<Rightarrow> nat set" where
  "in_use [] = {}"
| "in_use (EvSsl call # tr) = (in_use tr \<union> set_option (call_created call)) - set_option (call_freed call)"
| "in_use (_ # tr) = in_use tr"

text \<open>
  \<open>uses_ok tr\<close>: no call of the trace was given an object that was not in use at that moment, hence
  none that was freed before, and no object is freed twice.
\<close>

fun uses_ok :: "trace \<Rightarrow> bool" where
  "uses_ok [] = True"
| "uses_ok (EvSsl call # tr) = (uses_ok tr \<and> set_option (call_arg call) \<subseteq> in_use tr)"
| "uses_ok (_ # tr) = uses_ok tr"

text \<open>Every object in use was named before the trace got as long as it is.\<close>

definition named_ok :: "trace \<Rightarrow> bool" where
  "named_ok tr \<longleftrightarrow> (\<forall>h \<in> in_use tr. h < length tr)"

lemma in_use_sys [simp]: "\<not> is_EvSsl e \<Longrightarrow> in_use (e # tr) = in_use tr"
  by (cases e) auto

lemma uses_ok_sys [simp]: "\<not> is_EvSsl e \<Longrightarrow> uses_ok (e # tr) = uses_ok tr"
  by (cases e) auto

text \<open>A trace whose calls were all given objects in use, with the objects themselves.\<close>

definition sane :: "trace \<Rightarrow> bool" where
  "sane tr \<longleftrightarrow> uses_ok tr \<and> named_ok tr"

lemma sane_sys [simp]: "sane tr \<Longrightarrow> \<not> is_EvSsl e \<Longrightarrow> sane (e # tr)"
  by (auto simp: sane_def named_ok_def)

lemma sane_call:
  assumes "sane tr" and "set_option (call_arg call) \<subseteq> in_use tr"
    and "call_created call = None \<or> call_created call = Some (length tr)"
  shows "sane (EvSsl call # tr)"
  using assms by (auto simp: sane_def named_ok_def less_Suc_eq)

lemma in_use_ext: "sys_ext tr t \<Longrightarrow> in_use t = in_use tr"
  by (induction rule: sys_ext_induct) auto

lemma sane_ext: "sys_ext tr t \<Longrightarrow> sane tr \<Longrightarrow> sane t"
  by (induction rule: sys_ext_induct) auto

lemma sane_fresh: "sane tr \<Longrightarrow> length tr \<notin> in_use tr"
  by (auto simp: sane_def named_ok_def)

end
