(* ===== verification/Ossl_Quic.thy ===== *)
theory Ossl_Quic
  imports Conn Openssl
begin

text \<open>
  The OpenSSL QUIC backend, \<open>ossl_quic/src/ossl_quic.c\<close>, over the parameters \<open>os\<close> (system) and
  \<open>lib\<close> (OpenSSL).  The functions follow the file: TLS 1.3 cipher suites, initialisation, release,
  hole punching, connecting, shutdown with a deadline, and the stream operations.  The blocks the
  source disables with \<open>#if 0\<close> and debug output are left out.
\<close>

section \<open>Data\<close>

abbreviation (input) OSSL_QUIC_UDP_CONNECTED :: int where "OSSL_QUIC_UDP_CONNECTED \<equiv> 0"
abbreviation (input) OSSL_QUIC_UDP_DISCONNECTED :: int where "OSSL_QUIC_UDP_DISCONNECTED \<equiv> 1"
abbreviation (input) OSSL_QUIC_UDP_RECV_DATA :: int where "OSSL_QUIC_UDP_RECV_DATA \<equiv> 2"
abbreviation (input) OSSL_QUIC_UDP_DATA_SENT :: int where "OSSL_QUIC_UDP_DATA_SENT \<equiv> 4"

abbreviation (input) OSSL_TLS13_MAX_SUITES :: nat where "OSSL_TLS13_MAX_SUITES \<equiv> 5"

abbreviation (input) OSSL_TLS13_PRESET_DEFAULT :: int where "OSSL_TLS13_PRESET_DEFAULT \<equiv> 0"
abbreviation (input) OSSL_TLS13_PRESET_BALANCED :: int where "OSSL_TLS13_PRESET_BALANCED \<equiv> 1"
abbreviation (input) OSSL_TLS13_PRESET_PERF_AES128 :: int where "OSSL_TLS13_PRESET_PERF_AES128 \<equiv> 2"
abbreviation (input) OSSL_TLS13_PRESET_CUSTOM :: int where "OSSL_TLS13_PRESET_CUSTOM \<equiv> 3"

text \<open>
  Enumeration values are integers, since C lets a configuration hold any.  The suites are the array
  behind \<open>tls13_suites\<close>; the length the code believes is a field of its own.
\<close>

record ossl_quic_data =
  qd_closed :: int
  qd_close_status :: udp_conn_status
  qd_ctx :: ptr
  qd_listener :: ptr
  qd_conn :: ptr

record ossl_quic_config =
  qc_tls13_preset :: int
  qc_tls13_suites :: "int list"
  qc_tls13_suites_len :: nat
  qc_reuse :: int
  qc_cert_file :: "byte list option"
  qc_key_file :: "byte list option"

type_synonym 'a quic_conn = "(ossl_quic_config, ossl_quic_data, 'a) udp_conn"
type_synonym ('a, 'r) quic_op = "(ossl_quic_config, ossl_quic_data, 'a, 'r) op"
type_synonym 'a quic_callback = "(ossl_quic_config, ossl_quic_data, 'a) callback"

text \<open>The connection's data through the pointer \<open>data\<close>, which nothing checks after the entry.\<close>

definition with_data :: "(ossl_quic_data \<Rightarrow> ('a, 'r) quic_op) \<Rightarrow> ('a, 'r) quic_op" where
  "with_data f conn = (case c_data conn of None \<Rightarrow> (Fault, conn) | Some d \<Rightarrow> f d conn)"

definition upd_data :: "(ossl_quic_data \<Rightarrow> ossl_quic_data) \<Rightarrow> 'a quic_conn \<Rightarrow> 'a quic_conn" where
  "upd_data f conn = conn\<lparr>c_data := map_option f (c_data conn)\<rparr>"

section \<open>TLS 1.3 cipher suites\<close>

definition alpn_osslquic_own :: "byte list" where
  "alpn_osslquic_own = [0x08, 0x6f, 0x73, 0x73, 0x6c, 0x71, 0x75, 0x69, 0x63]"

abbreviation (input) SSL_TLSEXT_ERR_OK :: int where "SSL_TLSEXT_ERR_OK \<equiv> 0"
abbreviation (input) SSL_TLSEXT_ERR_ALERT_FATAL :: int where "SSL_TLSEXT_ERR_ALERT_FATAL \<equiv> 2"

text \<open>
  The server's choice of the protocol, called by OpenSSL in a handshake.  The first argument stands for
  \<open>SSL_select_next_proto\<close>: whether the two lists have a protocol in common, and what it stores in
  \<open>out\<close>.
\<close>

definition ossl_quic_select_alpn ::
    "(byte list \<Rightarrow> byte list \<Rightarrow> bool \<times> byte list) \<Rightarrow> byte list \<Rightarrow> int \<times> byte list" where
  "ossl_quic_select_alpn select_next_proto protos =
     (let (negotiated, out) = select_next_proto alpn_osslquic_own protos
      in (if \<not> negotiated then SSL_TLSEXT_ERR_ALERT_FATAL else SSL_TLSEXT_ERR_OK, out))"

definition suite_to_name :: "int \<Rightarrow> byte list option" where
  "suite_to_name s =
     (if s = 0 then Some (ascii ''TLS_AES_128_GCM_SHA256'')
      else if s = 1 then Some (ascii ''TLS_AES_256_GCM_SHA384'')
      else if s = 2 then Some (ascii ''TLS_CHACHA20_POLY1305_SHA256'')
      else if s = 3 then Some (ascii ''TLS_AES_128_CCM_SHA256'')
      else if s = 4 then Some (ascii ''TLS_AES_128_CCM_8_SHA256'')
      else None)"

text \<open>
  The loop that builds the custom list in \<open>buf[256]\<close>: \<open>n\<close> suites are left, the next one is number
  \<open>i\<close>, and \<open>off\<close> bytes are written.  The value is \<open>None\<close> where the code returns 0.
\<close>

fun custom_loop ::
    "int list \<Rightarrow> nat \<Rightarrow> nat \<Rightarrow> nat \<Rightarrow> byte list \<Rightarrow> (nat \<times> byte list) option outcome" where
  "custom_loop suites 0 i off buf = Ret (Some (off, buf))"
| "custom_loop suites (Suc n) i off buf =
     (if length suites \<le> i then Fault
      else case suite_to_name (suites ! i) of
        None \<Rightarrow> Ret None
      | Some name \<Rightarrow>
          (if 256 \<le> off + length name + 1 then Ret None
           else case (if 0 < i then poke buf off (ascii '':'') else Some buf) of
             None \<Rightarrow> Fault
           | Some buf1 \<Rightarrow>
               (let off1 = (if 0 < i then off + 1 else off)
                in case poke buf1 off1 name of
                     None \<Rightarrow> Fault
                   | Some buf2 \<Rightarrow> custom_loop suites n (i + 1) (off1 + length name) buf2)))"

text \<open>The C string that starts at the front of a buffer.\<close>

definition c_string :: "byte list \<Rightarrow> byte list" where
  "c_string buf = takeWhile (\<lambda>b. b \<noteq> 0) buf"

definition balanced_suites :: "byte list" where
  "balanced_suites = ascii ''TLS_AES_256_GCM_SHA384:TLS_CHACHA20_POLY1305_SHA256:TLS_AES_128_GCM_SHA256''"

definition perf_aes128_suites :: "byte list" where
  "perf_aes128_suites = ascii ''TLS_AES_128_GCM_SHA256:TLS_CHACHA20_POLY1305_SHA256:TLS_AES_256_GCM_SHA384''"

definition apply_tls13_ciphersuites ::
    "ssl_lib \<Rightarrow> os \<Rightarrow> ptr \<Rightarrow> ossl_quic_config \<Rightarrow> trace \<Rightarrow> int outcome \<times> trace" where
  "apply_tls13_ciphersuites lib os ctx cfg tr =
     (let set_suites = (\<lambda>names. let (r, tr') = SSL_CTX_set lib ctx (Set_ciphersuites names) tr in (Ret r, tr'))
      in if ctx = None then (Ret 0, tr)
         else if qc_tls13_preset cfg = OSSL_TLS13_PRESET_DEFAULT then (Ret 1, tr)
         else if qc_tls13_preset cfg = OSSL_TLS13_PRESET_BALANCED then set_suites balanced_suites
         else if qc_tls13_preset cfg = OSSL_TLS13_PRESET_PERF_AES128 then set_suites perf_aes128_suites
         else if qc_tls13_suites_len cfg = 0 \<or> OSSL_TLS13_MAX_SUITES < qc_tls13_suites_len cfg then (Ret 0, tr)
         else case custom_loop (qc_tls13_suites cfg) (qc_tls13_suites_len cfg) 0 0 (garbage os 256 tr) of
                Ret None \<Rightarrow> (Ret 0, tr)
              | Ret (Some (off, buf)) \<Rightarrow>
                  (case poke buf off [0] of
                     None \<Rightarrow> (Fault, tr)
                   | Some buf1 \<Rightarrow> set_suites (c_string buf1))
              | _ \<Rightarrow> (Fault, tr))"

section \<open>Initialisation\<close>

text \<open>The old context, if any, is freed and a new one created.\<close>

definition renew_ctx :: "ssl_lib \<Rightarrow> bool \<Rightarrow> ossl_quic_data \<Rightarrow> trace \<Rightarrow> ptr \<times> trace" where
  "renew_ctx lib srv d tr = SSL_CTX_new lib srv (SSL_CTX_free (qd_ctx d) tr)"

text \<open>The configuration of the new context; false where the code returns \<open>UDP_CONN_ERR\<close>.\<close>

definition client_context ::
    "ssl_lib \<Rightarrow> os \<Rightarrow> ossl_quic_config \<Rightarrow> ptr \<Rightarrow> trace \<Rightarrow> bool outcome \<times> trace" where
  "client_context lib os cfg ctx tr =
     (let (_, tr1) = SSL_CTX_set lib ctx Set_verify_none tr;
          (r, tr2) = SSL_CTX_set lib ctx (Set_alpn_protos alpn_osslquic_own) tr1
      in if r \<noteq> 0 then (Ret False, tr2)
         else chain (apply_tls13_ciphersuites lib os ctx cfg tr2) (\<lambda>n tr3. (Ret (n \<noteq> 0), tr3)))"

definition server_context ::
    "ssl_lib \<Rightarrow> os \<Rightarrow> ossl_quic_config \<Rightarrow> byte list \<Rightarrow> byte list \<Rightarrow> ptr \<Rightarrow> trace \<Rightarrow> bool outcome \<times> trace" where
  "server_context lib os cfg cert key ctx tr =
     (let (r1, tr1) = SSL_CTX_set lib ctx (Use_certificate_chain_file cert) tr
      in if r1 \<le> 0 then (Ret False, tr1)
         else let (r2, tr2) = SSL_CTX_set lib ctx (Use_PrivateKey_file key) tr1
              in if r2 \<le> 0 then (Ret False, tr2)
                 else let (r3, tr3) = SSL_CTX_set lib ctx Check_private_key tr2
                      in if r3 = 0 then (Ret False, tr3)
                         else let (_, tr4) = SSL_CTX_set lib ctx Set_min_proto_version_tls13 tr3
                              in chain (apply_tls13_ciphersuites lib os ctx cfg tr4) (\<lambda>n tr5.
                                   if n = 0 then (Ret False, tr5)
                                   else let (_, tr6) = SSL_CTX_set lib ctx Set_alpn_select_cb tr5
                                        in (Ret True, tr6)))"

text \<open>
  The socket's options and address; a failing \<open>setsockopt\<close> closes the descriptor, a failing \<open>bind\<close>
  does not.
\<close>

definition bind_socket ::
    "os \<Rightarrow> ossl_quic_config \<Rightarrow> udp_session \<Rightarrow> udp_conn_ctrl \<Rightarrow> ('a, udp_conn_status) quic_op" where
  "bind_socket os cfg us k conn =
     (case on_trace (sys_setsockopt os (us_socket_fd us) (SO_REUSEADDR (qc_reuse cfg))) conn of
        (Some e, c1) \<Rightarrow> (Ret UDP_CONN_ERR, snd (on_trace (sys_close os (us_socket_fd us)) c1))
      | (None, c1) \<Rightarrow>
          (case on_trace (sys_bind os (us_socket_fd us) (us_src us)) c1 of
             (Some e, c2) \<Rightarrow> (Ret UDP_CONN_ERR, c2)
           | (None, c2) \<Rightarrow>
               (Ret UDP_CONN_OK,
                upd_data (\<lambda>d. d\<lparr>qd_closed := 0, qd_close_status := UDP_CONN_OK\<rparr>)
                  (c2\<lparr>c_ctrl := Some (k\<lparr>cc_init := 1\<rparr>)\<rparr>))))"

definition prepare_context ::
    "ssl_lib \<Rightarrow> bool \<Rightarrow> (ptr \<Rightarrow> trace \<Rightarrow> bool outcome \<times> trace) \<Rightarrow> ossl_quic_data
      \<Rightarrow> ('a, udp_conn_status) quic_op \<Rightarrow> ('a, udp_conn_status) quic_op" where
  "prepare_context lib srv setup d k conn =
     (let (ctx, c1) = on_trace (renew_ctx lib srv d) conn;
          c2 = c1\<lparr>c_data := Some (d\<lparr>qd_ctx := ctx\<rparr>)\<rparr>
      in if ctx = None then (Ret UDP_CONN_ERR, c2)
         else chain (on_trace (setup ctx) c2) (\<lambda>ok c3. if ok then k c3 else (Ret UDP_CONN_ERR, c3)))"

definition ossl_quic_init :: "ssl_lib \<Rightarrow> os \<Rightarrow> ('a, udp_conn_status) quic_op" where
  "ossl_quic_init lib os conn =
     (case (c_data conn, c_config conn, c_ctrl conn, c_udp conn) of
        (Some d, Some cfg, Some k, Some us) \<Rightarrow>
          (if \<not> c_callback conn then (Ret UDP_CONN_ERR, conn)
           else if cc_init k \<noteq> 0 then (Ret UDP_CONN_ALREADY_INIT, conn)
           else if cc_mode k = CHR ''c''
           then prepare_context lib False (client_context lib os cfg) d (bind_socket os cfg us k) conn
           else if cc_mode k = CHR ''s''
           then (case (qc_cert_file cfg, qc_key_file cfg) of
                   (Some cert, Some key) \<Rightarrow>
                     (if cert = [] \<or> key = [] then (Ret UDP_CONN_ERR, conn)
                      else prepare_context lib True (server_context lib os cfg cert key) d
                             (bind_socket os cfg us k) conn)
                 | _ \<Rightarrow> (Ret UDP_CONN_ERR, conn))
           else (Ret UDP_CONN_ERR, conn))
      | _ \<Rightarrow> (Ret UDP_CONN_ERR, conn))"

section \<open>State queries\<close>

definition ossl_quic_is_closed :: "'a quic_conn \<Rightarrow> udp_conn_status" where
  "ossl_quic_is_closed conn =
     (case c_data conn of
        None \<Rightarrow> UDP_CONN_ERR
      | Some d \<Rightarrow> (if qd_closed d \<noteq> 0 then UDP_CONN_CLOSED else UDP_CONN_OK))"

text \<open>The time until the next event of the connection, at most five seconds.\<close>

definition ossl_quic_get_timeout :: "ssl_lib \<Rightarrow> timeval \<Rightarrow> ('a, udp_conn_status \<times> timeval) quic_op" where
  "ossl_quic_get_timeout lib tv conn =
     (case (c_ctrl conn, c_data conn) of
        (Some k, Some d) \<Rightarrow>
          (if qd_conn d = None then (Ret (UDP_CONN_ERR, tv), conn)
           else if cc_init k = 0 then (Ret (UDP_CONN_NOT_INIT, tv), conn)
           else case on_trace (SSL_get_event_timeout lib (qd_conn d)) conn of
                  (None, c1) \<Rightarrow> (Ret (UDP_CONN_ERR, \<lparr>tv_sec = 0, tv_usec = 0\<rparr>), c1)
                | (Some (tv1, is_infinite), c1) \<Rightarrow>
                    (Ret (UDP_CONN_OK, if is_infinite \<or> 5 \<le> tv_sec tv1
                                       then \<lparr>tv_sec = 5, tv_usec = 0\<rparr> else tv1), c1))
      | _ \<Rightarrow> (Ret (UDP_CONN_ERR, tv), conn))"

definition ossl_quic_pending_data :: "ssl_lib \<Rightarrow> ('a, nat) quic_op" where
  "ossl_quic_pending_data lib =
     with_data (\<lambda>d conn. let (n, c1) = on_trace (SSL_pending lib (qd_conn d)) conn in (Ret n, c1))"

section \<open>Hole punching\<close>

definition probe :: "byte list" where "probe = [0x30, 0x31, 0x0a]"

text \<open>The server's one-byte keep-alive, repeated while it is interrupted; true if it was sent.\<close>

fun punch_keep_alive :: "os \<Rightarrow> int \<Rightarrow> sockaddr_in \<Rightarrow> nat \<Rightarrow> trace \<Rightarrow> bool outcome \<times> trace" where
  "punch_keep_alive os fd dst 0 tr = (NoFuel, tr)"
| "punch_keep_alive os fd dst (Suc fuel) tr =
     (case sys_sendto os fd [0] dst False tr of
        (Inl e, tr1) \<Rightarrow> (if e = EINTR then punch_keep_alive os fd dst fuel tr1 else (Ret False, tr1))
      | (Inr n, tr1) \<Rightarrow> (Ret (n = 1), tr1))"

text \<open>
  The discovery phase: only the client sends, the server waits for the probe and keeps its NAT
  mapping open.  The loop ends with a probe from the other side or an error; false is the error.
\<close>

fun punch_discover ::
    "os \<Rightarrow> char \<Rightarrow> int \<Rightarrow> sockaddr_in \<Rightarrow> nat \<Rightarrow> trace \<Rightarrow> bool outcome \<times> trace" where
  "punch_discover os mode fd dst 0 tr = (NoFuel, tr)"
| "punch_discover os mode fd dst (Suc fuel) tr =
     (case (if mode = CHR ''c'' then sys_sendto os fd probe dst False tr else (Inr 0, tr)) of
        (Inl e, tr1) \<Rightarrow> (if e = EINTR then punch_discover os mode fd dst fuel tr1 else (Ret False, tr1))
      | (Inr n, tr1) \<Rightarrow>
          (case sys_recv os fd 3 False tr1 of
             (Inl e, tr2) \<Rightarrow>
               (if e = EINTR then punch_discover os mode fd dst fuel tr2
                else if e = EAGAIN
                then (if mode = CHR ''s''
                      then chain (punch_keep_alive os fd dst fuel tr2) (\<lambda>ok tr3.
                             if ok then punch_discover os mode fd dst fuel tr3 else (Ret False, tr3))
                      else punch_discover os mode fd dst fuel tr2)
                else (Ret False, tr2))
           | (Inr bs, tr2) \<Rightarrow>
               (if bs = probe then (Ret True, tr2) else punch_discover os mode fd dst fuel tr2)))"

text \<open>
  The transient phase: \<open>n\<close> rounds of a probe, 50 ms and a look at the socket.  \<open>None\<close> is an error,
  otherwise the value says whether a probe arrived.
\<close>

fun punch_transient ::
    "os \<Rightarrow> int \<Rightarrow> sockaddr_in \<Rightarrow> nat \<Rightarrow> bool \<Rightarrow> trace \<Rightarrow> bool option \<times> trace" where
  "punch_transient os fd dst 0 punched tr = (Some punched, tr)"
| "punch_transient os fd dst (Suc n) punched tr =
     (case sys_sendto os fd probe dst False tr of
        (Inl e, tr1) \<Rightarrow> (if e = EINTR then punch_transient os fd dst n punched tr1 else (None, tr1))
      | (Inr m, tr1) \<Rightarrow>
          (let tr2 = msleep 50 tr1
           in if punched then punch_transient os fd dst n True tr2
              else case sys_recv os fd 3 True tr2 of
                     (Inl e, tr3) \<Rightarrow>
                       (if e = EAGAIN \<or> e = EINTR then punch_transient os fd dst n False tr3 else (None, tr3))
                   | (Inr bs, tr3) \<Rightarrow> punch_transient os fd dst n (bs = probe) tr3))"

definition punch ::
    "os \<Rightarrow> char \<Rightarrow> int \<Rightarrow> sockaddr_in \<Rightarrow> nat \<Rightarrow> trace \<Rightarrow> udp_conn_status outcome \<times> trace" where
  "punch os mode fd dst fuel tr =
     (case sys_setsockopt os fd (SO_RCVTIMEO \<lparr>tv_sec = 1, tv_usec = 0\<rparr>) tr of
        (Some e, tr1) \<Rightarrow> (Ret UDP_CONN_ERR, tr1)
      | (None, tr1) \<Rightarrow>
          chain (punch_discover os mode fd dst fuel tr1) (\<lambda>found tr2.
            if \<not> found then (Ret UDP_CONN_ERR, tr2)
            else case punch_transient os fd dst 10 False tr2 of
                   (None, tr3) \<Rightarrow> (Ret UDP_CONN_ERR, tr3)
                 | (Some punched, tr3) \<Rightarrow>
                     (case sys_setsockopt os fd (SO_RCVTIMEO \<lparr>tv_sec = 0, tv_usec = 0\<rparr>) tr3 of
                        (Some e, tr4) \<Rightarrow> (Ret UDP_CONN_ERR, tr4)
                      | (None, tr4) \<Rightarrow> (Ret (if punched then UDP_CONN_OK else UDP_CONN_ERR), tr4))))"

definition ossl_quic_hole_punching :: "os \<Rightarrow> nat \<Rightarrow> ('a, udp_conn_status) quic_op" where
  "ossl_quic_hole_punching os fuel conn =
     (case (c_udp conn, c_ctrl conn) of
        (Some us, Some k) \<Rightarrow>
          (if cc_mode k \<noteq> CHR ''c'' \<and> cc_mode k \<noteq> CHR ''s'' then (Ret UDP_CONN_UNKNOWN_MODE, conn)
           else on_trace (punch os (cc_mode k) (us_socket_fd us) (us_dst us) fuel) conn)
      | _ \<Rightarrow> (Ret UDP_CONN_ERR, conn))"

section \<open>Connecting\<close>

definition pre_connect_client ::
    "ssl_lib \<Rightarrow> os \<Rightarrow> udp_session \<Rightarrow> ossl_quic_data \<Rightarrow> ('a, udp_conn_status) quic_op" where
  "pre_connect_client lib os us d conn =
     (let (p, c1) = on_trace (SSL_new lib (qd_ctx d)) conn;
          c2 = c1\<lparr>c_data := Some (d\<lparr>qd_conn := p\<rparr>)\<rparr>
      in if p = None then (Ret UDP_CONN_ERR, c2)
         else let (r, c3) = on_trace (SSL_set_fd lib p (us_socket_fd us)) c2
              in if r = 0 then (Ret UDP_CONN_ERR, c3)
                 else let c4 = c3\<lparr>c_trace := SSL_set_connect_state p (c_trace c3)\<rparr>
                      in case on_trace (sys_connect os (us_socket_fd us) (us_dst us)) c4 of
                           (Some e, c5) \<Rightarrow> (Ret UDP_CONN_ERR, c5)
                         | (None, c5) \<Rightarrow> (Ret UDP_CONN_OK, c5))"

definition pre_connect_server ::
    "ssl_lib \<Rightarrow> udp_session \<Rightarrow> ossl_quic_data \<Rightarrow> ('a, udp_conn_status) quic_op" where
  "pre_connect_server lib us d conn =
     (let (p, c1) = on_trace (SSL_new_listener lib (qd_ctx d)) conn;
          c2 = c1\<lparr>c_data := Some (d\<lparr>qd_conn := None, qd_listener := p\<rparr>)\<rparr>
      in if p = None then (Ret UDP_CONN_ERR, c2)
         else let (r1, c3) = on_trace (SSL_set_fd lib p (us_socket_fd us)) c2
              in if r1 = 0 then (Ret UDP_CONN_ERR, c3)
                 else let (r2, c4) = on_trace (SSL_listen lib p) c3
                      in if r2 = 0 then (Ret UDP_CONN_ERR, c4)
                         else let (r3, c5) = on_trace (SSL_set_blocking_mode lib p 1) c4
                              in (Ret (if r3 = 0 then UDP_CONN_ERR else UDP_CONN_OK), c5))"

definition ossl_quic_pre_connect :: "ssl_lib \<Rightarrow> os \<Rightarrow> ('a, udp_conn_status) quic_op" where
  "ossl_quic_pre_connect lib os conn =
     (case (c_udp conn, c_data conn, c_ctrl conn) of
        (Some us, Some d, Some k) \<Rightarrow>
          (if cc_mode k = CHR ''c'' then pre_connect_client lib os us d conn
           else if cc_mode k = CHR ''s'' then pre_connect_server lib us d conn
           else (Ret UDP_CONN_OK, conn))
      | _ \<Rightarrow> (Ret UDP_CONN_ERR, conn))"

text \<open>The handshake; false where \<open>ossl_quic_connect\<close> returns an error.\<close>

definition handshake :: "ssl_lib \<Rightarrow> char \<Rightarrow> ('a, bool) quic_op" where
  "handshake lib mode =
     with_data (\<lambda>d conn.
       if mode = CHR ''c''
       then let (r, c1) = on_trace (SSL_connect lib (qd_conn d)) conn in (Ret (r \<noteq> 0), c1)
       else if mode = CHR ''s''
       then let (p, c1) = on_trace (SSL_accept_connection lib (qd_listener d)) conn
            in (Ret (p \<noteq> None), c1\<lparr>c_data := Some (d\<lparr>qd_conn := p\<rparr>)\<rparr>)
       else (Ret False, conn))"

text \<open>After the handshake: non-blocking mode, the callback, and only then the session counts as open.\<close>

definition finish_connect :: "ssl_lib \<Rightarrow> 'a quic_callback \<Rightarrow> ('a, udp_conn_status) quic_op" where
  "finish_connect lib cb =
     with_data (\<lambda>d conn.
       let (r, c1) = on_trace (SSL_set_blocking_mode lib (qd_conn d) 0) conn
       in if r = 0 then (Ret UDP_CONN_ERR, c1)
          else chain (run_callback cb OSSL_QUIC_UDP_CONNECTED [] c1) (\<lambda>_ c2.
                 (Ret UDP_CONN_OK, upd_data (\<lambda>d. d\<lparr>qd_closed := 0\<rparr>) c2)))"

text \<open>The status of \<open>ossl_quic_pre_connect\<close> is ignored.\<close>

definition ossl_quic_connect :: "ssl_lib \<Rightarrow> os \<Rightarrow> 'a quic_callback \<Rightarrow> ('a, udp_conn_status) quic_op" where
  "ossl_quic_connect lib os cb conn =
     (case (c_data conn, c_udp conn, c_ctrl conn) of
        (Some d, Some us, Some k) \<Rightarrow>
          chain (ossl_quic_pre_connect lib os conn) (\<lambda>_ c1.
            chain (handshake lib (cc_mode k) c1) (\<lambda>ok c2.
              if ok then finish_connect lib cb c2 else (Ret UDP_CONN_ERR, c2)))
      | _ \<Rightarrow> (Ret UDP_CONN_ERR, conn))"

text \<open>The statements behind the first \<open>return UDP_CONN_OK\<close> of the source cannot be reached.\<close>

definition ossl_quic_udp_send_ka :: "('a, udp_conn_status) quic_op" where
  "ossl_quic_udp_send_ka conn =
     (case (c_udp conn, c_data conn, c_ctrl conn) of
        (Some us, Some d, Some k) \<Rightarrow>
          (Ret (if cc_init k = 0 then UDP_CONN_NOT_INIT
                else if qd_closed d \<noteq> 0 then UDP_CONN_CLOSED else UDP_CONN_OK), conn)
      | _ \<Rightarrow> (Ret UDP_CONN_ERR, conn))"

section \<open>Shutting down\<close>

text \<open>
  The close error of the peer or of this side is recorded, unless an error is recorded already; true
  if the connection is being closed.
\<close>

definition record_close_status :: "ssl_lib \<Rightarrow> ossl_quic_data \<Rightarrow> trace \<Rightarrow> bool \<times> ossl_quic_data \<times> trace" where
  "record_close_status lib d tr =
     (case SSL_get_conn_close_info lib (qd_conn d) tr of
        (None, tr1) \<Rightarrow> (False, d, tr1)
      | (Some (error_code, flags), tr1) \<Rightarrow>
          (True, if error_code \<noteq> 0 \<and> qd_close_status d = UDP_CONN_OK
                 then d\<lparr>qd_close_status := UDP_CONN_ERR\<rparr> else d, tr1))"

definition quic_monotonic_ms :: "os \<Rightarrow> trace \<Rightarrow> int option \<times> trace" where
  "quic_monotonic_ms os tr =
     (case sys_clock os tr of
        (None, tr') \<Rightarrow> (None, tr')
      | (Some (s, ns), tr') \<Rightarrow> (Some (s * 1000 + ns div 1000000), tr'))"

text \<open>
  How long an iteration waits: the time left until the deadline, or the time of the next event of
  the connection if that comes first.
\<close>

definition shutdown_wait :: "int \<Rightarrow> int \<Rightarrow> timeval \<Rightarrow> bool \<Rightarrow> timeval" where
  "shutdown_wait deadline now event is_inf =
     (let wait = deadline - now;
          event_ms = tv_sec event * 1000 + (tv_usec event + 999) div 1000;
          wait1 = (if \<not> is_inf \<and> event_ms < wait then event_ms else wait);
          wait2 = (if wait1 < 0 then 0 else wait1)
      in \<lparr>tv_sec = wait2 div 1000, tv_usec = wait2 mod 1000 * 1000\<rparr>)"

text \<open>The end of an iteration: waiting for the socket.  True if the loop goes on.\<close>

definition shutdown_select ::
    "ssl_lib \<Rightarrow> os \<Rightarrow> int \<Rightarrow> ptr \<Rightarrow> timeval \<Rightarrow> trace \<Rightarrow> bool \<times> trace" where
  "shutdown_select lib os fd p timeout tr =
     (let (want_write, tr1) = SSL_net_write_desired lib p tr
      in case sys_select_rw os (fd + 1) [fd] (if want_write then [fd] else []) timeout tr1 of
           (Inl e, tr2) \<Rightarrow> (e = EINTR, tr2)
         | (Inr n, tr2) \<Rightarrow> (True, tr2))"

text \<open>
  The middle of an iteration: closing has begun, the clock is compared with the deadline.
\<close>

definition shutdown_wait_step ::
    "ssl_lib \<Rightarrow> os \<Rightarrow> int \<Rightarrow> int \<Rightarrow> ptr \<Rightarrow> trace \<Rightarrow> bool \<times> trace" where
  "shutdown_wait_step lib os fd deadline p tr =
     (case quic_monotonic_ms os tr of
        (None, tr1) \<Rightarrow> (False, tr1)
      | (Some now, tr1) \<Rightarrow>
          (if now < 0 \<or> deadline \<le> now then (False, tr1)
           else case SSL_get_event_timeout lib p tr1 of
                  (None, tr2) \<Rightarrow> (False, tr2)
                | (Some (event, is_inf), tr2) \<Rightarrow>
                    shutdown_select lib os fd p (shutdown_wait deadline now event is_inf) tr2))"

definition shutdown_failed :: "ssl_lib \<Rightarrow> ptr \<Rightarrow> int \<Rightarrow> trace \<Rightarrow> bool \<times> trace" where
  "shutdown_failed lib p result tr =
     (if result < 0
      then let (e, tr1) = SSL_get_error lib p result tr
           in (e \<noteq> SSL_ERROR_WANT_READ \<and> e \<noteq> SSL_ERROR_WANT_WRITE, tr1)
      else (False, tr))"

text \<open>One iteration; \<open>Some\<close> is the status the function returns, \<open>None\<close> goes on.\<close>

definition shutdown_iter ::
    "ssl_lib \<Rightarrow> os \<Rightarrow> int \<Rightarrow> int \<Rightarrow> ossl_quic_data \<Rightarrow> trace \<Rightarrow> udp_conn_status option \<times> ossl_quic_data \<times> trace" where
  "shutdown_iter lib os fd deadline d tr =
     (let (handled, tr1) = SSL_handle_events lib (qd_conn d) tr
      in if handled = 0 then (Some UDP_CONN_ERR, d, tr1)
         else let (result, tr2) = SSL_shutdown lib (qd_conn d) tr1
              in if result = 1
                 then let (_, d1, tr3) = record_close_status lib d tr2
                      in (Some (qd_close_status d1), d1, tr3)
                 else let (failed, tr3) = shutdown_failed lib (qd_conn d) result tr2
                      in if failed then (Some UDP_CONN_ERR, d, tr3)
                         else let (_, d1, tr4) = record_close_status lib d tr3;
                                  (more, tr5) = shutdown_wait_step lib os fd deadline (qd_conn d1) tr4
                              in (if more then None else Some UDP_CONN_ERR, d1, tr5))"

fun shutdown_loop ::
    "ssl_lib \<Rightarrow> os \<Rightarrow> int \<Rightarrow> int \<Rightarrow> nat \<Rightarrow> ossl_quic_data \<Rightarrow> trace
      \<Rightarrow> udp_conn_status outcome \<times> ossl_quic_data \<times> trace" where
  "shutdown_loop lib os fd deadline 0 d tr = (NoFuel, d, tr)"
| "shutdown_loop lib os fd deadline (Suc fuel) d tr =
     (case shutdown_iter lib os fd deadline d tr of
        (Some st, d1, tr1) \<Rightarrow> (Ret st, d1, tr1)
      | (None, d1, tr1) \<Rightarrow> shutdown_loop lib os fd deadline fuel d1 tr1)"

definition finish_shutdown :: "ssl_lib \<Rightarrow> os \<Rightarrow> nat \<Rightarrow> udp_session \<Rightarrow> ('a, udp_conn_status) quic_op" where
  "finish_shutdown lib os fuel us =
     with_data (\<lambda>d conn.
       case on_trace (quic_monotonic_ms os) conn of
         (None, c1) \<Rightarrow> (Ret UDP_CONN_ERR, c1)
       | (Some started, c1) \<Rightarrow>
           (if started < 0 \<or> us_socket_fd us < 0 \<or> FD_SETSIZE \<le> us_socket_fd us then (Ret UDP_CONN_ERR, c1)
            else let (st, d1, tr) = shutdown_loop lib os (us_socket_fd us) (started + 5000) fuel d (c_trace c1)
                 in (st, c1\<lparr>c_data := Some d1, c_trace := tr\<rparr>)))"

text \<open>
  The terminal state is reached on every path, also after an error or a timeout; the error is kept
  for \<open>ossl_quic_deinit\<close>.
\<close>

definition ossl_quic_disconnect ::
    "ssl_lib \<Rightarrow> os \<Rightarrow> 'a quic_callback \<Rightarrow> nat \<Rightarrow> ('a, udp_conn_status) quic_op" where
  "ossl_quic_disconnect lib os cb fuel conn =
     (case (c_data conn, c_ctrl conn, c_udp conn) of
        (Some d, Some k, Some us) \<Rightarrow>
          (if cc_init k = 0 then (Ret UDP_CONN_NOT_INIT, conn)
           else if qd_closed d \<noteq> 0 then (Ret (qd_close_status d), conn)
           else chain (if qd_conn d \<noteq> None then finish_shutdown lib os fuel us conn
                       else (Ret UDP_CONN_ERR, conn)) (\<lambda>st c1.
                  let c2 = upd_data (\<lambda>d. (if is_err st then d\<lparr>qd_close_status := st\<rparr> else d)\<lparr>qd_closed := 1\<rparr>) c1
                  in chain (run_callback cb OSSL_QUIC_UDP_DISCONNECTED [] c2) (\<lambda>_.
                       with_data (\<lambda>d c3. (Ret (qd_close_status d), c3)))))
      | _ \<Rightarrow> (Ret UDP_CONN_ERR, conn))"

section \<open>Release\<close>

text \<open>Every object is freed and its pointer cleared.\<close>

definition free_objects :: "ossl_quic_data \<Rightarrow> trace \<Rightarrow> trace" where
  "free_objects d tr = SSL_CTX_free (qd_ctx d) (SSL_free (qd_listener d) (SSL_free (qd_conn d) tr))"

text \<open>A descriptor that is not negative is closed and cleared.\<close>

definition close_fd :: "os \<Rightarrow> int \<Rightarrow> trace \<Rightarrow> int \<times> trace" where
  "close_fd os fd tr = (if 0 \<le> fd then (-1, snd (sys_close os fd tr)) else (fd, tr))"

definition close_sockets :: "os \<Rightarrow> 'a quic_conn \<Rightarrow> 'a quic_conn" where
  "close_sockets os conn =
     (case c_udp conn of
        None \<Rightarrow> conn
      | Some us \<Rightarrow>
          (let (fd, tr1) = close_fd os (us_socket_fd us) (c_trace conn);
               c1 = conn\<lparr>c_udp := Some (us\<lparr>us_socket_fd := fd\<rparr>), c_trace := tr1\<rparr>
           in case c_tcp c1 of
                None \<Rightarrow> c1
              | Some ts \<Rightarrow>
                  (let (a, tr2) = close_fd os (ts_accepted_sock ts) tr1;
                       (s, tr3) = close_fd os (ts_socket_fd ts) tr2
                   in c1\<lparr>c_tcp := Some (ts\<lparr>ts_accepted_sock := a, ts_socket_fd := s\<rparr>), c_trace := tr3\<rparr>)))"

text \<open>The part of \<open>ossl_quic_deinit\<close> that runs on every path, whatever disconnecting returned.\<close>

definition release :: "os \<Rightarrow> ('a, udp_conn_status) quic_op" where
  "release os =
     with_data (\<lambda>d conn.
       let c1 = conn\<lparr>c_data := Some (d\<lparr>qd_conn := None, qd_listener := None, qd_ctx := None\<rparr>),
                     c_trace := free_objects d (c_trace conn)\<rparr>;
           c2 = close_sockets os c1
       in (Ret (qd_close_status d), c2\<lparr>c_ctrl := map_option (\<lambda>k. k\<lparr>cc_init := 0\<rparr>) (c_ctrl c2)\<rparr>))"

definition ossl_quic_deinit ::
    "ssl_lib \<Rightarrow> os \<Rightarrow> 'a quic_callback \<Rightarrow> nat \<Rightarrow> ('a, udp_conn_status) quic_op" where
  "ossl_quic_deinit lib os cb fuel conn =
     (case (c_udp conn, c_data conn, c_ctrl conn) of
        (Some us, Some d, Some k) \<Rightarrow>
          (if cc_init k = 0 then (Ret UDP_CONN_NOT_INIT, conn)
           else if qd_closed d = 0
           then chain (ossl_quic_disconnect lib os cb fuel conn) (\<lambda>_. release os)
           else release os conn)
      | _ \<Rightarrow> (Ret UDP_CONN_ERR, conn))"

section \<open>The stream\<close>

definition ossl_quic_udp_send ::
    "ssl_lib \<Rightarrow> 'a quic_callback \<Rightarrow> byte list \<Rightarrow> nat option \<Rightarrow> ('a, udp_conn_status \<times> nat option) quic_op" where
  "ossl_quic_udp_send lib cb buf sent_bytes conn =
     (case (c_udp conn, c_data conn, c_ctrl conn) of
        (Some us, Some d, Some k) \<Rightarrow>
          (if cc_init k = 0 then (Ret (UDP_CONN_NOT_INIT, sent_bytes), conn)
           else if qd_closed d \<noteq> 0 then (Ret (UDP_CONN_CLOSED, sent_bytes), conn)
           else case on_trace (SSL_write_ex lib (qd_conn d) buf) conn of
                  (None, c1) \<Rightarrow> (Ret (UDP_CONN_ERR, sent_bytes), c1)
                | (Some sent, c1) \<Rightarrow>
                    chain (run_callback cb OSSL_QUIC_UDP_DATA_SENT (take sent buf) c1) (\<lambda>_ c2.
                      (Ret (UDP_CONN_OK, map_option (\<lambda>_. sent) sent_bytes), c2)))
      | _ \<Rightarrow> (Ret (UDP_CONN_ERR, sent_bytes), conn))"

text \<open>
  \<open>buf\<close> and \<open>recv_bytes\<close> are \<open>None\<close> for null pointers.  OpenSSL stores what it read at the start of
  the buffer; more than the buffer holds is undefined behaviour.
\<close>

definition ossl_quic_udp_recv ::
    "ssl_lib \<Rightarrow> 'a quic_callback \<Rightarrow> byte list option \<Rightarrow> nat \<Rightarrow> nat option
      \<Rightarrow> ('a, udp_conn_status \<times> byte list option \<times> nat option) quic_op" where
  "ossl_quic_udp_recv lib cb buf nbytes recv_bytes conn =
     (case recv_bytes of
        None \<Rightarrow> (Ret (UDP_CONN_ERR, buf, None), conn)
      | Some _ \<Rightarrow>
          (case (c_data conn, c_ctrl conn, buf) of
             (Some d, Some k, Some m) \<Rightarrow>
               (if nbytes = 0 then (Ret (UDP_CONN_ERR, buf, Some 0), conn)
                else if cc_init k = 0 then (Ret (UDP_CONN_NOT_INIT, buf, Some 0), conn)
                else if qd_closed d \<noteq> 0 then (Ret (UDP_CONN_CLOSED, buf, Some 0), conn)
                else case on_trace (SSL_read_ex lib (qd_conn d) nbytes) conn of
                       (Some bs, c1) \<Rightarrow>
                         (if length m < length bs then (Fault, c1)
                          else chain (run_callback cb OSSL_QUIC_UDP_RECV_DATA bs c1) (\<lambda>_ c2.
                                 (Ret (UDP_CONN_OK, Some (overwrite m bs), Some (length bs)), c2)))
                     | (None, c1) \<Rightarrow>
                         (let (err, c2) = on_trace (SSL_get_error lib (qd_conn d) 0) c1
                          in (Ret (if err = SSL_ERROR_WANT_READ \<or> err = SSL_ERROR_WANT_WRITE
                                   then UDP_CONN_OK else UDP_CONN_ERR, buf, Some 0), c2)))
           | _ \<Rightarrow> (Ret (UDP_CONN_ERR, buf, Some 0), conn)))"

definition ossl_quic_process_events ::
    "ssl_lib \<Rightarrow> os \<Rightarrow> 'a quic_callback \<Rightarrow> nat \<Rightarrow> ('a, udp_conn_status) quic_op" where
  "ossl_quic_process_events lib os cb fuel conn =
     (case c_data conn of
        None \<Rightarrow> (Ret UDP_CONN_ERR, conn)
      | Some d \<Rightarrow>
          (if qd_conn d = None then (Ret UDP_CONN_ERR, conn)
           else let (handled, c1) = on_trace (SSL_handle_events lib (qd_conn d)) conn
                in if handled = 0 then (Ret UDP_CONN_ERR, c1)
                   else let (closing, d1, tr) = record_close_status lib d (c_trace c1);
                            c2 = c1\<lparr>c_data := Some d1, c_trace := tr\<rparr>
                        in if closing then ossl_quic_disconnect lib os cb fuel c2
                           else (Ret UDP_CONN_OK, c2)))"

section \<open>The table of operations\<close>

definition ossl_quic_api ::
    "ssl_lib \<Rightarrow> os \<Rightarrow> 'a quic_callback \<Rightarrow> nat \<Rightarrow> (ossl_quic_config, ossl_quic_data, 'a) udp_conn_api" where
  "ossl_quic_api lib os cb fuel = \<lparr>
     api_init = ossl_quic_init lib os,
     api_deinit = ossl_quic_deinit lib os cb fuel,
     api_is_closed = ossl_quic_is_closed,
     api_get_timeout = ossl_quic_get_timeout lib,
     api_process_events = Some (ossl_quic_process_events lib os cb fuel),
     api_pending_data = Some (ossl_quic_pending_data lib),
     api_hole_punching = ossl_quic_hole_punching os fuel,
     api_connect = ossl_quic_connect lib os cb,
     api_udp_send = ossl_quic_udp_send lib cb,
     api_udp_recv = ossl_quic_udp_recv lib cb,
     api_udp_send_ka = ossl_quic_udp_send_ka,
     api_disconnect = ossl_quic_disconnect lib os cb fuel\<rparr>"

end
