(* ===== verification/Ossl_Quic_Inv.thy ===== *)
theory Ossl_Quic_Inv
  imports Ossl_Quic Conn_Spec Api_Calls
begin

text \<open>
  The invariant of the OpenSSL QUIC backend: descriptors that fit a descriptor set, and pointers to
  OpenSSL objects that are all in use and all different.  Every operation keeps it, provided that
  the user's callback does, so no object is used after it was freed and none is freed twice.  The
  exact form of the invariant says in addition that no other object is in use: nothing is leaked.
\<close>

section \<open>Ownership of OpenSSL objects\<close>

definition owned :: "ossl_quic_data \<Rightarrow> nat set" where
  "owned d = set_option (qd_ctx d) \<union> set_option (qd_listener d) \<union> set_option (qd_conn d)"

definition different :: "ossl_quic_data \<Rightarrow> bool" where
  "different d \<longleftrightarrow> set_option (qd_ctx d) \<inter> set_option (qd_listener d) = {} \<and>
     set_option (qd_ctx d) \<inter> set_option (qd_conn d) = {} \<and>
     set_option (qd_listener d) \<inter> set_option (qd_conn d) = {}"

definition owns :: "bool \<Rightarrow> ossl_quic_data \<Rightarrow> trace \<Rightarrow> bool" where
  "owns exact d tr \<longleftrightarrow> sane tr \<and> owned d \<subseteq> in_use tr \<and> different d \<and> (exact \<longrightarrow> in_use tr = owned d)"

lemma owned_simps [simp]:
  "owned (d\<lparr>qd_closed := n\<rparr>) = owned d" "owned (d\<lparr>qd_close_status := st\<rparr>) = owned d"
  "different (d\<lparr>qd_closed := n\<rparr>) = different d" "different (d\<lparr>qd_close_status := st\<rparr>) = different d"
  by (simp_all add: owned_def different_def)

lemma owned_ptr [simp]:
  "set_option (qd_ctx d) \<subseteq> owned d" "set_option (qd_listener d) \<subseteq> owned d" "set_option (qd_conn d) \<subseteq> owned d"
  by (auto simp: owned_def)

lemma owned_conn [simp]: "qd_conn d = Some h \<Longrightarrow> h \<in> owned d"
  by (simp add: owned_def)

lemma owns_data [simp]:
  "owns x (d\<lparr>qd_closed := n\<rparr>) tr = owns x d tr" "owns x (d\<lparr>qd_close_status := st\<rparr>) tr = owns x d tr"
  by (simp_all add: owns_def)

lemma owns_ext: "owns x d tr \<Longrightarrow> sys_ext tr t \<Longrightarrow> owns x d t"
  by (simp add: owns_def in_use_ext sane_ext)

lemma owns_sys [simp]: "owns x d tr \<Longrightarrow> \<not> is_EvSsl e \<Longrightarrow> owns x d (e # tr)"
  by (simp add: owns_def)

text \<open>A call on an owned object that creates and frees nothing.\<close>

lemma owns_call:
  assumes "owns x d tr" and "set_option (call_arg call) \<subseteq> owned d"
    and "call_created call = None" and "call_freed call = None"
  shows "owns x d (EvSsl call # tr)"
  using assms by (auto simp: owns_def intro!: sane_call)

lemma owns_calls [simp]:
  assumes "owns x d tr" and "set_option p \<subseteq> owned d"
  shows "owns x d (snd (SSL_CTX_set lib p s tr))" "owns x d (snd (SSL_set_fd lib p fd tr))"
    "owns x d (SSL_set_connect_state p tr)" "owns x d (snd (SSL_listen lib p tr))"
    "owns x d (snd (SSL_set_blocking_mode lib p b tr))" "owns x d (snd (SSL_connect lib p tr))"
    "owns x d (snd (SSL_handle_events lib p tr))" "owns x d (snd (SSL_shutdown lib p tr))"
    "owns x d (snd (SSL_get_error lib p r tr))" "owns x d (snd (SSL_get_conn_close_info lib p tr))"
    "owns x d (snd (SSL_get_event_timeout lib p tr))" "owns x d (snd (SSL_net_write_desired lib p tr))"
    "owns x d (snd (SSL_write_ex lib p bs tr))" "owns x d (snd (SSL_read_ex lib p n tr))"
    "owns x d (snd (SSL_pending lib p tr))"
  using assms by (simp_all add: ssl_defs Let_def owns_call)

lemma owns_sys_calls [simp]:
  assumes "owns x d tr"
  shows "owns x d (snd (sys_setsockopt os fd opt tr))" "owns x d (snd (sys_bind os fd a tr))"
    "owns x d (snd (sys_connect os fd a tr))" "owns x d (snd (sys_clock os tr))"
    "owns x d (snd (sys_close os fd tr))" "owns x d (snd (sys_select_rw os nfds rd wr tv tr))"
  using assms by (simp_all add: owns_ext)

text \<open>A new object replaces the pointer it is stored in; exactness needs that pointer to be null.\<close>

lemma owns_create:
  assumes "owns x d tr" and "set_option (call_arg call) \<subseteq> owned d" and "call_freed call = None"
    and "call_created call = p" and "p = fresh ok tr"
  shows "(x \<Longrightarrow> qd_ctx d = None) \<Longrightarrow> owns x (d\<lparr>qd_ctx := p\<rparr>) (EvSsl call # tr)"
    and "(x \<Longrightarrow> qd_listener d = None) \<Longrightarrow> owns x (d\<lparr>qd_listener := p\<rparr>) (EvSsl call # tr)"
    and "(x \<Longrightarrow> qd_conn d = None) \<Longrightarrow> owns x (d\<lparr>qd_conn := p\<rparr>) (EvSsl call # tr)"
proof -
  have sane: "sane (EvSsl call # tr)"
    using assms by (intro sane_call) (auto simp: owns_def fresh_def)
  have new: "length tr \<notin> in_use tr" using assms(1) by (simp add: owns_def sane_fresh)
  then have "length tr \<notin> owned d" using assms(1) by (auto simp: owns_def)
  then have own: "qd_ctx d \<noteq> Some (length tr)" "qd_listener d \<noteq> Some (length tr)" "qd_conn d \<noteq> Some (length tr)"
    by (auto simp: owned_def)
  note defs = owns_def owned_def different_def fresh_def
  show "(x \<Longrightarrow> qd_ctx d = None) \<Longrightarrow> owns x (d\<lparr>qd_ctx := p\<rparr>) (EvSsl call # tr)"
    using assms sane own by (auto simp: defs)
  show "(x \<Longrightarrow> qd_listener d = None) \<Longrightarrow> owns x (d\<lparr>qd_listener := p\<rparr>) (EvSsl call # tr)"
    using assms sane own by (auto simp: defs)
  show "(x \<Longrightarrow> qd_conn d = None) \<Longrightarrow> owns x (d\<lparr>qd_conn := p\<rparr>) (EvSsl call # tr)"
    using assms sane own by (auto simp: defs)
qed

lemma owns_new [simp]:
  assumes "owns x d tr" and "set_option q \<subseteq> owned d"
  shows "x \<longrightarrow> qd_conn d = None \<Longrightarrow> owns x (d\<lparr>qd_conn := fst (SSL_new lib q tr)\<rparr>) (snd (SSL_new lib q tr))"
    "x \<longrightarrow> qd_conn d = None \<Longrightarrow>
       owns x (d\<lparr>qd_conn := fst (SSL_accept_connection lib q tr)\<rparr>) (snd (SSL_accept_connection lib q tr))"
    "x \<longrightarrow> qd_listener d = None \<Longrightarrow>
       owns x (d\<lparr>qd_listener := fst (SSL_new_listener lib q tr)\<rparr>) (snd (SSL_new_listener lib q tr))"
    "x \<longrightarrow> qd_ctx d = None \<Longrightarrow>
       owns x (d\<lparr>qd_ctx := fst (SSL_CTX_new lib srv tr)\<rparr>) (snd (SSL_CTX_new lib srv tr))"
  using assms by (auto simp: ssl_defs Let_def intro!: owns_create)

text \<open>Freeing: the pointer is cleared, its object is no longer in use.\<close>

lemma owns_free [simp]:
  assumes "owns x d tr"
  shows "owns x (d\<lparr>qd_ctx := None\<rparr>) (SSL_CTX_free (qd_ctx d) tr)"
    "owns x (d\<lparr>qd_listener := None\<rparr>) (SSL_free (qd_listener d) tr)"
    "owns x (d\<lparr>qd_conn := None\<rparr>) (SSL_free (qd_conn d) tr)"
  using assms
  by (auto simp: ssl_defs owns_def owned_def different_def split: option.splits intro!: sane_call)

text \<open>Forgetting a pointer without freeing its object keeps the weak form only.\<close>

lemma owns_forget:
  "owns False d tr \<Longrightarrow> owns False (d\<lparr>qd_conn := None\<rparr>) tr"
  by (auto simp: owns_def owned_def different_def)

section \<open>The invariant of the connection\<close>

text \<open>
  The suites behind the configuration's pointer are as many as it says; the callback, the sessions and
  the data are there.
\<close>

definition quic_frame :: "'a quic_conn \<Rightarrow> bool" where
  "quic_frame c \<longleftrightarrow> fds_ok c \<and> c_udp c \<noteq> None \<and> c_ctrl c \<noteq> None \<and> c_callback c \<and>
     (\<forall>cfg. c_config c = Some cfg \<longrightarrow> qc_tls13_suites_len cfg \<le> length (qc_tls13_suites cfg))"

definition quic_inv :: "bool \<Rightarrow> 'a quic_conn \<Rightarrow> bool" where
  "quic_inv exact c \<longleftrightarrow> quic_frame c \<and> (\<exists>d. c_data c = Some d \<and> owns exact d (c_trace c))"

lemma quic_frame_simps [simp]:
  "quic_frame (c\<lparr>c_trace := t\<rparr>) = quic_frame c" "quic_frame (c\<lparr>c_data := d\<rparr>) = quic_frame c"
  "quic_frame (c\<lparr>c_app := a\<rparr>) = quic_frame c"
  by (simp_all add: quic_frame_def)

lemma quic_frame_ctrl [simp]: "quic_frame c \<Longrightarrow> k \<noteq> None \<Longrightarrow> quic_frame (c\<lparr>c_ctrl := k\<rparr>)"
  by (simp add: quic_frame_def)

lemma quic_inv_simps [simp]:
  "quic_inv x (c\<lparr>c_app := a\<rparr>) = quic_inv x c"
  "quic_inv x (c\<lparr>c_data := Some d\<rparr>) = (quic_frame c \<and> owns x d (c_trace c))"
  "quic_inv x (c\<lparr>c_trace := t, c_data := Some d\<rparr>) = (quic_frame c \<and> owns x d t)"
  "quic_inv x (c\<lparr>c_data := Some d, c_trace := t\<rparr>) = (quic_frame c \<and> owns x d t)"
  by (simp_all add: quic_inv_def)

lemma quic_inv_ctrl [simp]: "quic_inv x c \<Longrightarrow> k \<noteq> None \<Longrightarrow> quic_inv x (c\<lparr>c_ctrl := k\<rparr>)"
  by (auto simp: quic_inv_def)

lemma quic_frame_has_ctrl: "quic_frame c \<Longrightarrow> \<exists>k. c_ctrl c = Some k"
  by (auto simp: quic_frame_def)

lemma quic_inv_has_ctrl: "quic_inv x c \<Longrightarrow> c_ctrl c \<noteq> None"
  by (simp add: quic_inv_def quic_frame_def)

lemma quic_invE:
  assumes "quic_inv x c"
  obtains d where "quic_frame c" "c_data c = Some d" "owns x d (c_trace c)"
  using assms by (auto simp: quic_inv_def)

lemma quic_inv_trace:
  "c_data c = Some d \<Longrightarrow> quic_frame c \<Longrightarrow> owns x d t \<Longrightarrow> quic_inv x (c\<lparr>c_trace := t\<rparr>)"
  by (simp add: quic_inv_def)

lemma quic_inv_ext: "quic_inv x c \<Longrightarrow> sys_ext (c_trace c) t \<Longrightarrow> quic_inv x (c\<lparr>c_trace := t\<rparr>)"
  by (auto simp: quic_inv_def owns_ext)

lemma quic_inv_upd_data:
  "quic_inv x c \<Longrightarrow> (\<And>d t. owns x d t \<Longrightarrow> owns x (f d) t) \<Longrightarrow> quic_inv x (upd_data f c)"
  by (auto simp: quic_inv_def upd_data_def)

lemma quic_keeps_with_data:
  assumes "quic_inv x c"
    and "\<And>d. c_data c = Some d \<Longrightarrow> quic_frame c \<Longrightarrow> owns x d (c_trace c) \<Longrightarrow> keeps P (f d c)"
  shows "keeps P (with_data f c)"
  using assms by (auto simp: with_data_def elim!: quic_invE)

section \<open>Cipher suites\<close>

lemma poke_lenD: "poke m i bs = Some m' \<Longrightarrow> length m' = length m"
  by (auto simp: poke_Some)

lemma custom_loop_no_fault:
  assumes "i + n \<le> length suites" and "length buf = 256" and "off < 256"
  shows "custom_loop suites n i off buf = Ret None \<or>
    (\<exists>off' buf'. custom_loop suites n i off buf = Ret (Some (off', buf')) \<and> length buf' = 256 \<and> off' < 256)"
  using assms
proof (induction suites n i off buf rule: custom_loop.induct)
  case (2 suites n i off buf)
  show ?case
  proof (cases "suite_to_name (suites ! i)")
    case (Some name)
    show ?thesis
    proof (cases "256 \<le> off + length name + 1")
      case False
      define off1 where "off1 = (if 0 < i then off + 1 else off)"
      obtain buf1 where b1: "(if 0 < i then poke buf off (ascii '':'') else Some buf) = Some buf1"
        and l1: "length buf1 = 256"
        using False 2(3-) by (cases "0 < i") (auto simp: poke_def ascii_def)
      have "off1 + length name \<le> 256" using False by (auto simp: off1_def)
      then obtain buf2 where b2: "poke buf1 off1 name = Some buf2" and l2: "length buf2 = 256"
        using l1 by (auto simp: poke_def)
      have "off1 + length name < 256" using False by (auto simp: off1_def)
      from 2(1) [OF _ Some False b1 off1_def b2 _ l2 this] 2(2-) Some False b1 b2 show ?thesis
        by (simp add: off1_def [symmetric])
    qed (use 2(2) Some in auto)
  qed (use 2(2) in auto)
qed simp

lemma apply_keeps:
  assumes "owns x d tr" and "set_option ctx \<subseteq> owned d"
    and "qc_tls13_suites_len cfg \<le> length (qc_tls13_suites cfg)"
  shows "keeps (owns x d) (apply_tls13_ciphersuites lib os ctx cfg tr)"
proof -
  have set: "owns x d t" if "SSL_CTX_set lib ctx s tr = (r, t)" for s r t
    using owns_calls(1) [OF assms(1,2), of lib s] that by simp
  have "custom_loop (qc_tls13_suites cfg) (qc_tls13_suites_len cfg) 0 0 (garbage os 256 tr) = Ret None \<or>
    (\<exists>off' buf'. custom_loop (qc_tls13_suites cfg) (qc_tls13_suites_len cfg) 0 0 (garbage os 256 tr) =
       Ret (Some (off', buf')) \<and> length buf' = 256 \<and> off' < 256)"
    using assms(3) by (intro custom_loop_no_fault) auto
  then show ?thesis
    using assms(1) set
    by (auto simp: apply_tls13_ciphersuites_def Let_def poke_def split: prod.splits)
qed

section \<open>Initialisation\<close>

lemma quic_keeps_on_trace:
  assumes "quic_frame c" and "c_data c = Some d" and "keeps (owns x d) (f (c_trace c))"
  shows "keeps (quic_inv x) (on_trace f c)"
  using assms by (auto simp: keeps_def on_trace_eq quic_inv_def)

lemma client_context_keeps:
  assumes "owns x d tr" and "set_option ctx \<subseteq> owned d"
    and "qc_tls13_suites_len cfg \<le> length (qc_tls13_suites cfg)"
  shows "keeps (owns x d) (client_context lib os cfg ctx tr)"
  using assms by (auto simp: client_context_def split_beta Let_def intro!: keeps_chain apply_keeps)

lemma server_context_keeps:
  assumes "owns x d tr" and "set_option ctx \<subseteq> owned d"
    and "qc_tls13_suites_len cfg \<le> length (qc_tls13_suites cfg)"
  shows "keeps (owns x d) (server_context lib os cfg cert key ctx tr)"
  using assms by (auto simp: server_context_def split_beta Let_def intro!: keeps_chain apply_keeps)

lemma bind_socket_keeps: "quic_inv x c \<Longrightarrow> keeps (quic_inv x) (bind_socket os cfg us k c)"
  by (auto simp: bind_socket_def on_trace_eq quic_inv_ext upd_data_def split: option.splits
      intro!: quic_inv_ext elim!: quic_invE)

lemma prepare_context_keeps:
  assumes "quic_inv x c" and "c_data c = Some d"
    and "\<And>ctx d t. owns x d t \<Longrightarrow> set_option ctx \<subseteq> owned d \<Longrightarrow> keeps (owns x d) (setup ctx t)"
    and "\<And>c. quic_inv x c \<Longrightarrow> keeps (quic_inv x) (k c)"
  shows "keeps (quic_inv x) (prepare_context lib srv setup d k c)"
proof -
  let ?t = "SSL_CTX_free (qd_ctx d) (c_trace c)"
  let ?p = "fst (SSL_CTX_new lib srv ?t)"
  let ?c = "c\<lparr>c_trace := snd (SSL_CTX_new lib srv ?t), c_data := Some (d\<lparr>qd_ctx := ?p\<rparr>)\<rparr>"
  have "quic_frame c" and own: "owns x d (c_trace c)" using assms(1,2) by (auto elim: quic_invE)
  moreover have own': "owns x (d\<lparr>qd_ctx := ?p\<rparr>) (snd (SSL_CTX_new lib srv ?t))"
    using owns_new(4) [OF owns_free(1) [OF own], of None] by simp
  ultimately have inv: "quic_inv x ?c" by simp
  have "set_option ?p \<subseteq> owned (d\<lparr>qd_ctx := ?p\<rparr>)" by (auto simp: owned_def)
  with assms(3) own' have "keeps (owns x (d\<lparr>qd_ctx := ?p\<rparr>)) (setup ?p (snd (SSL_CTX_new lib srv ?t)))" by blast
  with \<open>quic_frame c\<close> have "keeps (quic_inv x) (on_trace (setup ?p) ?c)"
    by (intro quic_keeps_on_trace) auto
  then show ?thesis
    using inv assms(4) by (auto simp: prepare_context_def on_trace_eq renew_ctx_def Let_def intro!: keeps_chain)
qed

lemma quic_init_keeps: "quic_inv x c \<Longrightarrow> keeps (quic_inv x) (ossl_quic_init lib os c)"
  by (auto simp: ossl_quic_init_def quic_frame_def split: option.splits elim!: quic_invE
      intro!: prepare_context_keeps client_context_keeps server_context_keeps bind_socket_keeps)
     (auto simp: quic_inv_def quic_frame_def)

section \<open>Hole punching and connecting\<close>

text \<open>Hole punching sends and receives probes only.\<close>

fun punch_event :: "event \<Rightarrow> bool" where
  "punch_event (EvSendto fd g a dw r) = True"
| "punch_event (EvRecv fd cap dw r) = (cap = 3)"
| "punch_event (EvSetsockopt fd opt r) = True"
| "punch_event (EvSleep n) = True"
| "punch_event _ = False"

lemma punch_calls [simp]:
  assumes "trace_ext punch_event tr t"
  shows "trace_ext punch_event tr (snd (sys_sendto os fd bs a dw t))" "trace_ext punch_event tr (snd (sys_recv os fd 3 dw t))"
    "trace_ext punch_event tr (snd (sys_setsockopt os fd opt t))" "trace_ext punch_event tr (msleep n t)"
  using assms by (simp_all add: sys_defs Let_def)

lemma punch_keep_alive_ext:
  "trace_ext punch_event tr (snd (punch_keep_alive os fd dst fuel tr)) \<and> fst (punch_keep_alive os fd dst fuel tr) \<noteq> Fault"
proof (induction os fd dst fuel tr rule: punch_keep_alive.induct)
  case (2 os fd dst fuel tr)
  obtain r t where r: "sys_sendto os fd [0] dst False tr = (r, t)" by fastforce
  with punch_calls(1) [OF trace_ext_refl, of tr os fd "[0]" dst False] have "trace_ext punch_event tr t" by simp
  with 2 r show ?case by (auto split: sum.splits intro: trace_ext_trans)
qed simp

lemma punch_discover_ext:
  "trace_ext punch_event tr (snd (punch_discover os mode fd dst fuel tr)) \<and> fst (punch_discover os mode fd dst fuel tr) \<noteq> Fault"
proof (induction fuel arbitrary: tr)
  case (Suc fuel)
  let ?s = "if mode = CHR ''c'' then sys_sendto os fd probe dst False tr else (Inr 0, tr)"
  have nxt: "trace_ext punch_event tr (snd (punch_discover os mode fd dst fuel t)) \<and>
      fst (punch_discover os mode fd dst fuel t) \<noteq> Fault" if "trace_ext punch_event tr t" for t
    using Suc that by (blast intro: trace_ext_trans)
  obtain s t1 where s: "?s = (s, t1)" by fastforce
  have t1: "trace_ext punch_event tr t1"
    using s punch_calls(1) [OF trace_ext_refl] by (metis (full_types) snd_conv trace_ext_refl)
  obtain r t2 where r: "sys_recv os fd 3 False t1 = (r, t2)" by fastforce
  have t2: "trace_ext punch_event tr t2" using punch_calls(2) [OF t1, of os fd False] r by simp
  obtain k t3 where k: "punch_keep_alive os fd dst fuel t2 = (k, t3)" by fastforce
  have t3: "trace_ext punch_event tr t3" and "k \<noteq> Fault"
    using punch_keep_alive_ext [of t2 os fd dst fuel] t2 k by (auto intro: trace_ext_trans)
  have ka: "trace_ext punch_event tr (snd (chain (k, t3) (\<lambda>ok tr3. if ok then punch_discover os mode fd dst fuel tr3
       else (Ret False, tr3)))) \<and> fst (chain (k, t3) (\<lambda>ok tr3. if ok then punch_discover os mode fd dst fuel tr3
       else (Ret False, tr3))) \<noteq> Fault"
    using nxt [OF t3] t3 \<open>k \<noteq> Fault\<close> by (cases k) auto
  show ?case
    using nxt t1 t2 ka unfolding punch_discover.simps s prod.case
    by (auto simp: r k split: sum.splits)
qed simp

lemma punch_transient_ext: "trace_ext punch_event tr (snd (punch_transient os fd dst n punched tr))"
proof (induction n arbitrary: punched tr)
  case (Suc n)
  obtain s t1 where s: "sys_sendto os fd probe dst False tr = (s, t1)" by fastforce
  have t1: "trace_ext punch_event tr t1" using s punch_calls(1) [OF trace_ext_refl, of tr os fd probe dst False] by simp
  obtain r t3 where r: "sys_recv os fd 3 True (msleep 50 t1) = (r, t3)" by fastforce
  have t3: "trace_ext punch_event tr t3" using punch_calls(2) [of tr "msleep 50 t1" os fd True] t1 r by simp
  have "trace_ext punch_event tr (snd (punch_transient os fd dst n b t))" if "trace_ext punch_event tr t" for b t
    using Suc that by (blast intro: trace_ext_trans)
  with t1 t3 show ?case by (auto simp: s r Let_def split: sum.splits)
qed simp

lemma punch_events:
  "trace_ext punch_event tr (snd (punch os mode fd dst fuel tr)) \<and> fst (punch os mode fd dst fuel tr) \<noteq> Fault"
proof -
  let ?opt = "\<lambda>n. SO_RCVTIMEO \<lparr>tv_sec = n, tv_usec = 0\<rparr>"
  obtain r t1 where r: "sys_setsockopt os fd (?opt 1) tr = (r, t1)" by fastforce
  have t1: "trace_ext punch_event tr t1" using r punch_calls(3) [OF trace_ext_refl, of tr os fd "?opt 1"] by simp
  obtain f t2 where f: "punch_discover os mode fd dst fuel t1 = (f, t2)" by fastforce
  have t2: "trace_ext punch_event tr t2" and "f \<noteq> Fault"
    using punch_discover_ext [of t1 os mode fd dst fuel] t1 f by (auto intro: trace_ext_trans)
  obtain p t3 where p: "punch_transient os fd dst 10 False t2 = (p, t3)" by fastforce
  have t3: "trace_ext punch_event tr t3" using punch_transient_ext [of t2 os fd dst 10 False] t2 p by (auto intro: trace_ext_trans)
  obtain q t4 where q: "sys_setsockopt os fd (?opt 0) t3 = (q, t4)" by fastforce
  have "trace_ext punch_event tr t4" using q punch_calls(3) [OF t3, of os fd "?opt 0"] by simp
  with t1 t2 t3 \<open>f \<noteq> Fault\<close> show ?thesis
    by (cases f) (auto simp: punch_def r f p q split: option.splits)
qed

lemma punch_ext: "sys_ext tr (snd (punch os mode fd dst fuel tr)) \<and> fst (punch os mode fd dst fuel tr) \<noteq> Fault"
proof -
  have "punch_event e \<Longrightarrow> \<not> is_EvSsl e" for e by (cases e) auto
  then show ?thesis using punch_events [of tr os mode fd dst fuel] by (auto intro: trace_ext_mono)
qed

lemma quic_hole_punching_keeps: "quic_inv x c \<Longrightarrow> keeps (quic_inv x) (ossl_quic_hole_punching os fuel c)"
  using punch_ext by (auto simp: ossl_quic_hole_punching_def keeps_def on_trace_eq quic_inv_ext split: option.splits)

text \<open>Connecting stores new objects; in the exact form there must be none yet.\<close>

definition unconnected :: "'a quic_conn \<Rightarrow> bool" where
  "unconnected c \<longleftrightarrow> (\<forall>d. c_data c = Some d \<longrightarrow> qd_conn d = None \<and> qd_listener d = None)"

lemma pre_connect_client_keeps:
  assumes "quic_frame c" and "owns x d (c_trace c)" and "x \<longrightarrow> qd_conn d = None"
  shows "keeps (quic_inv x) (pre_connect_client lib os us d c)"
proof -
  let ?p = "fst (SSL_new lib (qd_ctx d) (c_trace c))"
  have "owns x (d\<lparr>qd_conn := ?p\<rparr>) (snd (SSL_new lib (qd_ctx d) (c_trace c)))"
    by (rule owns_new(1)) (use assms in auto)
  moreover have "set_option ?p \<subseteq> owned (d\<lparr>qd_conn := ?p\<rparr>)" by (auto simp: owned_def)
  ultimately show ?thesis
    using assms(1) by (auto simp: pre_connect_client_def on_trace_eq Let_def split: option.splits)
qed

lemma pre_connect_server_keeps:
  assumes "quic_frame c" and "owns x d (c_trace c)" and "x \<longrightarrow> qd_conn d = None \<and> qd_listener d = None"
  shows "keeps (quic_inv x) (pre_connect_server lib us d c)"
proof -
  let ?p = "fst (SSL_new_listener lib (qd_ctx d) (c_trace c))"
  let ?d = "d\<lparr>qd_conn := None, qd_listener := ?p\<rparr>"
  have "owns x (d\<lparr>qd_listener := ?p\<rparr>) (snd (SSL_new_listener lib (qd_ctx d) (c_trace c)))"
    by (rule owns_new(3)) (use assms in auto)
  then have "owns x ?d (snd (SSL_new_listener lib (qd_ctx d) (c_trace c)))"
  proof (cases x)
    case True
    then have "?d = d\<lparr>qd_listener := ?p\<rparr>" using assms(3) by (cases d) simp
    then show ?thesis using \<open>owns x (d\<lparr>qd_listener := ?p\<rparr>) _\<close> by simp
  next
    case False
    have "?d = (d\<lparr>qd_listener := ?p\<rparr>)\<lparr>qd_conn := None\<rparr>" by simp
    then show ?thesis using False \<open>owns x (d\<lparr>qd_listener := ?p\<rparr>) _\<close> owns_forget by metis
  qed
  moreover have "set_option ?p \<subseteq> owned ?d" by (auto simp: owned_def)
  ultimately show ?thesis
    using assms(1) by (auto simp: pre_connect_server_def on_trace_eq Let_def split: option.splits)
qed

lemma pre_connect_keeps:
  "quic_inv x c \<Longrightarrow> x \<longrightarrow> unconnected c \<Longrightarrow> keeps (quic_inv x) (ossl_quic_pre_connect lib os c)"
  by (auto simp: ossl_quic_pre_connect_def unconnected_def split: option.splits elim!: quic_invE
      intro!: pre_connect_client_keeps pre_connect_server_keeps)

text \<open>As a server, the connection object is still missing when the handshake starts.\<close>

definition no_conn :: "'a quic_conn \<Rightarrow> bool" where
  "no_conn c \<longleftrightarrow> (\<forall>d. c_data c = Some d \<longrightarrow> qd_conn d = None)"

lemma pre_connect_no_conn:
  assumes "ossl_quic_pre_connect lib os c = (r, c')" and "c_ctrl c = Some k" and "cc_mode k = CHR ''s''"
    and "c_udp c \<noteq> None"
  shows "no_conn c'"
  using assms
  by (auto simp: ossl_quic_pre_connect_def pre_connect_server_def no_conn_def on_trace_eq Let_def
      split: option.splits if_splits)

lemma handshake_keeps:
  assumes "quic_inv x c" and "x \<and> mode = CHR ''s'' \<longrightarrow> no_conn c"
  shows "keeps (quic_inv x) (handshake lib mode c)"
  unfolding handshake_def
proof (rule quic_keeps_with_data [OF assms(1)])
  fix d assume d: "c_data c = Some d" "quic_frame c" "owns x d (c_trace c)"
  have "owns x (d\<lparr>qd_conn := fst (SSL_accept_connection lib (qd_listener d) (c_trace c))\<rparr>)
      (snd (SSL_accept_connection lib (qd_listener d) (c_trace c)))" if "mode = CHR ''s''"
    by (rule owns_new(2)) (use d assms(2) that in \<open>auto simp: no_conn_def\<close>)
  with d assms(1) show "keeps (quic_inv x)
      (if mode = CHR ''c'' then let (r, c1) = on_trace (SSL_connect lib (qd_conn d)) c in (Ret (r \<noteq> 0), c1)
       else if mode = CHR ''s''
       then let (p, c1) = on_trace (SSL_accept_connection lib (qd_listener d)) c
            in (Ret (p \<noteq> None), c1\<lparr>c_data := Some (d\<lparr>qd_conn := p\<rparr>)\<rparr>)
       else (Ret False, c))"
    by (auto simp: on_trace_eq intro!: quic_inv_trace)
qed

section \<open>Shutting down\<close>

lemma quic_monotonic_ext [simp]: "sys_ext tr t \<Longrightarrow> sys_ext tr (snd (quic_monotonic_ms os t))"
  by (simp add: quic_monotonic_ms_def sys_defs Let_def split: option.split)

lemma record_close_owns:
  assumes "record_close_status lib d tr = (b, d', t)" and "owns x d tr"
  shows "owns x d' t \<and> qd_conn d' = qd_conn d"
proof -
  have "owns x d (snd (SSL_get_conn_close_info lib (qd_conn d) tr))" using assms(2) by simp
  then show ?thesis
    using assms(1) by (auto simp: record_close_status_def split: prod.splits option.splits if_splits)
qed

lemma shutdown_wait_step_owns:
  assumes "owns x d tr" and "set_option p \<subseteq> owned d"
  shows "owns x d (snd (shutdown_wait_step lib os fd deadline p tr))"
proof -
  have sel: "owns x d (snd (shutdown_select lib os fd p tv t))" if "owns x d t" for tv t
    using that assms(2) by (auto simp: shutdown_select_def split_beta split: sum.splits)
  have clk: "owns x d (snd (quic_monotonic_ms os tr))"
    using assms(1) by (rule owns_ext) simp
  show ?thesis
    using assms sel clk owns_calls(11) [OF clk assms(2), of lib]
    by (auto simp: shutdown_wait_step_def split_beta split: option.splits)
qed

lemma shutdown_failed_owns:
  "owns x d tr \<Longrightarrow> set_option p \<subseteq> owned d \<Longrightarrow> owns x d (snd (shutdown_failed lib p r tr))"
  by (auto simp: shutdown_failed_def split_beta)

text \<open>
  What an iteration does, seen from its end: its value and the data and trace it leaves, for a
  property \<open>P\<close> of data and trace that every call keeps.
\<close>

lemma shutdown_iter_invariant:
  assumes "P d tr"
    and "\<And>d t. P d t \<Longrightarrow> P d (snd (SSL_handle_events lib (qd_conn d) t))"
    and "\<And>d t. P d t \<Longrightarrow> P d (snd (SSL_shutdown lib (qd_conn d) t))"
    and "\<And>d t r. P d t \<Longrightarrow> P d (snd (shutdown_failed lib (qd_conn d) r t))"
    and "\<And>d t b d' t'. record_close_status lib d t = (b, d', t') \<Longrightarrow> P d t \<Longrightarrow> P d' t'"
    and "\<And>d t. P d t \<Longrightarrow> P d (snd (shutdown_wait_step lib os fd deadline (qd_conn d) t))"
    and "shutdown_iter lib os fd deadline d tr = (r, d', tr')"
  shows "P d' tr'"
proof -
  define t1 where "t1 = snd (SSL_handle_events lib (qd_conn d) tr)"
  define t2 where "t2 = snd (SSL_shutdown lib (qd_conn d) t1)"
  define t3 where "t3 = snd (shutdown_failed lib (qd_conn d) (fst (SSL_shutdown lib (qd_conn d) t1)) t2)"
  obtain b1 d1 u1 where r1: "record_close_status lib d t2 = (b1, d1, u1)" by (metis prod.exhaust)
  obtain b2 d2 u2 where r2: "record_close_status lib d t3 = (b2, d2, u2)" by (metis prod.exhaust)
  have t: "P d t1" "P d t2" "P d t3" using assms(1-4) by (simp_all add: t1_def t2_def t3_def)
  have u: "P d1 u1" "P d2 u2" using assms(5) r1 r2 t by blast+
  show ?thesis
    using assms(7) t u assms(6) [OF u(2)]
    by (auto simp: shutdown_iter_def split_beta Let_def t1_def [symmetric] t2_def [symmetric] t3_def [symmetric] r1 r2
        split: if_splits)
qed

lemma shutdown_iter_owns:
  "owns x d tr \<Longrightarrow> shutdown_iter lib os fd deadline d tr = (r, d', tr') \<Longrightarrow> owns x d' tr'"
  by (rule shutdown_iter_invariant [of "owns x"])
     (auto simp: shutdown_failed_owns shutdown_wait_step_owns dest: record_close_owns)

lemma shutdown_loop_keeps:
  "owns x d tr \<Longrightarrow> keeps (\<lambda>(d', t). owns x d' t) (shutdown_loop lib os fd deadline fuel d tr)"
  by (induction fuel arbitrary: d tr) (auto dest: shutdown_iter_owns split: prod.split option.split)

lemma finish_shutdown_keeps:
  assumes "quic_inv x c"
  shows "keeps (quic_inv x) (finish_shutdown lib os fuel us c)"
  unfolding finish_shutdown_def
proof (rule quic_keeps_with_data [OF assms])
  fix d assume d: "c_data c = Some d" "quic_frame c" "owns x d (c_trace c)"
  let ?t = "snd (quic_monotonic_ms os (c_trace c))"
  have clk: "owns x d ?t"
    using d(3) by (rule owns_ext) simp
  have "keeps (\<lambda>(d', t). owns x d' t) (shutdown_loop lib os fd deadline fuel d ?t)" for fd deadline
    using clk by (rule shutdown_loop_keeps)
  then show "keeps (quic_inv x) (case on_trace (quic_monotonic_ms os) c of
      (None, c1) \<Rightarrow> (Ret UDP_CONN_ERR, c1)
    | (Some started, c1) \<Rightarrow>
        (if started < 0 \<or> us_socket_fd us < 0 \<or> FD_SETSIZE \<le> us_socket_fd us then (Ret UDP_CONN_ERR, c1)
         else let (st, d1, tr) = shutdown_loop lib os (us_socket_fd us) (started + 5000) fuel d (c_trace c1)
              in (st, c1\<lparr>c_data := Some d1, c_trace := tr\<rparr>)))"
    using d clk by (auto simp: on_trace_eq split_beta keeps_def intro: quic_inv_trace split: option.splits)
qed

section \<open>Operations that call the user\<close>

text \<open>The contract of the callback: it keeps the invariant and has no undefined behaviour.\<close>

locale quic_user =
  fixes cb :: "'a quic_callback" and exact :: bool
  assumes cb_keeps: "quic_inv exact c \<Longrightarrow> keeps (quic_inv exact) (cb reason bs c)"
begin

lemma quic_run_callback_keeps: "quic_inv exact c \<Longrightarrow> keeps (quic_inv exact) (run_callback cb reason bs c)"
  by (auto simp: run_callback_def quic_frame_def elim: quic_invE intro!: cb_keeps quic_inv_ext)

lemma quic_finish_connect_keeps:
  assumes "quic_inv exact c"
  shows "keeps (quic_inv exact) (finish_connect lib cb c)"
  unfolding finish_connect_def
  by (rule quic_keeps_with_data [OF assms])
     (use assms in \<open>auto simp: on_trace_eq intro!: keeps_chain quic_run_callback_keeps quic_inv_upd_data quic_inv_trace\<close>)

lemma quic_connect_keeps:
  assumes "quic_inv exact c" and "exact \<longrightarrow> unconnected c"
  shows "keeps (quic_inv exact) (ossl_quic_connect lib os cb c)"
proof -
  have "keeps (quic_inv exact) (chain (ossl_quic_pre_connect lib os c) (\<lambda>_ c1.
      chain (handshake lib (cc_mode k) c1) (\<lambda>ok c2.
        if ok then finish_connect lib cb c2 else (Ret UDP_CONN_ERR, c2))))"
    if k: "c_ctrl c = Some k" and us: "c_udp c = Some us" for k us
  proof (rule keeps_chain [OF pre_connect_keeps [OF assms]])
    fix r c1 assume pre: "ossl_quic_pre_connect lib os c = (Ret r, c1)" and inv: "quic_inv exact c1"
    have mode: "exact \<and> cc_mode k = CHR ''s'' \<longrightarrow> no_conn c1" using pre_connect_no_conn [OF pre k] us by simp
    show "keeps (quic_inv exact) (chain (handshake lib (cc_mode k) c1) (\<lambda>ok c2.
        if ok then finish_connect lib cb c2 else (Ret UDP_CONN_ERR, c2)))"
      by (rule keeps_chain [OF handshake_keeps [OF inv mode]]) (simp add: quic_finish_connect_keeps)
  qed
  then show ?thesis using assms(1) by (auto simp: ossl_quic_connect_def split: option.split)
qed

lemma quic_disconnect_keeps: "quic_inv exact c \<Longrightarrow> keeps (quic_inv exact) (ossl_quic_disconnect lib os cb fuel c)"
  by (auto simp: ossl_quic_disconnect_def Let_def split: option.split
      intro!: keeps_chain finish_shutdown_keeps quic_run_callback_keeps quic_inv_upd_data
      intro: quic_keeps_with_data)

lemma quic_udp_send_keeps:
  assumes "quic_inv exact c"
  shows "keeps (quic_inv exact) (ossl_quic_udp_send lib cb buf n c)"
proof -
  obtain d where d: "quic_frame c" "c_data c = Some d" "owns exact d (c_trace c)"
    using assms by (rule quic_invE)
  then have "quic_inv exact (c\<lparr>c_trace := snd (SSL_write_ex lib (qd_conn d) buf (c_trace c))\<rparr>)"
    by (auto intro: quic_inv_trace)
  with d assms show ?thesis
    by (auto simp: ossl_quic_udp_send_def on_trace_eq split: option.split intro!: keeps_chain quic_run_callback_keeps)
qed

lemma read_bound: "fst (SSL_read_ex lib p n tr) = Some bs \<Longrightarrow> length bs \<le> n"
  by (auto simp: ssl_defs Let_def)

lemma quic_udp_recv_keeps:
  assumes "quic_inv exact c" and "n \<le> length m"
  shows "keeps (quic_inv exact) (ossl_quic_udp_recv lib cb (Some m) n r c)"
proof -
  obtain d where d: "quic_frame c" "c_data c = Some d" "owns exact d (c_trace c)"
    using assms(1) by (rule quic_invE)
  let ?t = "snd (SSL_read_ex lib (qd_conn d) n (c_trace c))"
  have t: "owns exact d ?t" "owns exact d (snd (SSL_get_error lib (qd_conn d) 0 ?t))" using d by auto
  then have inv: "quic_inv exact (c\<lparr>c_trace := ?t\<rparr>)"
    "quic_inv exact (c\<lparr>c_trace := snd (SSL_get_error lib (qd_conn d) 0 ?t)\<rparr>)"
    using d by (auto intro: quic_inv_trace)
  have "length bs \<le> length m" if "fst (SSL_read_ex lib (qd_conn d) n (c_trace c)) = Some bs" for bs
    using read_bound [OF that] assms(2) by simp
  then show ?thesis
    using inv assms(1) d by (auto simp: ossl_quic_udp_recv_def on_trace_eq not_less split: option.split
        intro!: keeps_chain quic_run_callback_keeps)
qed

lemma quic_process_events_keeps:
  assumes "quic_inv exact c"
  shows "keeps (quic_inv exact) (ossl_quic_process_events lib os cb fuel c)"
proof -
  obtain d where d: "quic_frame c" "c_data c = Some d" "owns exact d (c_trace c)"
    using assms by (rule quic_invE)
  let ?t = "snd (SSL_handle_events lib (qd_conn d) (c_trace c))"
  have t: "owns exact d ?t" using d by auto
  obtain b d1 u where r: "record_close_status lib d ?t = (b, d1, u)" by (metis prod.exhaust)
  with record_close_owns [OF r t] d t have "quic_inv exact (c\<lparr>c_trace := u, c_data := Some d1\<rparr>)"
    "quic_inv exact (c\<lparr>c_trace := ?t\<rparr>)"
    by (auto intro: quic_inv_trace)
  with d r assms show ?thesis
    by (auto simp: ossl_quic_process_events_def on_trace_eq Let_def intro: quic_disconnect_keeps)
qed

end

section \<open>Release and queries\<close>

lemma owns_free_objects:
  assumes "owns x d tr"
  shows "owns x (d\<lparr>qd_conn := None, qd_listener := None, qd_ctx := None\<rparr>) (free_objects d tr)"
  using owns_free(1) [OF owns_free(2) [OF owns_free(3) [OF assms]]] by (simp add: free_objects_def)

lemma close_fd_ext [simp]: "sys_ext tr t \<Longrightarrow> sys_ext tr (snd (close_fd os fd t))"
  by (simp add: close_fd_def)

lemma close_fd_value: "fst (close_fd os fd t) = (if 0 \<le> fd then -1 else fd)"
  by (simp add: close_fd_def)

lemma close_fd_ok: "fd_ok fd \<Longrightarrow> fst (close_fd os fd t) = -1"
  by (auto simp: close_fd_def fd_ok_def)

lemma close_sockets_data [simp]:
  "c_data (close_sockets os c) = c_data c" "c_ctrl (close_sockets os c) = c_ctrl c"
  "c_callback (close_sockets os c) = c_callback c" "c_config (close_sockets os c) = c_config c"
  "c_app (close_sockets os c) = c_app c"
  by (auto simp: close_sockets_def split_beta Let_def split: option.splits)

lemma close_sockets_ext: "sys_ext (c_trace c) (c_trace (close_sockets os c))"
  by (auto simp: close_sockets_def split_beta Let_def split: option.splits)

lemma close_sockets_frame: "quic_frame c \<Longrightarrow> quic_frame (close_sockets os c)"
  by (auto simp: close_sockets_def split_beta Let_def quic_frame_def fds_ok_def fd_ok_def close_fd_value
      split: option.splits)

lemma close_sockets_inv: "quic_inv x c \<Longrightarrow> quic_inv x (close_sockets os c)"
  using close_sockets_ext [of c os] by (auto simp: quic_inv_def owns_ext close_sockets_frame)

lemma release_keeps:
  assumes "quic_inv x c"
  shows "keeps (quic_inv x) (release os c)"
  unfolding release_def
  by (rule quic_keeps_with_data [OF assms]) (auto simp: Let_def owns_free_objects intro!: quic_inv_ctrl close_sockets_inv dest: quic_frame_has_ctrl)

context quic_user
begin

lemma quic_deinit_keeps:
  "quic_inv exact c \<Longrightarrow> keeps (quic_inv exact) (ossl_quic_deinit lib os cb fuel c)"
  by (auto simp: ossl_quic_deinit_def split: option.split intro!: keeps_chain release_keeps quic_disconnect_keeps)

end

lemma quic_get_timeout_keeps: "quic_inv x c \<Longrightarrow> keeps (quic_inv x) (ossl_quic_get_timeout lib tv c)"
  by (auto simp: ossl_quic_get_timeout_def on_trace_eq split: option.split
      intro!: quic_inv_trace elim!: quic_invE)

lemma quic_pending_data_keeps: "quic_inv x c \<Longrightarrow> keeps (quic_inv x) (ossl_quic_pending_data lib c)"
  by (auto simp: ossl_quic_pending_data_def on_trace_eq with_data_def intro!: quic_inv_trace elim!: quic_invE)

lemma quic_send_ka_keeps: "quic_inv x c \<Longrightarrow> keeps (quic_inv x) (ossl_quic_udp_send_ka c)"
  by (auto simp: ossl_quic_udp_send_ka_def split: option.split)

end
