(* ===== verification/Ossl_Quic_App.thy ===== *)
theory Ossl_Quic_App
  imports Ossl_Quic_Inv Program
begin

text \<open>
  The main loop on top of the QUIC backend, and the application of
  \<open>tests/WebRTC/test_openssl_quic_udp\<close>: three rounds of requests and responses over a byte stream, with
  the messages reassembled in the callback.  The backend fulfils the contract of the main loop, so the
  whole program is memory safe, uses no OpenSSL object after it was freed and leaks none.
\<close>

section \<open>The backend fulfils the contract\<close>

definition quic_fresh :: "bool \<Rightarrow> 'a quic_conn \<Rightarrow> bool" where
  "quic_fresh exact c \<longleftrightarrow> quic_inv exact c \<and> (exact \<longrightarrow> unconnected c)"

lemma quic_inv_fds: "quic_inv x c \<Longrightarrow> fds_ok c \<and> (\<exists>us. c_udp c = Some us)"
  by (auto simp: quic_inv_def quic_frame_def)

lemma unconnected_simps [simp]:
  "unconnected (c\<lparr>c_trace := t\<rparr>) = unconnected c" "unconnected (c\<lparr>c_tcp := s\<rparr>) = unconnected c"
  by (simp_all add: unconnected_def)

lemma quic_inv_reads: "quic_inv x c \<Longrightarrow> quic_inv x (set_read_fds fds c)"
  using quic_inv_has_ctrl [of x c] by (simp add: set_read_fds_def)

lemma quic_inv_accepted:
  "quic_inv x c \<Longrightarrow> c_tcp c = Some ts \<Longrightarrow> fd_ok a \<Longrightarrow>
     quic_inv x (c\<lparr>c_tcp := Some (ts\<lparr>ts_accepted_sock := a\<rparr>)\<rparr>)"
  by (auto simp: quic_inv_def quic_frame_def fds_ok_def)

lemma quic_recv_bound:
  assumes "ossl_quic_udp_recv lib cb (Some m) n (Some 0) c = (Ret (st, m', r'), c')" and "n \<le> length m"
  shows "\<exists>m1 k. m' = Some m1 \<and> r' = Some k \<and> length m1 = length m \<and> k \<le> n"
  using assms
  by (auto simp: ossl_quic_udp_recv_def on_trace_eq chain_Ret_iff ssl_defs Let_def
      split: option.splits if_splits)

lemma quic_hole_punching_data: "c_data (snd (ossl_quic_hole_punching os fuel c)) = c_data c"
  by (simp add: ossl_quic_hole_punching_def split: option.split)

lemma quic_backend:
  assumes "quic_user cb exact"
  shows "udp_backend (ossl_quic_api lib os cb fuel) (quic_fresh exact) (quic_inv exact)"
proof -
  note user = quic_user.quic_connect_keeps [OF assms] quic_user.quic_udp_send_keeps [OF assms]
    quic_user.quic_udp_recv_keeps [OF assms] quic_user.quic_disconnect_keeps [OF assms]
    quic_user.quic_process_events_keeps [OF assms]
  have hp: "keeps (quic_fresh exact) (ossl_quic_hole_punching os fuel c)" if "quic_fresh exact c" for c
    using that quic_hole_punching_keeps [of exact c os fuel] quic_hole_punching_data [of os fuel c]
    by (simp add: quic_fresh_def keeps_def unconnected_def)
  show ?thesis
  proof unfold_locales
    fix c m n st m' r' c' and lib os fuel
    assume "n \<le> length m" and "api_udp_recv (ossl_quic_api lib os cb fuel) (Some m) n (Some 0) c = (Ret (st, m', r'), c')"
    then show "\<exists>m1 k. m' = Some m1 \<and> r' = Some k \<and> length m1 = length m \<and> k \<le> n"
      by (intro quic_recv_bound) (simp_all add: ossl_quic_api_def)
  qed (auto simp: ossl_quic_api_def hp quic_fresh_def dest: quic_inv_fds intro: user quic_inv_ext quic_inv_accepted
      quic_inv_reads quic_get_timeout_keeps quic_pending_data_keeps quic_send_ka_keeps)
qed

section \<open>The test application\<close>

record quic_test_app =
  qa_completed_rounds :: nat
  qa_test_failed :: bool
  qa_received :: "byte list"

type_synonym quic_test_api = "(ossl_quic_config, ossl_quic_data, quic_test_app) udp_conn_api"

abbreviation (input) QUIC_TEST_ROUNDS :: nat where "QUIC_TEST_ROUNDS \<equiv> 3"

definition quic_message :: "string \<Rightarrow> nat \<Rightarrow> byte list" where
  "quic_message kind round = ascii ''QUIC '' @ ascii kind @ ascii '' '' @ decimal round @ [10]"

definition quic_fail_test :: "quic_test_api \<Rightarrow> (quic_test_app, unit) quic_op" where
  "quic_fail_test api conn =
     chain (udp_conn_disconnect api (conn\<lparr>c_app := (c_app conn)\<lparr>qa_test_failed := True\<rparr>\<rparr>))
       (\<lambda>_ c. (Ret (), c))"

definition quic_send_message :: "quic_test_api \<Rightarrow> string \<Rightarrow> nat \<Rightarrow> (quic_test_app, bool) quic_op" where
  "quic_send_message api kind round conn =
     (let message = quic_message kind round; len = length message
      in if 64 \<le> len then chain (quic_fail_test api conn) (\<lambda>_ c. (Ret False, c))
         else chain (udp_conn_send api message (Some 0) conn) (\<lambda>(st, sent) c.
                if is_err st \<or> sent \<noteq> Some len then chain (quic_fail_test api c) (\<lambda>_ c'. (Ret False, c'))
                else (Ret True, c)))"

text \<open>
  After a validated round: the client asks again, or disconnects after the last response unless more
  bytes (\<open>rest\<close>) follow it.  False ends the callback.
\<close>

definition quic_round_done :: "quic_test_api \<Rightarrow> char \<Rightarrow> byte list \<Rightarrow> (quic_test_app, bool) quic_op" where
  "quic_round_done api mode rest conn =
     (let rounds = qa_completed_rounds (c_app conn) + 1;
          c1 = conn\<lparr>c_app := (c_app conn)\<lparr>qa_completed_rounds := rounds\<rparr>\<rparr>
      in if mode \<noteq> CHR ''c'' then (Ret True, c1)
         else if rounds < QUIC_TEST_ROUNDS then quic_send_message api ''request'' rounds c1
         else if rest \<noteq> [] then chain (quic_fail_test api c1) (\<lambda>_ c. (Ret False, c))
         else chain (udp_conn_disconnect api c1) (\<lambda>st c2.
                (Ret False, if is_err st then c2\<lparr>c_app := (c_app c2)\<lparr>qa_test_failed := True\<rparr>\<rparr> else c2)))"

text \<open>A complete line was received.\<close>

definition quic_line :: "quic_test_api \<Rightarrow> char \<Rightarrow> byte list \<Rightarrow> byte list \<Rightarrow> (quic_test_app, bool) quic_op" where
  "quic_line api mode line rest conn =
     (let rounds = qa_completed_rounds (c_app conn);
          expected = quic_message (if mode = CHR ''c'' then ''response'' else ''request'') rounds
      in if QUIC_TEST_ROUNDS \<le> rounds \<or> 64 \<le> length expected \<or> line \<noteq> expected
         then chain (quic_fail_test api conn) (\<lambda>_ c. (Ret False, c))
         else let c1 = conn\<lparr>c_app := (c_app conn)\<lparr>qa_received := []\<rparr>\<rparr>
              in if mode = CHR ''s''
                 then chain (quic_send_message api ''response'' rounds c1) (\<lambda>ok c2.
                        if ok then quic_round_done api mode rest c2 else (Ret False, c2))
                 else quic_round_done api mode rest c1)"

fun quic_bytes :: "quic_test_api \<Rightarrow> char \<Rightarrow> byte list \<Rightarrow> (quic_test_app, unit) quic_op" where
  "quic_bytes api mode [] conn = (Ret (), conn)"
| "quic_bytes api mode (b # rest) conn =
     (if length (qa_received (c_app conn)) = 64 then quic_fail_test api conn
      else let line = qa_received (c_app conn) @ [b];
               c1 = conn\<lparr>c_app := (c_app conn)\<lparr>qa_received := line\<rparr>\<rparr>
           in if b \<noteq> 10 then quic_bytes api mode rest c1
              else chain (quic_line api mode line rest c1) (\<lambda>more c2.
                     if more then quic_bytes api mode rest c2 else (Ret (), c2)))"

definition quic_callback_body :: "quic_test_api \<Rightarrow> quic_test_app quic_callback" where
  "quic_callback_body api reason data_in conn =
     (if qa_test_failed (c_app conn) \<or> c_tcp conn \<noteq> None then (Ret (), conn)
      else if reason \<noteq> OSSL_QUIC_UDP_CONNECTED \<and> reason \<noteq> OSSL_QUIC_UDP_RECV_DATA then (Ret (), conn)
      else if reason = OSSL_QUIC_UDP_RECV_DATA \<and> data_in = [] then quic_fail_test api conn
      else case c_ctrl conn of
        None \<Rightarrow> (Fault, conn)
      | Some k \<Rightarrow>
          (if reason = OSSL_QUIC_UDP_RECV_DATA then quic_bytes api (cc_mode k) data_in conn
           else if cc_mode k = CHR ''c''
           then chain (quic_send_message api ''request'' 0 conn) (\<lambda>_ c. (Ret (), c))
           else (Ret (), conn)))"

text \<open>
  Sending and disconnecting call the callback again; these nested calls return at once, so two levels
  of \<open>depth\<close> are enough.
\<close>

fun quic_test_callback :: "ssl_lib \<Rightarrow> os \<Rightarrow> nat \<Rightarrow> nat \<Rightarrow> quic_test_app quic_callback" where
  "quic_test_callback lib os fuel 0 reason data_in conn = (NoFuel, conn)"
| "quic_test_callback lib os fuel (Suc depth) reason data_in conn =
     quic_callback_body (ossl_quic_api lib os (quic_test_callback lib os fuel depth) fuel) reason data_in conn"

text \<open>
  The end of \<open>main\<close>: the outcome of the session is judged, the connection released; the value is the
  exit status.
\<close>

definition quic_finish :: "quic_test_api \<Rightarrow> udp_conn_status \<Rightarrow> (quic_test_app, int) quic_op" where
  "quic_finish api status =
     with_data (\<lambda>d conn.
       let incomplete = (status \<noteq> UDP_CONN_OK \<or> qa_completed_rounds (c_app conn) \<noteq> QUIC_TEST_ROUNDS \<or>
                         qa_received (c_app conn) \<noteq> [] \<or> qd_closed d = 0);
           c1 = (if incomplete then conn\<lparr>c_app := (c_app conn)\<lparr>qa_test_failed := True\<rparr>\<rparr> else conn)
       in chain (udp_conn_deinit api c1) (\<lambda>st c2.
            (Ret (if st \<noteq> UDP_CONN_OK \<or> qa_test_failed (c_app c2) then 1 else 0), c2)))"

text \<open>The part of \<open>main\<close> behind the set-up of socket and addresses.\<close>

definition quic_main ::
    "os \<Rightarrow> quic_test_api \<Rightarrow> int \<Rightarrow> nat \<Rightarrow> byte list \<Rightarrow> (quic_test_app, int) quic_op" where
  "quic_main os api last_errno fuel buf = run_session os api last_errno fuel buf (quic_finish api)"

text \<open>The objects of the program, and the program.\<close>

definition quic_globals :: "tcp_session option \<Rightarrow> 'a \<Rightarrow> 'a quic_conn" where
  "quic_globals tcp app = \<lparr>
     c_udp = Some \<lparr>us_socket_fd = 0, us_ka_miss_threshold = 0, us_dst = zero_addr, us_src = zero_addr\<rparr>,
     c_tcp = tcp, c_ctrl = Some \<lparr>cc_mode = CHR 0x00, cc_init = 0, cc_read_fds = []\<rparr>, c_callback = True,
     c_config = Some \<lparr>qc_tls13_preset = OSSL_TLS13_PRESET_DEFAULT, qc_tls13_suites = [], qc_tls13_suites_len = 0,
       qc_reuse = 1, qc_cert_file = Some (ascii ''./common/certs/server.crt''),
       qc_key_file = Some (ascii ''./common/certs/server.key'')\<rparr>,
     c_data = Some \<lparr>qd_closed = 0, qd_close_status = UDP_CONN_OK, qd_ctx = None, qd_listener = None, qd_conn = None\<rparr>,
     c_app = app, c_trace = []\<rparr>"

definition quic_udp_program ::
    "ssl_lib \<Rightarrow> os \<Rightarrow> (byte list \<Rightarrow> 32 word) \<Rightarrow> int \<Rightarrow> nat \<Rightarrow> nat \<Rightarrow> byte list \<Rightarrow> byte list list
       \<Rightarrow> int outcome \<times> quic_test_app quic_conn" where
  "quic_udp_program lib os inet_addr last_errno fuel depth buf argv =
     program False os inet_addr
       (quic_main os (ossl_quic_api lib os (quic_test_callback lib os fuel depth) fuel) last_errno fuel buf) argv
       (quic_globals None \<lparr>qa_completed_rounds = 0, qa_test_failed = False, qa_received = []\<rparr>)"

section \<open>The callback keeps the contract\<close>

locale quic_test_contract = quic_user cb exact for cb :: "quic_test_app quic_callback" and exact +
  fixes lib :: ssl_lib and os :: os and fuel :: nat and api :: quic_test_api
  assumes api_eq: "api = ossl_quic_api lib os cb fuel"
begin

lemma api_disconnect: "quic_inv exact c \<Longrightarrow> keeps (quic_inv exact) (udp_conn_disconnect api c)"
  by (simp add: udp_conn_disconnect_def api_eq ossl_quic_api_def quic_disconnect_keeps)

lemma api_send: "quic_inv exact c \<Longrightarrow> keeps (quic_inv exact) (udp_conn_send api m n c)"
  by (simp add: udp_conn_send_def api_eq ossl_quic_api_def quic_udp_send_keeps)

lemma fail_keeps: "quic_inv exact c \<Longrightarrow> keeps (quic_inv exact) (quic_fail_test api c)"
  by (auto simp: quic_fail_test_def intro!: keeps_chain api_disconnect)

lemma message_keeps: "quic_inv exact c \<Longrightarrow> keeps (quic_inv exact) (quic_send_message api kind n c)"
  by (auto simp: quic_send_message_def Let_def intro!: keeps_chain fail_keeps api_send split: prod.splits)

lemma round_keeps: "quic_inv exact c \<Longrightarrow> keeps (quic_inv exact) (quic_round_done api m rest c)"
  by (auto simp: quic_round_done_def Let_def intro!: keeps_chain fail_keeps message_keeps api_disconnect)

lemma line_keeps:
  assumes "quic_inv exact c"
  shows "keeps (quic_inv exact) (quic_line api m line rest c)"
proof -
  have "keeps (quic_inv exact) (chain (quic_send_message api ''response'' n c1)
      (\<lambda>ok c2. if ok then quic_round_done api m rest c2 else (Ret False, c2)))" if "quic_inv exact c1" for n c1
    by (rule keeps_chain [OF message_keeps [OF that]]) (simp add: round_keeps)
  with assms show ?thesis
    by (auto simp: quic_line_def Let_def intro!: keeps_chain [OF fail_keeps] round_keeps)
qed

lemma bytes_keeps: "quic_inv exact c \<Longrightarrow> keeps (quic_inv exact) (quic_bytes api m bs c)"
  by (induction bs arbitrary: c) (auto simp: Let_def intro!: keeps_chain fail_keeps line_keeps)

lemma body_keeps:
  assumes "quic_inv exact c"
  shows "keeps (quic_inv exact) (quic_callback_body api reason bs c)"
  using assms quic_inv_has_ctrl [OF assms]
  by (auto simp: quic_callback_body_def intro!: keeps_chain fail_keeps message_keeps bytes_keeps)

end

lemma quic_body_user:
  assumes "quic_user cb exact" and "quic_inv exact c"
  shows "keeps (quic_inv exact) (quic_callback_body (ossl_quic_api lib os cb fuel) reason bs c)"
proof -
  have "quic_test_contract cb exact lib os fuel (ossl_quic_api lib os cb fuel)"
    using assms(1) by (simp add: quic_test_contract_def quic_test_contract_axioms_def)
  then show ?thesis using assms(2) by (rule quic_test_contract.body_keeps)
qed

lemma quic_test_user: "quic_user (quic_test_callback lib os fuel depth) exact"
proof (induction depth)
  case 0
  show ?case by unfold_locales simp
next
  case (Suc depth)
  show ?case by unfold_locales (simp add: quic_body_user [OF Suc])
qed

interpretation quic_test: quic_test_contract "quic_test_callback lib os fuel depth" exact lib os fuel
    "ossl_quic_api lib os (quic_test_callback lib os fuel depth) fuel"
  for lib os fuel depth exact
  by (simp add: quic_test_contract_def quic_test_contract_axioms_def quic_test_user)

interpretation quic_app: udp_backend "ossl_quic_api lib os (quic_test_callback lib os fuel depth) fuel"
    "quic_fresh exact" "quic_inv exact"
  for lib os fuel depth exact
  by (rule quic_backend [OF quic_test_user])

section \<open>The whole program\<close>

text \<open>Initialisation leaves the pointers of connection and listener alone.\<close>

definition objects :: "'a quic_conn \<Rightarrow> (ptr \<times> ptr) option" where
  "objects c = map_option (\<lambda>d. (qd_conn d, qd_listener d)) (c_data c)"

lemma objects_simps [simp]:
  "objects (c\<lparr>c_trace := t\<rparr>) = objects c" "objects (c\<lparr>c_ctrl := k\<rparr>) = objects c"
  "objects (c\<lparr>c_data := Some d\<rparr>) = Some (qd_conn d, qd_listener d)"
  "objects (upd_data (\<lambda>d. d\<lparr>qd_closed := n, qd_close_status := st\<rparr>) c) = objects c"
  by (simp_all add: objects_def upd_data_def option.map_comp comp_def)

lemma objects_snd_on_trace [simp]: "objects (snd (on_trace f c)) = objects c"
  by (simp add: objects_def)

lemma unconnected_objects: "unconnected c \<longleftrightarrow> objects c = None \<or> objects c = Some (None, None)"
  by (cases "c_data c") (auto simp: unconnected_def objects_def)

lemma bind_socket_objects: "objects (snd (bind_socket os cfg us k c)) = objects c"
  by (auto simp: bind_socket_def on_trace_eq split: option.splits)

lemma prepare_context_objects:
  assumes "c_data c = Some d" and "\<And>c. objects (snd (k c)) = objects c"
  shows "objects (snd (prepare_context lib srv setup d k c)) = objects c"
proof -
  let ?r = "renew_ctx lib srv d (c_trace c)"
  let ?c = "c\<lparr>c_trace := snd ?r, c_data := Some (d\<lparr>qd_ctx := fst ?r\<rparr>)\<rparr>"
  obtain x c3 where x: "on_trace (setup (fst ?r)) ?c = (x, c3)" by fastforce
  then have "objects c3 = objects c"
    using objects_snd_on_trace [of "setup (fst ?r)" ?c] assms(1) by (simp add: objects_def)
  moreover have "objects ?c = objects c" using assms(1) by (simp add: objects_def)
  ultimately show ?thesis
    using x assms(2) by (cases x) (simp_all add: prepare_context_def on_trace_eq [of "renew_ctx lib srv d"] Let_def)
qed

lemma init_objects: "objects (snd (ossl_quic_init lib os c)) = objects c"
  by (simp add: ossl_quic_init_def prepare_context_objects bind_socket_objects split: option.split)

text \<open>Releasing a connection that owns exactly the objects in use leaves none in use.\<close>

lemma release_in_use:
  assumes "quic_inv True c" and "release os c = (Ret st, c')"
  shows "in_use (c_trace c') = {}"
proof -
  have "quic_inv True c'" using release_keeps [OF assms(1), of os] assms(2) by simp
  moreover have "\<exists>d'. c_data c' = Some d' \<and> owned d' = {}"
    using assms by (auto simp: release_def with_data_def Let_def quic_inv_def owned_def)
  ultimately show ?thesis by (auto simp: quic_inv_def owns_def)
qed

context quic_user
begin

lemma deinit_in_use:
  assumes "quic_inv exact c" and exact and "ossl_quic_deinit lib os cb fuel c = (Ret UDP_CONN_OK, c')"
  shows "in_use (c_trace c') = {}"
proof -
  have "quic_inv True c" using assms(1,2) by simp
  have "\<exists>c1. quic_inv True c1 \<and> release os c1 = (Ret UDP_CONN_OK, c')"
    using assms quic_disconnect_keeps [OF assms(1), of lib os fuel]
    by (auto simp: ossl_quic_deinit_def chain_Ret_iff split: option.splits if_splits)
  then show ?thesis using release_in_use by blast
qed

end

end
