(* ===== verification/Ossl_Quic_Session.thy ===== *)
theory Ossl_Quic_Session
  imports Ossl_Quic_App
begin

text \<open>
  The program around the QUIC backend as a whole, and what its operations promise: the use of OpenSSL
  objects, the release of every resource, the terminal state of disconnecting.
\<close>

section \<open>The whole program\<close>

lemma quic_api_init: "udp_conn_init (ossl_quic_api lib os cb fuel) = ossl_quic_init lib os"
  by (simp add: fun_eq_iff udp_conn_init_def ossl_quic_api_def)

lemma quic_init_fresh:
  assumes "quic_fresh True c"
  shows "keeps (quic_inv True) (ossl_quic_init lib os c)"
    and "ossl_quic_init lib os c = (Ret st, c1) \<Longrightarrow> quic_fresh True c1"
  using assms quic_init_keeps [of True c lib os] init_objects [of lib os c]
  by (auto simp: quic_fresh_def unconnected_objects)

lemma quic_finish_keeps:
  assumes "quic_inv True c"
  shows "keeps (quic_inv True)
    (quic_finish (ossl_quic_api lib os (quic_test_callback lib os fuel depth) fuel) status c)"
proof -
  let ?api = "ossl_quic_api lib os (quic_test_callback lib os fuel depth) fuel"
  have deinit: "keeps (quic_inv True) (udp_conn_deinit ?api c3)" if "quic_inv True c3" for c3
    using quic_test.quic_deinit_keeps [OF that] by (simp add: udp_conn_deinit_def ossl_quic_api_def)
  show ?thesis
    unfolding quic_finish_def
    by (rule quic_keeps_with_data [OF assms]) (use assms in \<open>auto simp: Let_def intro!: keeps_chain deinit\<close>)
qed

lemma quic_main_keeps:
  assumes "quic_fresh True c" and "length buf = TCP_MTU_SIZE"
    and "\<And>tr fd n. os_accept os tr fd = Inr n \<Longrightarrow> int n < FD_SETSIZE"
  shows "keeps (quic_inv True)
    (quic_main os (ossl_quic_api lib os (quic_test_callback lib os fuel depth) fuel) e fuel buf c)"
  unfolding quic_main_def
  by (rule quic_app.run_session_keeps)
     (use quic_init_fresh [OF assms(1), of lib os] assms(2,3) quic_finish_keeps in \<open>simp_all add: quic_api_init\<close>)

lemma finish_shutdown_app: "c_app (snd (finish_shutdown lib os fuel us c)) = c_app c"
  by (auto simp: finish_shutdown_def with_data_def on_trace_eq split_beta split: option.split)

lemma failed_callback_app:
  "qa_test_failed (c_app c) \<Longrightarrow> c_app (snd (run_callback (quic_test_callback lib os fuel depth) r bs c)) = c_app c"
  by (cases depth) (auto simp: run_callback_def quic_callback_body_def)

lemma upd_data_app [simp]: "c_app (upd_data f c) = c_app c"
  by (simp add: upd_data_def)

lemma with_data_Ret_app: "c_app (snd (with_data (\<lambda>d c. (Ret (g d), c)) c)) = c_app c"
  by (simp add: with_data_def split: option.split)

lemma failed_disconnect_app:
  assumes "qa_test_failed (c_app c)"
  shows "c_app (snd (ossl_quic_disconnect lib os (quic_test_callback lib os' fuel' depth) fuel c)) = c_app c"
  (is "c_app (snd (?dis c)) = _")
proof -
  let ?cb = "quic_test_callback lib os' fuel' depth"
  have after: "c_app (snd (chain (run_callback ?cb OSSL_QUIC_UDP_DISCONNECTED [] c2)
      (\<lambda>_. with_data (\<lambda>d c3. (Ret (qd_close_status d), c3))))) = c_app c" if "c_app c2 = c_app c" for c2
  proof -
    have "qa_test_failed (c_app c2)" using assms that by simp
    from failed_callback_app [OF this] that show ?thesis
      by (intro chain_invariant [where P = "\<lambda>c1. c_app c1 = c_app c"]) (simp_all add: with_data_Ret_app)
  qed
  show ?thesis
    unfolding ossl_quic_disconnect_def Let_def
    by (auto simp: finish_shutdown_app split: option.split intro!: chain_invariant [where P = "\<lambda>c1. c_app c1 = c_app c"] after)
qed

lemma close_sockets_app [simp]: "c_app (close_sockets os c) = c_app c"
  by (rule close_sockets_data)

lemma release_Ret:
  "release os c = (Ret st, c') \<Longrightarrow> c_app c' = c_app c \<and>
     (\<exists>d. c_data c = Some d \<and> st = qd_close_status d \<and>
        c_data c' = Some (d\<lparr>qd_conn := None, qd_listener := None, qd_ctx := None\<rparr>))"
  by (auto simp: release_def with_data_def Let_def split: option.splits)

lemma quic_finish_success:
  assumes "quic_finish (ossl_quic_api lib os (quic_test_callback lib os fuel depth) fuel) status c = (Ret 0, c')"
    and "quic_inv True c"
  shows "status = UDP_CONN_OK \<and> \<not> qa_test_failed (c_app c') \<and> qa_completed_rounds (c_app c') = QUIC_TEST_ROUNDS \<and>
    qa_received (c_app c') = [] \<and> ossl_quic_is_closed c' = UDP_CONN_CLOSED \<and> in_use (c_trace c') = {}"
proof -
  let ?api = "ossl_quic_api lib os (quic_test_callback lib os fuel depth) fuel"
  obtain d where d: "c_data c = Some d" using assms(2) by (rule quic_invE)
  define inc where "inc = (status \<noteq> UDP_CONN_OK \<or> qa_completed_rounds (c_app c) \<noteq> QUIC_TEST_ROUNDS \<or>
    qa_received (c_app c) \<noteq> [] \<or> qd_closed d = 0)"
  define c1 where "c1 = (if inc then c\<lparr>c_app := (c_app c)\<lparr>qa_test_failed := True\<rparr>\<rparr> else c)"
  have inv: "quic_inv True c1" using assms(2) by (simp add: c1_def)
  have "quic_finish ?api status c = chain (udp_conn_deinit ?api c1) (\<lambda>st c2.
      (Ret (if st \<noteq> UDP_CONN_OK \<or> qa_test_failed (c_app c2) then 1 else 0), c2))"
    using d by (simp add: quic_finish_def with_data_def c1_def inc_def Let_def)
  with assms(1) have "chain (udp_conn_deinit ?api c1) (\<lambda>st c2.
      (Ret (if st \<noteq> UDP_CONN_OK \<or> qa_test_failed (c_app c2) then 1 else 0), c2)) = (Ret (0 :: int), c')" by simp
  then have de: "ossl_quic_deinit lib os (quic_test_callback lib os fuel depth) fuel c1 = (Ret UDP_CONN_OK, c')"
    and nf: "\<not> qa_test_failed (c_app c')"
    by (auto simp: chain_Ret_iff udp_conn_deinit_def ossl_quic_api_def split: if_splits)
  have free: "in_use (c_trace c') = {}" by (rule quic_test.deinit_in_use [OF inv _ de]) simp
  have d1: "c_data c1 = Some d" using d by (simp add: c1_def)
  have "\<not> inc"
  proof
    assume inc
    then have f: "qa_test_failed (c_app c1)" by (simp add: c1_def)
    have "c_app c' = c_app c1"
      using de failed_disconnect_app [OF f, where lib = lib and os = os and fuel = fuel and os' = os and fuel' = fuel and depth = depth]
      by (auto simp: ossl_quic_deinit_def chain_Ret_iff dest!: release_Ret split: option.splits if_splits)
    with f nf show False by simp
  qed
  then have "release os c = (Ret UDP_CONN_OK, c')" and "qd_closed d \<noteq> 0"
    using de d by (auto simp: ossl_quic_deinit_def c1_def inc_def split: option.splits if_splits)
  with release_Ret [OF this(1)] d \<open>\<not> inc\<close> free nf show ?thesis
    by (auto simp: inc_def ossl_quic_is_closed_def)
qed

lemma quic_main_clean:
  assumes "quic_fresh True c" and "length buf = TCP_MTU_SIZE"
    and "\<And>tr fd n. os_accept os tr fd = Inr n \<Longrightarrow> int n < FD_SETSIZE"
    and "quic_main os (ossl_quic_api lib os (quic_test_callback lib os fuel depth) fuel) e fuel buf c = (r, c')"
  shows "r \<noteq> Fault \<and> uses_ok (c_trace c') \<and>
      (r = Ret 0 \<longrightarrow> qa_completed_rounds (c_app c') = QUIC_TEST_ROUNDS \<and> qa_received (c_app c') = [] \<and>
         ossl_quic_is_closed c' = UDP_CONN_CLOSED \<and> in_use (c_trace c') = {})"
proof -
  let ?api = "ossl_quic_api lib os (quic_test_callback lib os fuel depth) fuel"
  have keeps: "keeps (quic_inv True) (r, c')"
    unfolding assms(4) [symmetric] using assms(1-3) by (rule quic_main_keeps)
  have "\<exists>st c2. quic_inv True c2 \<and> quic_finish ?api st c2 = (Ret 0, c')" if "r = Ret 0"
  proof -
    note success = assms(4) [unfolded quic_main_def that]
    obtain c1 st c2 where run: "ossl_quic_init lib os c = (Ret UDP_CONN_OK, c1)"
      "udp_connection os ?api e fuel buf c1 = (Ret st, c2)" "quic_finish ?api st c2 = (Ret 0, c')"
      using success [unfolded run_session_Ret quic_api_init] by blast
    have "keeps (quic_inv True) (Ret st, c2)"
      unfolding run(2) [symmetric] using quic_init_fresh(2) [OF assms(1) run(1)] assms(2,3)
      by (rule quic_app.udp_connection_keeps)
    with run(3) show ?thesis by auto
  qed
  with quic_finish_success keeps show ?thesis
    by (auto simp: quic_inv_def owns_def sane_def keeps_def)
qed

lemma sockets_unused: "trace_ext is_EvSocket [] tr \<Longrightarrow> sane tr \<and> in_use tr = {}"
  by (induction rule: trace_ext_induct) (auto simp: is_EvSocket_def sane_def named_ok_def)

lemma globals_fresh:
  assumes "set_up_conn tunnel inet_addr u (quic_globals ts app) c" and "tunnel \<or> ts = None"
  shows "quic_fresh True c"
proof -
  from assms have "sane (c_trace c)" "in_use (c_trace c) = {}"
    using sockets_unused [of "c_trace c"] by (simp_all add: set_up_conn_def quic_globals_def)
  moreover have "fds_ok c" using set_up_fds [OF assms(1)] assms(2) by (simp add: quic_globals_def)
  ultimately show ?thesis
    using assms(1) by (auto simp: quic_fresh_def quic_inv_def quic_frame_def set_up_conn_def
        quic_globals_def owns_def owned_def different_def unconnected_def)
qed

text \<open>A program over QUIC ends before the session begins, or is its body on a fresh connection.\<close>

lemma quic_program_rule:
  assumes "usage tunnel argv \<noteq> Fault" and "small_sockets os" and "tunnel \<or> ts = None"
    and "\<And>c1. trace_ext is_EvSocket [] (c_trace c1) \<Longrightarrow> P (Exited 1, c1)"
    and "\<And>c1. quic_fresh True c1 \<Longrightarrow> trace_ext is_EvSocket [] (c_trace c1) \<Longrightarrow> tunnel \<longrightarrow> c_tcp c1 \<noteq> None \<Longrightarrow> P (body c1)"
  shows "P (program tunnel os inet_addr body argv (quic_globals ts app))"
proof (rule program_cases [OF assms(1,2), of inet_addr body "quic_globals ts app"])
  fix c1 :: "'a quic_conn"
  assume "program tunnel os inet_addr body argv (quic_globals ts app) = (Exited 1, c1)"
    "trace_ext is_EvSocket (c_trace (quic_globals ts app)) (c_trace c1)"
  with assms(4) [of c1] show ?thesis by (simp add: quic_globals_def)
next
  fix u and c1 :: "'a quic_conn"
  assume c1: "set_up_conn tunnel inet_addr u (quic_globals ts app) c1"
    "program tunnel os inet_addr body argv (quic_globals ts app) = body c1"
  then have "trace_ext is_EvSocket [] (c_trace c1)" "tunnel \<longrightarrow> c_tcp c1 \<noteq> None"
    by (auto simp: set_up_conn_def quic_globals_def)
  from assms(5) [OF globals_fresh [OF c1(1) assms(3)] this] show ?thesis by (simp add: c1(2))
qed


text \<open>
  A run that succeeds: the objects of the test program, and an OpenSSL whose peer answers the \<open>n\<close>-th
  read with the \<open>n\<close>-th response.
\<close>

definition quic_test_conn :: "char \<Rightarrow> quic_test_app quic_conn" where
  "quic_test_conn mode = \<lparr>
     c_udp = Some \<lparr>us_socket_fd = 3, us_ka_miss_threshold = 20, us_dst = zero_addr, us_src = zero_addr\<rparr>,
     c_tcp = None, c_ctrl = Some \<lparr>cc_mode = mode, cc_init = 0, cc_read_fds = []\<rparr>, c_callback = True,
     c_config = Some \<lparr>qc_tls13_preset = OSSL_TLS13_PRESET_DEFAULT, qc_tls13_suites = [], qc_tls13_suites_len = 0,
       qc_reuse = 1, qc_cert_file = Some [1], qc_key_file = Some [1]\<rparr>,
     c_data = Some \<lparr>qd_closed = 0, qd_close_status = UDP_CONN_OK, qd_ctx = None, qd_listener = None, qd_conn = None\<rparr>,
     c_app = \<lparr>qa_completed_rounds = 0, qa_test_failed = False, qa_received = []\<rparr>, c_trace = []\<rparr>"

fun count_reads :: "trace \<Rightarrow> nat" where
  "count_reads [] = 0"
| "count_reads (EvSsl (Ssl_read_ex p n r) # tr) = Suc (count_reads tr)"
| "count_reads (_ # tr) = count_reads tr"

definition answering_lib :: ssl_lib where
  "answering_lib = \<lparr>lib_ctx_new = (\<lambda>tr s. True),
     lib_ctx_set = (\<lambda>tr p x. case x of Set_alpn_protos bs \<Rightarrow> 0 | _ \<Rightarrow> 1),
     lib_new = (\<lambda>tr p. True), lib_new_listener = (\<lambda>tr p. True), lib_set_fd = (\<lambda>tr p fd. 1),
     lib_listen = (\<lambda>tr p. 1), lib_set_blocking_mode = (\<lambda>tr p b. 1), lib_connect = (\<lambda>tr p. 1),
     lib_accept_connection = (\<lambda>tr p. True), lib_handle_events = (\<lambda>tr p. 1), lib_shutdown = (\<lambda>tr p. 1),
     lib_get_error = (\<lambda>tr p r. 2), lib_get_conn_close_info = (\<lambda>tr p. None),
     lib_get_event_timeout = (\<lambda>tr p. Some (0, 0, True)), lib_net_write_desired = (\<lambda>tr p. False),
     lib_write_ex = (\<lambda>tr p bs. Some (length bs)),
     lib_read_ex = (\<lambda>tr p n. Some (quic_message ''response'' (count_reads tr))),
     lib_pending = (\<lambda>tr p. 0)\<rparr>"

definition answering_os :: os where
  "answering_os = quiet_os\<lparr>os_recv := (\<lambda>tr fd dw. Inr probe), os_select := (\<lambda>tr fds tv. Inr fds)\<rparr>"

definition demo_args :: "byte list list" where
  "demo_args = map ascii [''test_openssl_quic_udp'', ''-c'', ''10.0.0.20'', ''4000'']"

abbreviation (input) "demo_run \<equiv> quic_udp_program answering_lib answering_os (\<lambda>host. 7) 0 9 2 (replicate 1024 0) demo_args"

lemma demo_run_succeeds: "fst demo_run = Ret 0"
  by code_simp

lemma demo_args_ok: "usage False demo_args \<noteq> Fault"
  by code_simp

lemma quic_test_conn_fresh: "quic_fresh x (quic_test_conn m)"
  by (simp add: quic_fresh_def quic_test_conn_def quic_inv_def quic_frame_def fds_ok_def fd_ok_def
      owns_def sane_def named_ok_def owned_def different_def unconnected_def)


section \<open>Every sequence of calls\<close>

lemma quic_step_keeps:
  assumes "quic_user cb False" and "quic_inv False c" and "call_ok k"
  shows "keeps (quic_inv False) (api_step (ossl_quic_api lib os cb fuel) k c)"
proof (cases k)
  case (KRecv b n r)
  then show ?thesis
  proof (cases b)
    case None
    then show ?thesis
      using assms(2) KRecv by (simp add: ossl_quic_api_def udp_conn_recv_def ossl_quic_udp_recv_def split: option.split)
  next
    case (Some m)
    then show ?thesis
      using assms KRecv by (simp add: ossl_quic_api_def udp_conn_recv_def quic_user.quic_udp_recv_keeps)
  qed
qed (use assms quic_user.quic_connect_keeps [OF assms(1,2)] in
      \<open>simp_all add: ossl_quic_api_def udp_conn_init_def udp_conn_deinit_def udp_conn_send_def udp_conn_disconnect_def
         quic_init_keeps quic_get_timeout_keeps quic_hole_punching_keeps quic_send_ka_keeps quic_pending_data_keeps
         quic_user.quic_deinit_keeps quic_user.quic_udp_send_keeps quic_user.quic_disconnect_keeps quic_user.quic_process_events_keeps\<close>)

text \<open>
  C9. No sequence of calls of the QUIC operations, in any order and with any answers of OpenSSL and of
  the system, runs into undefined behaviour, hands OpenSSL an object that was freed or never created,
  or frees an object twice, and the connection stays well formed: its pointers are null or different
  objects in use, its descriptors fit a descriptor set.  The user's callback has to keep the
  connection well formed.
\<close>

theorem quic_calls_safe:
  assumes "quic_user cb False" and "quic_inv False c" and "\<forall>k \<in> set ks. call_ok k"
  shows "keeps (quic_inv False) (api_steps (ossl_quic_api lib os cb fuel) ks c)"
  using assms(2,3)
proof (induction ks arbitrary: c)
  case (Cons k ks)
  then show ?case using quic_step_keeps [OF assms(1)] by auto
qed simp

theorem quic_calls_safe_witness:
  "keeps (quic_inv False) (api_steps (ossl_quic_api answering_lib answering_os (quic_test_callback answering_lib answering_os 9 2) 9)
     [KInit, KConnect, KConnect, KRecv (Some (replicate 64 0)) 64 (Some 0), KDisconnect, KDeinit, KDeinit, KInit, KSend [1] None]
     (quic_test_conn CHR ''s''))"
  by (rule quic_calls_safe) (use quic_test_conn_fresh [of False] in \<open>simp_all add: quic_test_user quic_fresh_def\<close>)

section \<open>Release\<close>

text \<open>The valid descriptors of a connection, in the order \<open>ossl_quic_deinit\<close> closes them.\<close>

definition session_fds :: "'a quic_conn \<Rightarrow> int list" where
  "session_fds c = filter (\<lambda>fd. 0 \<le> fd)
     ((case c_udp c of None \<Rightarrow> [] | Some us \<Rightarrow> [us_socket_fd us]) @
      (case c_tcp c of None \<Rightarrow> [] | Some ts \<Rightarrow> [ts_accepted_sock ts, ts_socket_fd ts]))"

lemma close_fd_closed: "closed_fds (snd (close_fd os fd tr)) = (if 0 \<le> fd then [fd] else []) @ closed_fds tr"
  by (simp add: close_fd_def)

lemma close_sockets_closed:
  "c_udp c \<noteq> None \<Longrightarrow> closed_fds (c_trace (close_sockets os c)) = rev (session_fds c) @ closed_fds (c_trace c) \<and>
     session_fds (close_sockets os c) = []"
  by (auto simp: close_sockets_def session_fds_def split_beta Let_def close_fd_closed close_fd_value
      split: option.splits)

lemma free_objects_closed [simp]: "closed_fds (free_objects d tr) = closed_fds tr"
  by (auto simp: free_objects_def ssl_defs split: option.split)

lemma release_closes:
  assumes "quic_inv True c" and "release os c = (Ret st, c')"
  shows "closed_fds (c_trace c') = rev (session_fds c) @ closed_fds (c_trace c) \<and> session_fds c' = [] \<and>
    (\<exists>k. c_ctrl c' = Some k \<and> cc_init k = 0)"
proof -
  obtain d where d: "quic_frame c" "c_data c = Some d" using assms(1) by (rule quic_invE)
  define c1 where "c1 = c\<lparr>c_data := Some (d\<lparr>qd_conn := None, qd_listener := None, qd_ctx := None\<rparr>),
    c_trace := free_objects d (c_trace c)\<rparr>"
  have c': "c' = (close_sockets os c1)\<lparr>c_ctrl := map_option (\<lambda>k. k\<lparr>cc_init := 0\<rparr>) (c_ctrl c)\<rparr>"
    using assms(2) d(2) by (simp add: release_def with_data_def Let_def c1_def)
  have "session_fds c' = session_fds (close_sockets os c1)" "session_fds c1 = session_fds c"
    by (simp_all add: c' session_fds_def c1_def)
  moreover have "c_udp c1 \<noteq> None" using d(1) by (simp add: c1_def quic_frame_def)
  ultimately show ?thesis
    using close_sockets_closed [of c1 os] quic_frame_has_ctrl [OF d(1)] by (auto simp: c' c1_def)
qed


text \<open>
  A server whose tunnel was connected, so that the accepted socket is the tunnel's socket, after an
  error during the shutdown.
\<close>

definition closed_server :: "quic_test_app quic_conn" where
  "closed_server = (quic_test_conn CHR ''s'')\<lparr>
     c_ctrl := Some \<lparr>cc_mode = CHR ''s'', cc_init = 1, cc_read_fds = []\<rparr>,
     c_tcp := Some \<lparr>ts_socket_fd = 5, ts_accepted_sock = 5, ts_reuse = 1, ts_local = zero_addr\<rparr>,
     c_data := Some \<lparr>qd_closed = 1, qd_close_status = UDP_CONN_ERR, qd_ctx = Some 0, qd_listener = Some 1,
       qd_conn = Some 2\<rparr>,
     c_trace := [EvSsl (Ssl_accept_connection (Some 1) (Some 2)), EvSsl (Ssl_new_listener (Some 0) (Some 1)),
       EvSsl (Ctx_new True (Some 0))]\<rparr>"


end
