(* ===== verification/Ossl_Quic_Tls.thy ===== *)
theory Ossl_Quic_Tls
  imports Ossl_Quic_Inv
begin

text \<open>
  The TLS 1.3 cipher suites of the QUIC backend: the string the code builds in its array is the list
  of names, separated by colons, and always fits.
\<close>

section \<open>The reference\<close>

fun joined :: "byte list list \<Rightarrow> byte list" where
  "joined [] = []"
| "joined [x] = x"
| "joined (x # y # xs) = x @ ascii '':'' @ joined (y # xs)"

definition suite_names :: "int list \<Rightarrow> byte list list" where
  "suite_names suites = List.map (\<lambda>s. the (suite_to_name s)) suites"

definition known_suites :: "int list \<Rightarrow> bool" where
  "known_suites suites \<longleftrightarrow> (\<forall>s \<in> set suites. suite_to_name s \<noteq> None)"

lemma joined_snoc: "joined (xs @ [y]) = (if xs = [] then y else joined xs @ ascii '':'' @ y)"
  by (induction xs rule: joined.induct) auto

lemma length_colon [simp]: "length (ascii '':'') = 1"
  by (simp add: ascii_def)

lemma suite_name_length: "suite_to_name s = Some name \<Longrightarrow> length name \<le> 28"
  by (auto simp: suite_to_name_def ascii_def split: if_splits)

lemma suite_name_no_zero: "suite_to_name s = Some name \<Longrightarrow> 0 \<notin> set name"
  by (auto simp: suite_to_name_def ascii_def split: if_splits)

lemma joined_no_zero: "\<forall>x \<in> set xs. 0 \<notin> set x \<Longrightarrow> 0 \<notin> set (joined xs)"
  by (induction xs rule: joined.induct) (auto simp: ascii_def)

lemma joined_length: "\<forall>x \<in> set xs. length x \<le> 28 \<Longrightarrow> length (joined xs) \<le> 29 * length xs"
  by (induction xs rule: joined.induct) auto

section \<open>The loop\<close>

text \<open>What the loop has written: the names of the first \<open>i\<close> suites, at the start of the array.\<close>

definition wrote :: "int list \<Rightarrow> nat \<Rightarrow> nat \<Rightarrow> byte list \<Rightarrow> bool" where
  "wrote suites i off buf \<longleftrightarrow> length buf = 256 \<and> off = length (joined (suite_names (take i suites))) \<and>
     take off buf = joined (suite_names (take i suites))"

lemma suite_names_ok:
  "known_suites suites \<Longrightarrow> x \<in> set (suite_names suites) \<Longrightarrow> length x \<le> 28 \<and> 0 \<notin> set x"
  using suite_name_length suite_name_no_zero by (fastforce simp: known_suites_def suite_names_def)

lemma wrote_step:
  assumes "wrote suites i off buf" and "known_suites (take i suites)" and "i < length suites" and "i < 5"
    and "suite_to_name (suites ! i) = Some name"
  shows "off + length name + 1 < 256 \<and> (\<exists>buf1 buf2.
    (if 0 < i then poke buf off (ascii '':'') else Some buf) = Some buf1 \<and>
    poke buf1 (if 0 < i then off + 1 else off) name = Some buf2 \<and>
    wrote suites (i + 1) ((if 0 < i then off + 1 else off) + length name) buf2)"
proof -
  let ?p = "joined (suite_names (take i suites))"
  have off: "off \<le> 29 * i" and w: "take off buf = ?p" "off = length ?p" "length buf = 256"
    using assms(1) joined_length [of "suite_names (take i suites)"] suite_names_ok [OF assms(2)] assms(3)
    by (auto simp: wrote_def suite_names_def)
  have name: "length name \<le> 28" using assms(5) by (rule suite_name_length)
  have room: "off + length name + 1 < 256" using off name assms(4) by linarith
  have next_names: "suite_names (take (i + 1) suites) = suite_names (take i suites) @ [name]"
    using assms(3,5) by (simp add: suite_names_def take_Suc_conv_app_nth)
  show ?thesis
  proof (cases "0 < i")
    case True
    then have ne: "suite_names (take i suites) \<noteq> []" using assms(3) by (auto simp: suite_names_def)
    obtain b1 where b1: "poke buf off (ascii '':'') = Some b1" "take (off + 1) b1 = ?p @ ascii '':''" "length b1 = 256"
      using poke_prefix [OF w(1), of "ascii '':''"] room w(3) by auto
    obtain b2 where "poke b1 (off + 1) name = Some b2" "take (off + 1 + length name) b2 = (?p @ ascii '':'') @ name"
      "length b2 = 256"
      using poke_prefix [OF b1(2), of name] room b1(3) by auto
    with True ne b1 room w(2) next_names show ?thesis
      by (auto simp: wrote_def joined_snoc)
  next
    case False
    obtain b2 where "poke buf off name = Some b2" "take (off + length name) b2 = ?p @ name" "length b2 = 256"
      using poke_prefix [OF w(1), of name] room w(3) by auto
    with False room w(2) next_names show ?thesis
      by (auto simp: wrote_def joined_snoc suite_names_def)
  qed
qed

lemma custom_loop_spec:
  assumes "wrote suites i off buf" and "known_suites (take i suites)" and "i + n \<le> length suites" and "i + n \<le> 5"
  shows "if known_suites (take (i + n) suites)
     then \<exists>off' buf'. custom_loop suites n i off buf = Ret (Some (off', buf')) \<and> wrote suites (i + n) off' buf'
     else custom_loop suites n i off buf = Ret None"
  using assms
proof (induction n arbitrary: i off buf)
  case (Suc n)
  have i: "i < length suites" "i < 5" using Suc.prems by auto
  have take_i: "take (Suc i) suites = take i suites @ [suites ! i]" using i by (simp add: take_Suc_conv_app_nth)
  show ?case
  proof (cases "suite_to_name (suites ! i)")
    case None
    have "suites ! i \<in> set (take (i + Suc n) suites)"
      using i by (auto simp: in_set_conv_nth intro!: exI [of _ i])
    with None have "\<not> known_suites (take (i + Suc n) suites)" by (auto simp: known_suites_def)
    with None i show ?thesis by simp
  next
    case (Some name)
    obtain b1 b2 where room: "off + length name + 1 < 256"
      and b: "(if 0 < i then poke buf off (ascii '':'') else Some buf) = Some b1"
        "poke b1 (if 0 < i then off + 1 else off) name = Some b2"
      and w: "wrote suites (i + 1) ((if 0 < i then off + 1 else off) + length name) b2"
      using wrote_step [OF Suc.prems(1,2) i Some] by blast
    have "known_suites (take (i + 1) suites)" using Suc.prems(2) Some take_i by (auto simp: known_suites_def)
    from Suc.IH [OF w this] Suc.prems(3,4) room b i Some show ?thesis
      by (cases "i = 0"; cases "known_suites (take (Suc (i + n)) suites)") (simp_all add: Let_def)
  qed
qed simp

lemma c_string_zero: "0 \<notin> set s \<Longrightarrow> c_string (s @ 0 # r) = s"
  by (induction s) (auto simp: c_string_def)

text \<open>
  C16. A custom list of one to five suites is passed to OpenSSL exactly as the colon-separated list of
  its names, in the configured order, and the answer of OpenSSL is returned; the 256 bytes of the
  array always suffice.  One unknown suite, no suite or more than five make the call fail without
  asking OpenSSL.
\<close>

theorem quic_custom_suites:
  assumes "qc_tls13_preset cfg = OSSL_TLS13_PRESET_CUSTOM" and "qc_tls13_suites_len cfg \<le> length (qc_tls13_suites cfg)"
  shows "apply_tls13_ciphersuites lib os (Some h) cfg tr =
    (let suites = take (qc_tls13_suites_len cfg) (qc_tls13_suites cfg)
     in if 1 \<le> qc_tls13_suites_len cfg \<and> qc_tls13_suites_len cfg \<le> 5 \<and> known_suites suites
        then let (r, tr') = SSL_CTX_set lib (Some h) (Set_ciphersuites (joined (suite_names suites))) tr in (Ret r, tr')
        else (Ret 0, tr))"
proof (cases "1 \<le> qc_tls13_suites_len cfg \<and> qc_tls13_suites_len cfg \<le> 5")
  case True
  let ?n = "qc_tls13_suites_len cfg"
  let ?s = "take ?n (qc_tls13_suites cfg)"
  let ?loop = "custom_loop (qc_tls13_suites cfg) ?n 0 0 (garbage os 256 tr)"
  have start: "wrote (qc_tls13_suites cfg) 0 0 (garbage os 256 tr)" by (simp add: wrote_def suite_names_def)
  note loop = custom_loop_spec [OF start, of ?n, simplified known_suites_def, simplified]
  show ?thesis
  proof (cases "known_suites ?s")
    case True
    then obtain off buf where l: "?loop = Ret (Some (off, buf))" and w: "wrote (qc_tls13_suites cfg) ?n off buf"
      using loop assms(2) \<open>1 \<le> ?n \<and> ?n \<le> 5\<close> by (auto simp: known_suites_def)
    let ?j = "joined (suite_names ?s)"
    have no0: "0 \<notin> set ?j" using suite_names_ok [OF True] by (intro joined_no_zero) blast
    have "length ?j \<le> 29 * length (suite_names ?s)" using suite_names_ok [OF True] by (intro joined_length) blast
    then have "off < 256" using w \<open>1 \<le> ?n \<and> ?n \<le> 5\<close> by (auto simp: wrote_def suite_names_def)
    moreover have "take off buf = ?j" "length buf = 256" using w unfolding wrote_def by blast+
    ultimately have "poke buf off [0] = Some (?j @ 0 # drop (off + 1) buf)"
      by (simp add: poke_def)
    then show ?thesis
      using assms(1) \<open>1 \<le> ?n \<and> ?n \<le> 5\<close> True l no0
      by (simp add: apply_tls13_ciphersuites_def Let_def c_string_zero)
  next
    case False
    then have "?loop = Ret None" using loop assms(2) \<open>1 \<le> ?n \<and> ?n \<le> 5\<close> by (auto simp: known_suites_def)
    then show ?thesis using assms(1) False \<open>1 \<le> ?n \<and> ?n \<le> 5\<close> by (simp add: apply_tls13_ciphersuites_def Let_def)
  qed
next
  case False
  then show ?thesis using assms(1) by (auto simp: apply_tls13_ciphersuites_def Let_def)
qed

definition custom_config :: "int list \<Rightarrow> ossl_quic_config" where
  "custom_config suites = \<lparr>qc_tls13_preset = OSSL_TLS13_PRESET_CUSTOM, qc_tls13_suites = suites,
     qc_tls13_suites_len = length suites, qc_reuse = 1, qc_cert_file = None, qc_key_file = None\<rparr>"

theorem quic_custom_suites_witness:
  "\<forall>lib os. snd (apply_tls13_ciphersuites lib os (Some 0) (custom_config [2, 0]) []) =
     [EvSsl (Ctx_set (Some 0) (Set_ciphersuites (ascii ''TLS_CHACHA20_POLY1305_SHA256:TLS_AES_128_GCM_SHA256''))
        (lib_ctx_set lib [] (Some 0) (Set_ciphersuites (ascii ''TLS_CHACHA20_POLY1305_SHA256:TLS_AES_128_GCM_SHA256''))))]
   \<and> apply_tls13_ciphersuites lib os (Some 0) (custom_config [2, 9]) [] = (Ret 0, [])"
proof -
  have pre: "qc_tls13_preset (custom_config s) = OSSL_TLS13_PRESET_CUSTOM"
    "qc_tls13_suites_len (custom_config s) \<le> length (qc_tls13_suites (custom_config s))" for s
    by (simp_all add: custom_config_def)
  show ?thesis
    unfolding quic_custom_suites [OF pre]
    by (simp add: custom_config_def known_suites_def suite_names_def suite_to_name_def
        SSL_CTX_set_def Let_def ascii_def)
qed

end
