(* ===== verification/Ossl_Quic_Shutdown.thy ===== *)
theory Ossl_Quic_Shutdown
  imports Ossl_Quic_Inv
begin

text \<open>
  Closing a QUIC session: the shutdown loop ends once the clock has passed its deadline and never
  waits longer, disconnecting is terminal on every path, and releasing frees everything.
\<close>

section \<open>One iteration of the shutdown loop\<close>

fun count_clocks :: "trace \<Rightarrow> nat" where
  "count_clocks [] = 0"
| "count_clocks (EvClock r # tr) = Suc (count_clocks tr)"
| "count_clocks (_ # tr) = count_clocks tr"

definition ms :: "int \<times> int \<Rightarrow> int" where
  "ms t = fst t * 1000 + snd t div 1000000"

text \<open>From the \<open>n\<close>-th reading on, the clock fails or shows at least \<open>limit\<close>.\<close>

definition clock_passes :: "os \<Rightarrow> nat \<Rightarrow> int \<Rightarrow> bool" where
  "clock_passes os n limit \<longleftrightarrow>
     (\<forall>tr t. n \<le> count_clocks tr \<longrightarrow> os_clock os tr = Some t \<longrightarrow> limit \<le> ms t)"

text \<open>A monotonic clock: no reading shows less than \<open>low\<close>.\<close>

definition clock_from :: "os \<Rightarrow> int \<Rightarrow> bool" where
  "clock_from os low \<longleftrightarrow> (\<forall>tr t. os_clock os tr = Some t \<longrightarrow> low \<le> ms t)"

lemma clocks_calls [simp]:
  "count_clocks (snd (SSL_handle_events lib p tr)) = count_clocks tr"
  "count_clocks (snd (SSL_shutdown lib p tr)) = count_clocks tr"
  "count_clocks (snd (SSL_get_error lib p r tr)) = count_clocks tr"
  "count_clocks (snd (SSL_get_conn_close_info lib p tr)) = count_clocks tr"
  "count_clocks (snd (SSL_get_event_timeout lib p tr)) = count_clocks tr"
  "count_clocks (snd (SSL_net_write_desired lib p tr)) = count_clocks tr"
  "count_clocks (snd (sys_select_rw os nfds rd wr tv tr)) = count_clocks tr"
  by (simp_all add: ssl_defs sys_defs Let_def)

lemma quic_monotonic_ms_eq:
  "quic_monotonic_ms os tr = (map_option ms (os_clock os tr), EvClock (os_clock os tr) # tr)"
  by (simp add: quic_monotonic_ms_def sys_defs Let_def ms_def split: option.split)

lemma shutdown_failed_clocks [simp]:
  "count_clocks (snd (shutdown_failed lib p r tr)) = count_clocks tr"
  by (simp add: shutdown_failed_def split_beta)

lemma shutdown_select_clocks [simp]:
  "count_clocks (snd (shutdown_select lib os fd p tv tr)) = count_clocks tr"
  by (simp add: shutdown_select_def split_beta split: sum.split)

lemma wait_step_clocks [simp]:
  "count_clocks (snd (shutdown_wait_step lib os fd deadline p tr)) = Suc (count_clocks tr)"
  by (simp add: shutdown_wait_step_def quic_monotonic_ms_eq split_beta split: option.split)

lemma wait_step_passed:
  assumes "clock_passes os n deadline" and "n \<le> count_clocks tr"
  shows "\<not> fst (shutdown_wait_step lib os fd deadline p tr)"
  using assms by (auto simp: shutdown_wait_step_def quic_monotonic_ms_eq clock_passes_def split: option.split)

text \<open>Recording a close status changes nothing else, and never replaces an error.\<close>

definition later_status :: "ossl_quic_data \<Rightarrow> ossl_quic_data \<Rightarrow> bool" where
  "later_status d d' \<longleftrightarrow> d' = d \<or> qd_close_status d = UDP_CONN_OK \<and> d' = d\<lparr>qd_close_status := UDP_CONN_ERR\<rparr>"

lemma later_status_refl [simp]: "later_status d d"
  by (simp add: later_status_def)

lemma later_status_trans: "later_status d1 d2 \<Longrightarrow> later_status d2 d3 \<Longrightarrow> later_status d1 d3"
  by (auto simp: later_status_def)

lemma record_close_later:
  "record_close_status lib d tr = (b, d', t) \<Longrightarrow> later_status d d' \<and> count_clocks t = count_clocks tr"
  by (auto simp: record_close_status_def later_status_def ssl_defs Let_def split: option.splits if_splits)

section \<open>The loop\<close>

lemma shutdown_iter_more:
  assumes "shutdown_iter lib os fd deadline d tr = (None, d', tr')"
  shows "\<exists>u. count_clocks u = count_clocks tr \<and> shutdown_wait_step lib os fd deadline (qd_conn d') u = (True, tr')"
proof -
  define t1 where "t1 = snd (SSL_handle_events lib (qd_conn d) tr)"
  define t2 where "t2 = snd (SSL_shutdown lib (qd_conn d) t1)"
  define t3 where "t3 = snd (shutdown_failed lib (qd_conn d) (fst (SSL_shutdown lib (qd_conn d) t1)) t2)"
  obtain b2 d2 u2 where r2: "record_close_status lib d t3 = (b2, d2, u2)" by (metis prod.exhaust)
  then have "count_clocks u2 = count_clocks tr" by (simp add: record_close_later t1_def t2_def t3_def)
  then show ?thesis
    using assms
    by (auto simp: shutdown_iter_def split_beta Let_def t1_def [symmetric] t2_def [symmetric] t3_def [symmetric] r2
        split: if_splits intro!: exI [of _ u2] prod_eqI)
qed

lemma shutdown_iter_passed:
  "clock_passes os n deadline \<Longrightarrow> n \<le> count_clocks tr \<Longrightarrow> shutdown_iter lib os fd deadline d tr \<noteq> (None, d', tr')"
  using shutdown_iter_more wait_step_passed by (metis fst_conv)

lemma shutdown_iter_status:
  "shutdown_iter lib os fd deadline d tr = (Some st, d', tr') \<Longrightarrow> st = UDP_CONN_ERR \<or> st = qd_close_status d'"
  by (auto simp: shutdown_iter_def split_beta Let_def split: if_splits)

lemma shutdown_iter_clocks:
  "shutdown_iter lib os fd deadline d tr = (None, d', tr') \<Longrightarrow> count_clocks tr' = Suc (count_clocks tr)"
  using shutdown_iter_more wait_step_clocks by (metis snd_conv)

lemma shutdown_loop_returns:
  assumes "clock_passes os n deadline" and "n - count_clocks tr < fuel"
  shows "\<exists>st d' t. shutdown_loop lib os fd deadline fuel d tr = (Ret st, d', t)"
  using assms(2)
proof (induction fuel arbitrary: d tr)
  case (Suc fuel)
  obtain r d1 t1 where i: "shutdown_iter lib os fd deadline d tr = (r, d1, t1)" by (metis prod.exhaust)
  show ?case
  proof (cases r)
    case None
    with i shutdown_iter_clocks have "count_clocks t1 = Suc (count_clocks tr)" by blast
    moreover have "\<not> n \<le> count_clocks tr" using i None shutdown_iter_passed [OF assms(1)] by blast
    ultimately have "n - count_clocks t1 < fuel" using Suc.prems by simp
    from Suc.IH [OF this] i None show ?thesis by simp
  qed (use i in simp)
qed simp

lemma shutdown_loop_status:
  "shutdown_loop lib os fd deadline fuel d tr = (Ret st, d', t) \<Longrightarrow>
     later_status d d' \<and> (st = UDP_CONN_ERR \<or> st = qd_close_status d')"
proof (induction fuel arbitrary: d tr)
  case (Suc fuel)
  obtain r d1 t1 where i: "shutdown_iter lib os fd deadline d tr = (r, d1, t1)" by (metis prod.exhaust)
  then have "later_status d d1"
    by (rule shutdown_iter_invariant [of "\<lambda>d1 t. later_status d d1", rotated -1])
       (auto dest: record_close_later intro: later_status_trans)
  then show ?case
    using Suc i shutdown_iter_status [of lib os fd deadline d tr] later_status_trans by (cases r) auto
qed simp

section \<open>How long it waits\<close>

lemma shutdown_wait_bounds:
  assumes "now < deadline"
  shows "let w = shutdown_wait deadline now event never in
    0 \<le> tv_sec w \<and> 0 \<le> tv_usec w \<and> tv_usec w < 1000000 \<and> micros w \<le> 1000 * (deadline - now) \<and>
    (never \<longrightarrow> micros w = 1000 * (deadline - now))"
proof -
  define w where "w = max 0 (if \<not> never \<and> tv_sec event * 1000 + (tv_usec event + 999) div 1000 < deadline - now
    then tv_sec event * 1000 + (tv_usec event + 999) div 1000 else deadline - now)"
  have eq: "shutdown_wait deadline now event never = \<lparr>tv_sec = w div 1000, tv_usec = w mod 1000 * 1000\<rparr>"
    by (auto simp: shutdown_wait_def w_def Let_def max_def)
  have "0 \<le> w" and "w \<le> deadline - now" and "never \<longrightarrow> w = deadline - now"
    using assms by (auto simp: w_def)
  moreover have "w div 1000 * 1000000 + w mod 1000 * 1000 = 1000 * w"
    using div_mult_mod_eq [of w 1000] by linarith
  ultimately show ?thesis by (auto simp: eq Let_def micros_def pos_imp_zdiv_nonneg_iff)
qed

text \<open>The timeouts of the \<open>select\<close> calls a trace adds.\<close>

fun waits_ok :: "int \<Rightarrow> int \<Rightarrow> trace \<Rightarrow> bool" where
  "waits_ok fd bound [] = True"
| "waits_ok fd bound (EvSelectRW nfds rd wr tv r # tr) =
     (nfds = fd + 1 \<and> rd = [fd] \<and> set wr \<subseteq> {fd} \<and> 0 \<le> tv_sec tv \<and> 0 \<le> tv_usec tv \<and> tv_usec tv < 1000000 \<and>
      micros tv \<le> bound \<and> waits_ok fd bound tr)"
| "waits_ok fd bound (_ # tr) = waits_ok fd bound tr"

lemma waits_calls [simp]:
  "waits_ok fd b (snd (SSL_handle_events lib p tr)) = waits_ok fd b tr"
  "waits_ok fd b (snd (SSL_shutdown lib p tr)) = waits_ok fd b tr"
  "waits_ok fd b (snd (SSL_get_error lib p r tr)) = waits_ok fd b tr"
  "waits_ok fd b (snd (SSL_get_conn_close_info lib p tr)) = waits_ok fd b tr"
  "waits_ok fd b (snd (SSL_get_event_timeout lib p tr)) = waits_ok fd b tr"
  "waits_ok fd b (snd (SSL_net_write_desired lib p tr)) = waits_ok fd b tr"
  "waits_ok fd b (snd (shutdown_failed lib p r tr)) = waits_ok fd b tr"
  by (simp_all add: shutdown_failed_def ssl_defs Let_def)

lemma record_close_waits: "record_close_status lib d tr = (x, d', t) \<Longrightarrow> waits_ok fd b t = waits_ok fd b tr"
  by (auto simp: record_close_status_def ssl_defs Let_def split: option.splits)

lemma wait_step_waits:
  assumes "clock_from os (deadline - 5000)" and "waits_ok fd 5000000 tr"
  shows "waits_ok fd 5000000 (snd (shutdown_wait_step lib os fd deadline p tr))"
proof (cases "os_clock os tr")
  case None
  then show ?thesis using assms(2) by (simp add: shutdown_wait_step_def quic_monotonic_ms_eq)
next
  case (Some t)
  let ?t1 = "EvClock (os_clock os tr) # tr"
  have low: "deadline - 5000 \<le> ms t" using assms(1) Some unfolding clock_from_def by blast
  have sel: "waits_ok fd 5000000 (snd (shutdown_select lib os fd p (shutdown_wait deadline (ms t) ev never) t2))"
    if "ms t < deadline" and "waits_ok fd 5000000 t2" for ev never t2
  proof -
    have "micros (shutdown_wait deadline (ms t) ev never) \<le> 5000000"
      using shutdown_wait_bounds [OF that(1), of ev never] low by (simp add: Let_def)
    then show ?thesis
      using shutdown_wait_bounds [OF that(1), of ev never] that(2)
      by (simp add: shutdown_select_def sys_defs Let_def split_beta split: sum.split)
  qed
  show ?thesis
    using assms(2) Some sel
    by (auto simp: shutdown_wait_step_def quic_monotonic_ms_eq split_beta not_le split: option.split)
qed

lemma shutdown_loop_waits:
  assumes "clock_from os (deadline - 5000)"
  shows "waits_ok fd 5000000 tr \<Longrightarrow> waits_ok fd 5000000 (snd (snd (shutdown_loop lib os fd deadline fuel d tr)))"
proof (induction fuel arbitrary: d tr)
  case (Suc fuel)
  obtain r d1 t1 where i: "shutdown_iter lib os fd deadline d tr = (r, d1, t1)" by (metis prod.exhaust)
  then have "waits_ok fd 5000000 t1"
    by (rule shutdown_iter_invariant [of "\<lambda>d. waits_ok fd 5000000", rotated -1])
       (use Suc.prems wait_step_waits [OF assms] record_close_waits in auto)
  with Suc.IH i show ?case by (cases r) auto
qed simp

section \<open>The shutdown as a whole\<close>

text \<open>
  C14. Finishing a shutdown returns as soon as the clock, read again and again, fails or has passed the
  start by five seconds; the fuel needed is the number of readings until then.  It waits with
  \<open>select\<close> on its socket only, with normalised timeouts of at most five seconds, reports success only
  if no close error is recorded, and leaves the objects of the session as they are.
\<close>

theorem quic_shutdown_returns:
  assumes "c_data c = Some d" and "os_clock os (c_trace c) = Some t0"
    and "clock_passes os n (ms t0 + 5000)" and "clock_from os (ms t0)" and "n < fuel"
    and "waits_ok (us_socket_fd us) 5000000 (c_trace c)"
  shows "\<exists>st c' d'. finish_shutdown lib os fuel us c = (Ret st, c') \<and> c_data c' = Some d' \<and> later_status d d' \<and>
    (st = UDP_CONN_ERR \<or> st = qd_close_status d') \<and> waits_ok (us_socket_fd us) 5000000 (c_trace c')"
proof -
  let ?fd = "us_socket_fd us"
  let ?t = "EvClock (Some t0) # c_trace c"
  let ?loop = "shutdown_loop lib os ?fd (ms t0 + 5000) fuel d ?t"
  have "n - count_clocks ?t < fuel" using assms(5) by simp
  from shutdown_loop_returns [OF assms(3) this] obtain st d' t where l: "?loop = (Ret st, d', t)" by blast
  have "waits_ok ?fd 5000000 (snd (snd ?loop))"
    by (rule shutdown_loop_waits) (use assms(4,6) in simp_all)
  with l shutdown_loop_status [OF l] assms(1,2,6) show ?thesis
    by (auto simp: finish_shutdown_def with_data_def on_trace_eq quic_monotonic_ms_eq)
qed

text \<open>
  A shutdown against a silent peer: OpenSSL never reports the end, the clock advances by one second
  with every reading.
\<close>

definition ticking_os :: os where
  "ticking_os = quiet_os\<lparr>os_clock := (\<lambda>tr. Some (int (count_clocks tr), 0))\<rparr>"

definition silent_lib :: ssl_lib where
  "silent_lib = \<lparr>lib_ctx_new = (\<lambda>tr s. True), lib_ctx_set = (\<lambda>tr p x. 1), lib_new = (\<lambda>tr p. True),
     lib_new_listener = (\<lambda>tr p. True), lib_set_fd = (\<lambda>tr p fd. 1), lib_listen = (\<lambda>tr p. 1),
     lib_set_blocking_mode = (\<lambda>tr p b. 1), lib_connect = (\<lambda>tr p. 1), lib_accept_connection = (\<lambda>tr p. True),
     lib_handle_events = (\<lambda>tr p. 1), lib_shutdown = (\<lambda>tr p. 0), lib_get_error = (\<lambda>tr p r. 2),
     lib_get_conn_close_info = (\<lambda>tr p. None), lib_get_event_timeout = (\<lambda>tr p. Some (0, 0, True)),
     lib_net_write_desired = (\<lambda>tr p. False), lib_write_ex = (\<lambda>tr p bs. None),
     lib_read_ex = (\<lambda>tr p n. None), lib_pending = (\<lambda>tr p. 0)\<rparr>"

definition example_session :: udp_session where
  "example_session = \<lparr>us_socket_fd = 3, us_ka_miss_threshold = 20, us_dst = zero_addr, us_src = zero_addr\<rparr>"

definition example_ctrl :: udp_conn_ctrl where
  "example_ctrl = \<lparr>cc_mode = CHR ''c'', cc_init = 1, cc_read_fds = [5]\<rparr>"

definition example_data :: "ptr \<Rightarrow> ossl_quic_data" where
  "example_data p = \<lparr>qd_closed = 0, qd_close_status = UDP_CONN_OK, qd_ctx = None, qd_listener = None, qd_conn = p\<rparr>"

definition open_quic_conn :: "ptr \<Rightarrow> unit quic_conn" where
  "open_quic_conn p = \<lparr>c_udp = Some example_session, c_tcp = None, c_ctrl = Some example_ctrl, c_callback = True,
     c_config = None, c_data = Some (example_data p), c_app = (), c_trace = []\<rparr>"

lemma example_simps [simp]:
  "us_socket_fd example_session = 3" "cc_mode example_ctrl = CHR ''c''" "cc_init example_ctrl = 1"
  "cc_read_fds example_ctrl = [5]" "qd_closed (example_data p) = 0" "qd_close_status (example_data p) = UDP_CONN_OK"
  "qd_conn (example_data p) = p"
  by (simp_all add: example_session_def example_ctrl_def example_data_def)

lemma open_quic_conn_simps [simp]:
  "c_udp (open_quic_conn p) = Some example_session" "c_ctrl (open_quic_conn p) = Some example_ctrl"
  "c_data (open_quic_conn p) = Some (example_data p)" "c_callback (open_quic_conn p)"
  "c_tcp (open_quic_conn p) = None" "c_trace (open_quic_conn p) = []"
  by (simp_all add: open_quic_conn_def)

lemma ticking_passes: "clock_passes ticking_os (n + 5) (int n * 1000 + 5000)"
  by (auto simp: clock_passes_def ticking_os_def ms_def)

lemma ticking_from: "clock_from ticking_os 0"
  by (auto simp: clock_from_def ticking_os_def ms_def)

theorem quic_shutdown_returns_witness:
  "\<exists>st c' d'. finish_shutdown silent_lib ticking_os 6 example_session (open_quic_conn (Some 0)) = (Ret st, c') \<and>
     c_data c' = Some d' \<and> qd_conn d' = Some 0 \<and> waits_ok 3 5000000 (c_trace c')"
proof -
  have "\<exists>st c' d'. finish_shutdown silent_lib ticking_os 6 example_session (open_quic_conn (Some 0)) = (Ret st, c') \<and>
      c_data c' = Some d' \<and> later_status (example_data (Some 0)) d' \<and> (st = UDP_CONN_ERR \<or> st = qd_close_status d') \<and>
      waits_ok (us_socket_fd example_session) 5000000 (c_trace c')"
    by (rule quic_shutdown_returns [where n = 5 and ?t0.0 = "(0, 0)"])
       (use ticking_passes [of 0] ticking_from in \<open>simp_all add: ticking_os_def ms_def\<close>)
  then show ?thesis by (auto simp: later_status_def)
qed

section \<open>Disconnecting is terminal\<close>

text \<open>A callback that returns and leaves the connection's own state alone.\<close>

definition observes :: "'a quic_callback \<Rightarrow> bool" where
  "observes cb \<longleftrightarrow> (\<forall>r bs c. fst (cb r bs c) = Ret () \<and> c_data (snd (cb r bs c)) = c_data c \<and>
     c_ctrl (snd (cb r bs c)) = c_ctrl c \<and> c_udp (snd (cb r bs c)) = c_udp c)"

lemma observes_run:
  "observes cb \<Longrightarrow> \<exists>c'. cb r bs c = (Ret (), c') \<and> c_data c' = c_data c \<and> c_ctrl c' = c_ctrl c \<and> c_udp c' = c_udp c"
  unfolding observes_def by (metis prod.collapse)

definition quic_open :: "udp_session \<Rightarrow> udp_conn_ctrl \<Rightarrow> ossl_quic_data \<Rightarrow> 'a quic_conn \<Rightarrow> bool" where
  "quic_open us k d c \<longleftrightarrow> c_udp c = Some us \<and> c_ctrl c = Some k \<and> c_data c = Some d \<and> c_callback c \<and>
     cc_init k \<noteq> 0 \<and> qd_closed d = 0"

lemma finish_shutdown_frame:
  "c_udp (snd (finish_shutdown lib os fuel us c)) = c_udp c"
  "c_ctrl (snd (finish_shutdown lib os fuel us c)) = c_ctrl c"
  "c_callback (snd (finish_shutdown lib os fuel us c)) = c_callback c"
  by (auto simp: finish_shutdown_def with_data_def on_trace_eq split_beta split: option.split)

lemma finish_shutdown_returns:
  assumes "c_data c = Some d" and "\<And>t0. os_clock os (c_trace c) = Some t0 \<Longrightarrow> clock_passes os n (ms t0 + 5000)"
    and "n < fuel"
  shows "\<exists>st c' d'. finish_shutdown lib os fuel us c = (Ret st, c') \<and> c_data c' = Some d' \<and> later_status d d' \<and>
    (st = UDP_CONN_ERR \<or> st = qd_close_status d')"
proof (cases "os_clock os (c_trace c)")
  case None
  then show ?thesis using assms(1) by (auto simp: finish_shutdown_def with_data_def on_trace_eq quic_monotonic_ms_eq)
next
  case (Some t0)
  let ?t = "EvClock (Some t0) # c_trace c"
  have "n - count_clocks ?t < fuel" using assms(3) by simp
  from shutdown_loop_returns [OF assms(2) [OF Some] this, of lib "us_socket_fd us" d] obtain st d' t
    where l: "shutdown_loop lib os (us_socket_fd us) (ms t0 + 5000) fuel d ?t = (Ret st, d', t)" by blast
  with shutdown_loop_status [OF l] assms(1) Some show ?thesis
    by (auto simp: finish_shutdown_def with_data_def on_trace_eq quic_monotonic_ms_eq)
qed

lemma disconnect_open:
  assumes "quic_open us k d c" and "qd_close_status d = UDP_CONN_OK \<or> qd_close_status d = UDP_CONN_ERR"
    and "observes cb" and "\<And>t0. os_clock os (c_trace c) = Some t0 \<Longrightarrow> clock_passes os n (ms t0 + 5000)"
    and "n < fuel"
  shows "\<exists>st c' c1. ossl_quic_disconnect lib os cb fuel c = (Ret st, c') \<and> (st = UDP_CONN_OK \<or> st = UDP_CONN_ERR) \<and>
    c_data c' = Some (d\<lparr>qd_closed := 1, qd_close_status := st\<rparr>) \<and>
    c' = snd (cb OSSL_QUIC_UDP_DISCONNECTED [] c1) \<and> ossl_quic_is_closed c1 = UDP_CONN_CLOSED \<and>
    (qd_close_status d = UDP_CONN_ERR \<or> qd_conn d = None \<longrightarrow> st = UDP_CONN_ERR) \<and>
    ossl_quic_disconnect lib os cb fuel c' = (Ret st, c') \<and>
    ossl_quic_udp_send lib cb bs sent c' = (Ret (UDP_CONN_CLOSED, sent), c') \<and>
    (nb \<noteq> 0 \<longrightarrow> ossl_quic_udp_recv lib cb (Some m) nb (Some rn) c' = (Ret (UDP_CONN_CLOSED, Some m, Some 0), c'))"
proof -
  let ?shut = "if qd_conn d \<noteq> None then finish_shutdown lib os fuel us c else (Ret UDP_CONN_ERR, c)"
  have d: "c_data c = Some d" using assms(1) by (simp add: quic_open_def)
  obtain st1 c1 d1 where s: "?shut = (Ret st1, c1)" "c_data c1 = Some d1" "later_status d d1"
    "st1 = UDP_CONN_ERR \<or> st1 = qd_close_status d1" "qd_conn d = None \<longrightarrow> st1 = UDP_CONN_ERR"
    using finish_shutdown_returns [OF d assms(4,5), of lib us] d by (cases "qd_conn d") auto
  have frame: "c_udp c1 = Some us" "c_ctrl c1 = Some k" "c_callback c1"
    using assms(1) s(1) finish_shutdown_frame [of lib os fuel us c] by (auto simp: quic_open_def split: if_splits)
  define st where "st = (if is_err st1 then st1 else qd_close_status d1)"
  define c2 where "c2 = c1\<lparr>c_data := Some (d\<lparr>qd_closed := 1, qd_close_status := st\<rparr>)\<rparr>"
  have upd: "upd_data (\<lambda>d. (if is_err st1 then d\<lparr>qd_close_status := st1\<rparr> else d)\<lparr>qd_closed := 1\<rparr>) c1 = c2"
    using s(2,3) by (cases d) (auto simp: c2_def upd_data_def st_def later_status_def)
  have st: "st = UDP_CONN_OK \<or> st = UDP_CONN_ERR"
    "qd_close_status d = UDP_CONN_ERR \<or> qd_conn d = None \<longrightarrow> st = UDP_CONN_ERR"
    using s(3-5) assms(2) by (auto simp: st_def later_status_def)
  obtain c' where cb: "cb OSSL_QUIC_UDP_DISCONNECTED [] (c2\<lparr>c_trace := EvCallback OSSL_QUIC_UDP_DISCONNECTED [] # c_trace c2\<rparr>) = (Ret (), c')"
    "c_data c' = c_data c2" "c_ctrl c' = c_ctrl c2" "c_udp c' = c_udp c2"
    using observes_run [OF assms(3), of OSSL_QUIC_UDP_DISCONNECTED "[]"] by fastforce
  have run: "ossl_quic_disconnect lib os cb fuel c = (Ret st, c')"
    using assms(1) s(1) cb frame upd
    by (simp add: ossl_quic_disconnect_def quic_open_def run_callback_def with_data_def Let_def c2_def)
  have "c_data c' = Some (d\<lparr>qd_closed := 1, qd_close_status := st\<rparr>)" "c_ctrl c' = Some k" "c_udp c' = Some us"
    using cb frame by (simp_all add: c2_def)
  then show ?thesis
    using run st cb assms(1)
    by (intro exI [of _ st] exI [of _ c'] exI [of _ "c2\<lparr>c_trace := EvCallback OSSL_QUIC_UDP_DISCONNECTED [] # c_trace c2\<rparr>"])
       (simp add: ossl_quic_disconnect_def ossl_quic_udp_send_def ossl_quic_udp_recv_def ossl_quic_is_closed_def
         quic_open_def c2_def)
qed

text \<open>
  C12. Disconnecting an open session returns, whatever OpenSSL, the system and the peer do, once the
  clock has passed the deadline: the session is then closed, the user has been told exactly when it
  already was, the status returned is the one kept for \<open>ossl_quic_deinit\<close>, an error recorded before is
  not forgotten and a session that never had a connection is an error.  The objects stay for
  \<open>ossl_quic_deinit\<close>, and disconnecting, sending and receiving again change nothing and report the
  closed session.
\<close>

theorem quic_disconnect_terminal:
  assumes "quic_open us k d c" and "qd_close_status d = UDP_CONN_OK \<or> qd_close_status d = UDP_CONN_ERR"
    and "observes cb" and "\<And>t0. os_clock os (c_trace c) = Some t0 \<Longrightarrow> clock_passes os n (ms t0 + 5000)"
    and "n < fuel"
  shows "\<exists>st c' c1. ossl_quic_disconnect lib os cb fuel c = (Ret st, c') \<and> (st = UDP_CONN_OK \<or> st = UDP_CONN_ERR) \<and>
    c_data c' = Some (d\<lparr>qd_closed := 1, qd_close_status := st\<rparr>) \<and>
    c' = snd (cb OSSL_QUIC_UDP_DISCONNECTED [] c1) \<and> ossl_quic_is_closed c1 = UDP_CONN_CLOSED \<and>
    (qd_close_status d = UDP_CONN_ERR \<or> qd_conn d = None \<longrightarrow> st = UDP_CONN_ERR) \<and>
    ossl_quic_disconnect lib os cb fuel c' = (Ret st, c') \<and>
    ossl_quic_udp_send lib cb bs sent c' = (Ret (UDP_CONN_CLOSED, sent), c') \<and>
    (nb \<noteq> 0 \<longrightarrow> ossl_quic_udp_recv lib cb (Some m) nb (Some rn) c' = (Ret (UDP_CONN_CLOSED, Some m, Some 0), c'))"
  using assms by (rule disconnect_open)

definition quiet_callback :: "'a quic_callback" where
  "quiet_callback r bs c = (Ret (), c)"

lemma quiet_observes: "observes quiet_callback"
  by (simp add: observes_def quiet_callback_def)

lemma open_quic_conn_open [simp]: "quic_open example_session example_ctrl (example_data p) (open_quic_conn p)"
  by (simp add: quic_open_def)

theorem quic_disconnect_terminal_witness:
  "\<exists>c'. ossl_quic_disconnect silent_lib ticking_os quiet_callback 6 (open_quic_conn None) = (Ret UDP_CONN_ERR, c') \<and>
     ossl_quic_udp_send silent_lib quiet_callback [1] None c' = (Ret (UDP_CONN_CLOSED, None), c')"
  using quic_disconnect_terminal [OF open_quic_conn_open [of None] _ quiet_observes, where os = ticking_os and n = 5
      and fuel = 6 and lib = silent_lib and bs = "[1]" and sent = None and nb = 0 and m = "[]" and rn = 0]
    ticking_passes [of 0]
  by (fastforce simp: ticking_os_def ms_def)

end
