(* ===== verification/Ossl_Quic_Stream.thy ===== *)
theory Ossl_Quic_Stream
  imports Ossl_Quic_Shutdown
begin

text \<open>
  The stream operations of the QUIC backend and what they mean for the main loop, the effect of a
  callback that hangs up while the session is being opened, and hole punching against a silent and an
  answering peer.
\<close>

section \<open>Receiving\<close>

text \<open>
  C24. Receiving on an open session: what OpenSSL read is stored at the start of the buffer, counted
  and handed to the callback, once; a read that would have to wait is no error and delivers nothing,
  any other failing read is an error and delivers nothing.  Whatever count the caller's variable held
  before, it is the number of bytes received.
\<close>

theorem quic_recv_result:
  assumes "quic_open us k d c" and "observes cb" and "0 < n" and "n \<le> length m"
  shows "case lib_read_ex lib (c_trace c) (qd_conn d) n of
      Some bs \<Rightarrow> \<exists>c'. ossl_quic_udp_recv lib cb (Some m) n (Some old) c =
          (Ret (UDP_CONN_OK, Some (take n bs @ drop (length (take n bs)) m), Some (min n (length bs))), c') \<and>
        (\<exists>c1. cb OSSL_QUIC_UDP_RECV_DATA (take n bs) c1 = (Ret (), c') \<and>
           c_trace c1 = EvCallback OSSL_QUIC_UDP_RECV_DATA (take n bs) #
             EvSsl (Ssl_read_ex (qd_conn d) n (Some (take n bs))) # c_trace c)
    | None \<Rightarrow> let t = EvSsl (Ssl_read_ex (qd_conn d) n None) # c_trace c; e = lib_get_error lib t (qd_conn d) 0
        in ossl_quic_udp_recv lib cb (Some m) n (Some old) c =
          (Ret (if e = SSL_ERROR_WANT_READ \<or> e = SSL_ERROR_WANT_WRITE then UDP_CONN_OK else UDP_CONN_ERR,
             Some m, Some 0),
           c\<lparr>c_trace := EvSsl (Ssl_get_error (qd_conn d) 0 e) # t\<rparr>)"
proof (cases "lib_read_ex lib (c_trace c) (qd_conn d) n")
  case None
  then show ?thesis
    using assms by (simp add: ossl_quic_udp_recv_def quic_open_def on_trace_eq ssl_defs Let_def)
next
  case (Some bs)
  let ?c1 = "c\<lparr>c_trace := EvCallback OSSL_QUIC_UDP_RECV_DATA (take n bs) #
    EvSsl (Ssl_read_ex (qd_conn d) n (Some (take n bs))) # c_trace c\<rparr>"
  obtain c' where cb: "cb OSSL_QUIC_UDP_RECV_DATA (take n bs) ?c1 = (Ret (), c')"
    using observes_run [OF assms(2)] by blast
  have "\<not> length m < min (length bs) n" using assms(4) by simp
  with cb Some assms(1,3) have "ossl_quic_udp_recv lib cb (Some m) n (Some old) c =
      (Ret (UDP_CONN_OK, Some (overwrite m (take n bs)), Some (length (take n bs))), c')"
    by (simp add: ossl_quic_udp_recv_def quic_open_def on_trace_eq ssl_defs Let_def run_callback_def)
  with cb Some show ?thesis
    by (auto simp: overwrite_def min.commute intro!: exI [of _ ?c1])
qed

theorem quic_recv_result_witness:
  "ossl_quic_udp_recv silent_lib quiet_callback (Some [7, 8]) 2 (Some 5) (open_quic_conn (Some 0)) =
     (Ret (UDP_CONN_OK, Some [7, 8], Some 0),
      (open_quic_conn (Some 0))\<lparr>c_trace := [EvSsl (Ssl_get_error (Some 0) 0 2), EvSsl (Ssl_read_ex (Some 0) 2 None)]\<rparr>)"
  using quic_recv_result [OF open_quic_conn_open [of "Some 0"] quiet_observes, where n = 2 and m = "[7, 8]"
      and lib = silent_lib and old = 5]
  by (simp add: silent_lib_def Let_def)

section \<open>Back-pressure ends the session\<close>

text \<open>
  C25. A write that OpenSSL cannot take at once ends the session: when the tunnel's peer sent bytes and
  \<open>SSL_write_ex\<close> fails, for whatever reason, the bytes are dropped without a look at
  \<open>SSL_get_error\<close>, and the main loop disconnects.
\<close>

theorem quic_backpressure_disconnects:
  assumes "quic_open us k d c" and "c_tcp c = Some ts" and "fd \<noteq> -1" and "fd \<in> set (cc_read_fds k)"
    and "sys_recv os (ts_accepted_sock ts) TCP_MTU_SIZE False (c_trace c) = (Inr bs, t1)" and "bs \<noteq> []"
    and "lib_write_ex lib t1 (qd_conn d) bs = None"
    and "qd_close_status d = UDP_CONN_OK \<or> qd_close_status d = UDP_CONN_ERR" and "observes cb"
    and "\<And>tr t0. os_clock os tr = Some t0 \<Longrightarrow> clock_passes os n (ms t0 + 5000)" and "n < fuel"
  shows "\<exists>c'. on_tcp_ready os (ossl_quic_api lib os cb fuel) fd c = (Ret (), c') \<and>
    ossl_quic_is_closed c' = UDP_CONN_CLOSED"
proof -
  let ?t = "EvSsl (Ssl_write_ex (qd_conn d) bs None) # t1"
  let ?c = "c\<lparr>c_trace := ?t\<rparr>"
  have "tcp_recv os (ossl_quic_api lib os cb fuel) c = (Ret UDP_CONN_ERR, ?c)"
    using assms(1,2,5-7)
    by (simp add: tcp_recv_def quic_open_def ossl_quic_api_def ossl_quic_is_closed_def on_trace_eq
        ossl_quic_udp_send_def ssl_defs Let_def)
  moreover have "quic_open us k d ?c" using assms(1) by (simp add: quic_open_def)
  from disconnect_open [OF this assms(8,9) _ assms(11), of os lib] assms(10)
  obtain st c' where "ossl_quic_disconnect lib os cb fuel ?c = (Ret st, c')"
    "c_data c' = Some (d\<lparr>qd_closed := 1, qd_close_status := st\<rparr>)" by blast
  ultimately show ?thesis
    using assms(1,3,4)
    by (simp add: on_tcp_ready_def fd_isset_def quic_open_def ossl_quic_is_closed_def)
       (simp add: ossl_quic_api_def)
qed

text \<open>A client whose tunnel's peer has written three bytes while OpenSSL takes none.\<close>

definition example_tunnel :: tcp_session where
  "example_tunnel = \<lparr>ts_socket_fd = 4, ts_accepted_sock = 5, ts_reuse = 1, ts_local = zero_addr\<rparr>"

definition tunnel_client :: "unit quic_conn" where
  "tunnel_client = (open_quic_conn (Some 0))\<lparr>c_tcp := Some example_tunnel\<rparr>"

definition late_os :: os where
  "late_os = quiet_os\<lparr>os_recv := (\<lambda>tr fd dw. Inr [1, 2, 3]), os_clock := (\<lambda>tr. None)\<rparr>"

theorem quic_backpressure_disconnects_witness:
  "\<exists>c'. on_tcp_ready late_os (ossl_quic_api silent_lib late_os quiet_callback 6) 5 tunnel_client = (Ret (), c') \<and>
     ossl_quic_is_closed c' = UDP_CONN_CLOSED"
proof -
  have "quic_open example_session example_ctrl (example_data (Some 0)) tunnel_client"
    by (simp add: quic_open_def tunnel_client_def)
  moreover have "c_tcp tunnel_client = Some example_tunnel" by (simp add: tunnel_client_def)
  ultimately show ?thesis
    by (rule quic_backpressure_disconnects [where bs = "[1, 2, 3]" and n = 0 and
          ?t1.0 = "EvRecv 5 1024 False (Inr ([1, 2, 3], False)) # c_trace tunnel_client"])
       (simp_all add: late_os_def sys_defs Let_def silent_lib_def quiet_observes example_tunnel_def)
qed

section \<open>A callback that hangs up\<close>

text \<open>The user's callback of a program that disconnects as soon as it is connected.\<close>

definition hangup_callback :: "ssl_lib \<Rightarrow> os \<Rightarrow> nat \<Rightarrow> 'a quic_callback" where
  "hangup_callback lib os fuel r bs c =
     (if r = OSSL_QUIC_UDP_CONNECTED
      then chain (ossl_quic_disconnect lib os quiet_callback fuel c) (\<lambda>_ c1. (Ret (), c1))
      else (Ret (), c))"

definition quic_idle :: "'a quic_conn \<Rightarrow> bool" where
  "quic_idle c \<longleftrightarrow> (\<exists>k d us. c_ctrl c = Some k \<and> c_data c = Some d \<and> c_udp c = Some us \<and> cc_init k \<noteq> 0 \<and> qd_closed d = 0)"

lemma quic_idle_simps [simp]: "quic_idle (c\<lparr>c_trace := t\<rparr>) = quic_idle c"
  by (simp add: quic_idle_def)

lemma pre_connect_idle: "ossl_quic_pre_connect lib os c = (r, c') \<Longrightarrow> quic_idle c \<Longrightarrow> quic_idle c'"
  by (auto simp: ossl_quic_pre_connect_def pre_connect_client_def pre_connect_server_def on_trace_eq Let_def quic_idle_def
      split: option.splits if_splits)

lemma handshake_idle: "handshake lib m c = (r, c') \<Longrightarrow> quic_idle c \<Longrightarrow> quic_idle c'"
  by (auto simp: handshake_def with_data_def on_trace_eq quic_idle_def split: option.splits if_splits)

lemma disconnect_told:
  assumes "ossl_quic_disconnect lib os quiet_callback fuel c = (Ret st, c')" and "quic_idle c"
  shows "EvCallback OSSL_QUIC_UDP_DISCONNECTED [] \<in> set (c_trace c') \<and> ossl_quic_is_closed c' = UDP_CONN_CLOSED"
  using assms
  by (auto simp: ossl_quic_disconnect_def quic_idle_def chain_Ret_iff run_callback_def quiet_callback_def with_data_def
      ossl_quic_is_closed_def upd_data_def Let_def split: option.splits if_splits)

text \<open>
  C26. A program that hangs up from inside the callback of its own connection is told that the session
  is closed, and then finds it open again: \<open>ossl_quic_connect\<close> clears the closed flag after the callback
  has run, so the session counts as open although it was shut down.
\<close>

theorem quic_connect_reopens:
  assumes "ossl_quic_connect lib os (hangup_callback lib os fuel) c = (Ret UDP_CONN_OK, c')" and "quic_idle c"
  shows "EvCallback OSSL_QUIC_UDP_DISCONNECTED [] \<in> set (c_trace c') \<and> ossl_quic_is_closed c' = UDP_CONN_OK"
proof -
  have "\<exists>r c1 c2 m. ossl_quic_pre_connect lib os c = (Ret r, c1) \<and> handshake lib m c1 = (Ret True, c2) \<and>
      finish_connect lib (hangup_callback lib os fuel) c2 = (Ret UDP_CONN_OK, c')"
    using assms(1) by (auto simp: ossl_quic_connect_def chain_Ret_iff split: option.splits if_splits)
  then obtain r c1 c2 m where "ossl_quic_pre_connect lib os c = (Ret r, c1)" "handshake lib m c1 = (Ret True, c2)"
    and fin: "finish_connect lib (hangup_callback lib os fuel) c2 = (Ret UDP_CONN_OK, c')"
    by blast
  with assms(2) have c2: "quic_idle c2" by (meson pre_connect_idle handshake_idle)
  then obtain d where d: "c_data c2 = Some d" by (auto simp: quic_idle_def)
  let ?t = "EvCallback OSSL_QUIC_UDP_CONNECTED [] # snd (SSL_set_blocking_mode lib (qd_conn d) 0 (c_trace c2))"
  obtain st c3 where "ossl_quic_disconnect lib os quiet_callback fuel (c2\<lparr>c_trace := ?t\<rparr>) = (Ret st, c3)"
    and c': "c' = upd_data (\<lambda>d. d\<lparr>qd_closed := 0\<rparr>) c3"
    using fin d by (auto simp: finish_connect_def with_data_def on_trace_eq chain_Ret_iff run_callback_def hangup_callback_def
        split: if_splits)
  from disconnect_told [OF this(1)] c2 show ?thesis
    by (auto simp: c' upd_data_def ossl_quic_is_closed_def split: option.splits)
qed

theorem quic_connect_reopens_witness:
  "\<exists>c'. ossl_quic_connect silent_lib late_os (hangup_callback silent_lib late_os 6) (open_quic_conn None) =
       (Ret UDP_CONN_OK, c') \<and>
     EvCallback OSSL_QUIC_UDP_DISCONNECTED [] \<in> set (c_trace c') \<and> ossl_quic_is_closed c' = UDP_CONN_OK"
proof -
  have "fst (ossl_quic_connect silent_lib late_os (hangup_callback silent_lib late_os 6) (open_quic_conn None)) =
      Ret UDP_CONN_OK"
    by code_simp
  then obtain c' where run: "ossl_quic_connect silent_lib late_os (hangup_callback silent_lib late_os 6)
      (open_quic_conn None) = (Ret UDP_CONN_OK, c')" by (metis prod.collapse)
  moreover have "quic_idle (open_quic_conn None)" by (simp add: quic_idle_def)
  ultimately show ?thesis using quic_connect_reopens by blast
qed

end
