(* ===== verification/Ossl_Quic_Punch.thy ===== *)
theory Ossl_Quic_Punch
  imports Ossl_Quic_Shutdown
begin

text \<open>
  Hole punching of the QUIC backend: it has no limit of attempts, so a peer that never answers keeps
  it, and \<open>udp_connection\<close>, from returning; a peer that punches as well is found at once.
\<close>

text \<open>Socket options and datagrams always go through; \<open>answer\<close> is what every \<open>recv\<close> gives.\<close>

definition steady_os :: "os \<Rightarrow> errno + byte list \<Rightarrow> bool" where
  "steady_os os answer \<longleftrightarrow> (\<forall>tr fd opt. os_setsockopt os tr fd opt = None) \<and>
     (\<forall>tr fd bs. os_sendto os tr fd bs = Inr (length bs)) \<and> (\<forall>tr fd dw. os_recv os tr fd dw = answer)"

lemma steady_calls:
  assumes "steady_os os answer"
  shows "sys_sendto os fd bs dst dw tr = (Inr (length bs), EvSendto fd bs dst dw (Inr (length bs)) # tr)"
    and "sys_setsockopt os fd opt tr = (None, EvSetsockopt fd opt None # tr)"
    and "\<exists>r. sys_recv os fd n dw tr = (map_sum id (take n) answer, EvRecv fd n dw r # tr)"
  using assms by (auto simp: steady_os_def sys_defs Let_def sum.map_comp comp_def id_def)

definition sleeps :: "trace \<Rightarrow> int list" where
  "sleeps tr = List.map_filter (\<lambda>e. case e of EvSleep n \<Rightarrow> Some n | _ \<Rightarrow> None) tr"

lemma sleeps_simps [simp]:
  "sleeps [] = []" "sleeps (EvSleep n # tr) = n # sleeps tr" "\<not> is_EvSleep e \<Longrightarrow> sleeps (e # tr) = sleeps tr"
  by (auto simp: sleeps_def map_filter_simps split: event.splits)

lemma steady_recvE:
  assumes "steady_os os answer"
  obtains r where "sys_recv os fd n dw tr = (map_sum id (take n) answer, EvRecv fd n dw r # tr)"
  using steady_calls(3) [OF assms] by blast

section \<open>A silent peer\<close>

lemma punch_keep_alive_steady:
  "steady_os os a \<Longrightarrow> punch_keep_alive os fd dst (Suc fuel) tr = (Ret True, EvSendto fd [0] dst False (Inr 1) # tr)"
  using steady_calls(1) [of os a fd "[0]" dst False tr] by simp

lemma punch_discover_silent:
  assumes "steady_os os (Inl EAGAIN)"
  shows "\<exists>tr'. punch_discover os mode fd dst fuel tr = (NoFuel, tr') \<and> datagrams fd tr' =
    (if mode = CHR ''c'' then replicate fuel probe
     else if mode = CHR ''s'' then replicate (fuel - 1) [0] else []) @ datagrams fd tr"
proof (induction fuel arbitrary: tr)
  case (Suc fuel)
  let ?t1 = "if mode = CHR ''c'' then EvSendto fd probe dst False (Inr (length probe)) # tr else tr"
  obtain r where r: "sys_recv os fd 3 False ?t1 = (Inl EAGAIN, EvRecv fd 3 False r # ?t1)"
    using steady_recvE [OF assms, of fd 3 False ?t1] by auto
  let ?t2 = "EvRecv fd 3 False r # ?t1"
  have send: "(if mode = CHR ''c'' then sys_sendto os fd probe dst False tr else (Inr 0, tr)) =
      (Inr (if mode = CHR ''c'' then length probe else 0), ?t1)"
    using steady_calls(1) [OF assms] by simp
  show ?case
  proof (cases "mode = CHR ''s''")
    case False
    with Suc [of ?t2] send r show ?thesis by (auto simp: replicate_append_same simp flip: replicate_Suc)
  next
    case True
    show ?thesis
    proof (cases fuel)
      case 0
      with True send r show ?thesis by simp
    next
      case (Suc n)
      let ?t3 = "EvSendto fd [0] dst False (Inr 1) # ?t2"
      obtain tr' where "punch_discover os mode fd dst fuel ?t3 = (NoFuel, tr')"
        "datagrams fd tr' = replicate (fuel - 1) [0] @ datagrams fd ?t3" using Suc.IH [of ?t3] True by auto
      with True send r Suc punch_keep_alive_steady [OF assms, of fd dst n ?t2] show ?thesis
        by (auto simp: replicate_append_same simp flip: replicate_Suc)
    qed
  qed
qed simp

text \<open>
  C27. Against a silent peer the hole punching of the QUIC backend does not return, however long it
  runs: the client sends one probe per second, the server one keep-alive byte, and no number of
  attempts is enough.
\<close>

theorem quic_punching_silent:
  assumes "steady_os os (Inl EAGAIN)" and "c_udp c = Some us" and "c_ctrl c = Some k"
    and "cc_mode k = CHR ''c'' \<or> cc_mode k = CHR ''s''"
  shows "\<exists>c'. ossl_quic_hole_punching os fuel c = (NoFuel, c') \<and>
    datagrams (us_socket_fd us) (c_trace c') =
      (if cc_mode k = CHR ''c'' then replicate fuel probe else replicate (fuel - 1) [0]) @
      datagrams (us_socket_fd us) (c_trace c)"
proof -
  let ?fd = "us_socket_fd us"
  let ?t = "EvSetsockopt ?fd (SO_RCVTIMEO \<lparr>tv_sec = 1, tv_usec = 0\<rparr>) None # c_trace c"
  obtain tr' where "punch_discover os (cc_mode k) ?fd (us_dst us) fuel ?t = (NoFuel, tr')"
    "datagrams ?fd tr' = (if cc_mode k = CHR ''c'' then replicate fuel probe
      else if cc_mode k = CHR ''s'' then replicate (fuel - 1) [0] else []) @ datagrams ?fd ?t"
    using punch_discover_silent [OF assms(1)] by blast
  with assms steady_calls(2) [OF assms(1)] show ?thesis
    by (auto simp: ossl_quic_hole_punching_def on_trace_eq punch_def)
qed

theorem quic_punching_silent_witness:
  "\<exists>c'. ossl_quic_hole_punching quiet_os 20 (open_quic_conn None) = (NoFuel, c') \<and>
     datagrams 3 (c_trace c') = replicate 20 probe"
proof -
  have "steady_os quiet_os (Inl EAGAIN)" by (simp add: steady_os_def)
  from quic_punching_silent [OF this, where c = "open_quic_conn None" and us = example_session and k = example_ctrl
      and fuel = 20]
  show ?thesis by simp
qed

section \<open>A peer that punches too\<close>

lemma punch_transient_steady:
  assumes "steady_os os (Inr probe)"
  shows "\<exists>tr'. punch_transient os fd dst n punched tr = (Some (punched \<or> 0 < n), tr') \<and>
    datagrams fd tr' = replicate n probe @ datagrams fd tr \<and> sleeps tr' = replicate n 50 @ sleeps tr"
proof (induction n arbitrary: punched tr)
  case (Suc n)
  let ?t1 = "EvSleep 50 # EvSendto fd probe dst False (Inr (length probe)) # tr"
  obtain r where r: "sys_recv os fd 3 True ?t1 = (Inr probe, EvRecv fd 3 True r # ?t1)"
    using steady_recvE [OF assms, of fd 3 True ?t1] by (auto simp: probe_def)
  obtain tr1 tr2 where "punch_transient os fd dst n True ?t1 = (Some True, tr1)"
      "datagrams fd tr1 = replicate n probe @ datagrams fd ?t1" "sleeps tr1 = replicate n 50 @ sleeps ?t1"
    and "punch_transient os fd dst n True (EvRecv fd 3 True r # ?t1) = (Some True, tr2)"
      "datagrams fd tr2 = replicate n probe @ datagrams fd ?t1" "sleeps tr2 = replicate n 50 @ sleeps ?t1"
    using Suc [of True ?t1] Suc [of True "EvRecv fd 3 True r # ?t1"] by auto
  with r steady_calls(1) [OF assms] show ?case
    by (cases punched) (auto simp: msleep_def Let_def replicate_append_same simp flip: replicate_Suc)
qed simp

text \<open>
  A peer that answers every probe is found in the first attempt: the client then has sent eleven
  probes and the server ten, each after the discovery followed by 50 ms, the receive timeout is
  switched off again, and the result is success.
\<close>

theorem quic_punching_answered:
  assumes "steady_os os (Inr probe)" and "c_udp c = Some us" and "c_ctrl c = Some k"
    and "cc_mode k = CHR ''c'' \<or> cc_mode k = CHR ''s''" and "0 < fuel"
  shows "\<exists>t. ossl_quic_hole_punching os fuel c = (Ret UDP_CONN_OK, c\<lparr>c_trace :=
      EvSetsockopt (us_socket_fd us) (SO_RCVTIMEO \<lparr>tv_sec = 0, tv_usec = 0\<rparr>) None # t\<rparr>) \<and>
    datagrams (us_socket_fd us) t = replicate (if cc_mode k = CHR ''c'' then 11 else 10) probe @
      datagrams (us_socket_fd us) (c_trace c) \<and>
    sleeps t = replicate 10 50 @ sleeps (c_trace c)"
proof -
  let ?fd = "us_socket_fd us"
  let ?t = "EvSetsockopt ?fd (SO_RCVTIMEO \<lparr>tv_sec = 1, tv_usec = 0\<rparr>) None # c_trace c"
  let ?t1 = "if cc_mode k = CHR ''c'' then EvSendto ?fd probe (us_dst us) False (Inr (length probe)) # ?t else ?t"
  obtain r where r: "sys_recv os ?fd 3 False ?t1 = (Inr probe, EvRecv ?fd 3 False r # ?t1)"
    using steady_recvE [OF assms(1), of ?fd 3 False ?t1] by (auto simp: probe_def)
  obtain n where "fuel = Suc n" using assms(5) gr0_implies_Suc by blast
  then have disc: "punch_discover os (cc_mode k) ?fd (us_dst us) fuel ?t = (Ret True, EvRecv ?fd 3 False r # ?t1)"
    using r steady_calls(1) [OF assms(1)] by auto
  obtain t where t: "punch_transient os ?fd (us_dst us) 10 False (EvRecv ?fd 3 False r # ?t1) = (Some True, t)"
    "datagrams ?fd t = replicate 10 probe @ datagrams ?fd ?t1" "sleeps t = replicate 10 50 @ sleeps ?t1"
    using punch_transient_steady [OF assms(1), of ?fd "us_dst us" 10 False "EvRecv ?fd 3 False r # ?t1"] by auto
  have "replicate 10 probe @ [probe] = replicate 11 probe" by (simp add: numeral_eq_Suc)
  then have "datagrams ?fd t = replicate (if cc_mode k = CHR ''c'' then 11 else 10) probe @ datagrams ?fd (c_trace c)"
    using t(2) by (simp add: append_assoc [symmetric] del: append_assoc)
  with t disc assms(2-4) steady_calls(2) [OF assms(1)] show ?thesis
    by (intro exI [of _ t]) (auto simp: ossl_quic_hole_punching_def on_trace_eq punch_def)
qed

theorem quic_punching_answered_witness:
  "\<exists>c'. ossl_quic_hole_punching (quiet_os\<lparr>os_recv := (\<lambda>tr fd dw. Inr probe)\<rparr>) 1 (open_quic_conn None) =
     (Ret UDP_CONN_OK, c') \<and> datagrams 3 (c_trace c') = replicate 11 probe"
proof -
  have "steady_os (quiet_os\<lparr>os_recv := (\<lambda>tr fd dw. Inr probe)\<rparr>) (Inr probe)" by (simp add: steady_os_def)
  from quic_punching_answered [OF this, where c = "open_quic_conn None" and us = example_session and k = example_ctrl
      and fuel = 1]
  show ?thesis by auto
qed

end
