(* ===== verification/Ossl_Quic_Phase.thy ===== *)
theory Ossl_Quic_Phase
  imports Ossl_Quic_App Ossl_Quic_Shutdown
begin

text \<open>
  The life of a QUIC connection as a small state machine: not initialised, live, or ended.  Every
  operation of the table refines a step of this machine, so what holds of all its runs holds of all
  sequences of calls.
\<close>

section \<open>The abstract machine\<close>

datatype phase = Off | Live | Ended

inductive phase_step :: "api_call \<Rightarrow> phase \<Rightarrow> phase \<Rightarrow> bool" where
  initialised: "phase_step KInit Off Live"
| released: "phase_step KDeinit p Off"
| reopened: "phase_step KConnect Ended Live"
| hung_up: "phase_step KDisconnect Live Ended"
| peer_closed: "phase_step KProcess Live Ended"
| unchanged: "k \<noteq> KDeinit \<Longrightarrow> k \<noteq> KDisconnect \<or> p \<noteq> Live \<Longrightarrow> phase_step k p p"

inductive_simps phase_step_simps: "phase_step k p q"

inductive phase_run :: "api_call list \<Rightarrow> phase \<Rightarrow> phase \<Rightarrow> bool" where
  no_call: "phase_run [] p p"
| call: "phase_step k p q \<Longrightarrow> phase_run ks q r \<Longrightarrow> phase_run (k # ks) p r"

text \<open>
  What follows from the steps alone: a session ends for good unless it is connected again or released,
  and a call \<open>KDisconnect\<close> or \<open>KDeinit\<close> leaves no live session.
\<close>

lemma phase_run_ended:
  "phase_run ks p q \<Longrightarrow> p = Ended \<Longrightarrow> KConnect \<notin> set ks \<Longrightarrow> KDeinit \<notin> set ks \<Longrightarrow> q = Ended"
  by (induction rule: phase_run.induct) (auto simp: phase_step_simps)

lemma phase_run_live:
  "phase_run ks p q \<Longrightarrow> q = Live \<Longrightarrow> p = Live \<or> KInit \<in> set ks \<or> KConnect \<in> set ks"
  by (induction rule: phase_run.induct) (auto simp: phase_step_simps)

section \<open>The phase of a connection\<close>

definition phase_of :: "int \<Rightarrow> int \<Rightarrow> phase" where
  "phase_of i x = (if i = 0 then Off else if x = 0 then Live else Ended)"

lemma phase_of_iff [simp]:
  "phase_of i x = Off \<longleftrightarrow> i = 0" "phase_of i x = Live \<longleftrightarrow> i \<noteq> 0 \<and> x = 0" "phase_of i x = Ended \<longleftrightarrow> i \<noteq> 0 \<and> x \<noteq> 0"
  "Off = phase_of i x \<longleftrightarrow> i = 0" "Live = phase_of i x \<longleftrightarrow> i \<noteq> 0 \<and> x = 0" "Ended = phase_of i x \<longleftrightarrow> i \<noteq> 0 \<and> x \<noteq> 0"
  by (auto simp: phase_of_def)

definition in_phase :: "phase \<Rightarrow> 'a quic_conn \<Rightarrow> bool" where
  "in_phase p c \<longleftrightarrow> c_udp c \<noteq> None \<and> c_tcp c \<noteq> None \<and> c_ctrl c \<noteq> None \<and> c_data c \<noteq> None \<and>
     p = phase_of (cc_init (the (c_ctrl c))) (qd_closed (the (c_data c)))"

lemma in_phase_frame [simp]:
  "in_phase p (c\<lparr>c_trace := t\<rparr>) = in_phase p c" "in_phase p (c\<lparr>c_app := a\<rparr>) = in_phase p c"
  "in_phase p (c\<lparr>c_trace := t, c_app := a\<rparr>) = in_phase p c"
  "in_phase p (c\<lparr>c_trace := t, c_data := x\<rparr>) = in_phase p (c\<lparr>c_data := x\<rparr>)"
  by (simp_all add: in_phase_def)

lemma in_phase_data:
  "in_phase p c \<Longrightarrow> c_data c = Some d \<Longrightarrow> qd_closed d' = qd_closed d \<Longrightarrow> in_phase p (c\<lparr>c_data := Some d'\<rparr>)"
  by (auto simp: in_phase_def)

lemma in_phaseE:
  assumes "in_phase p c"
  obtains us ts k d where "c_udp c = Some us" "c_tcp c = Some ts" "c_ctrl c = Some k" "c_data c = Some d"
    "p = phase_of (cc_init k) (qd_closed d)"
  using assms by (auto simp: in_phase_def)

text \<open>
  The user of a tunnel: the callbacks of the applications return at once when the connection has a TCP
  session.
\<close>

definition tunnel_user :: "'a quic_callback \<Rightarrow> bool" where
  "tunnel_user cb \<longleftrightarrow> (\<forall>r bs c. c_tcp c \<noteq> None \<longrightarrow> (\<exists>a. cb r bs c = (Ret (), c\<lparr>c_app := a\<rparr>)))"

lemma quic_test_tunnel_user: "tunnel_user (quic_test_callback lib os fuel (Suc depth))"
proof (unfold tunnel_user_def, intro allI impI)
  fix r bs and c :: "quic_test_app quic_conn" assume "c_tcp c \<noteq> None"
  then show "\<exists>a. quic_test_callback lib os fuel (Suc depth) r bs c = (Ret (), c\<lparr>c_app := a\<rparr>)"
    by (intro exI [of _ "c_app c"]) (simp add: quic_callback_body_def)
qed

lemma callback_phase:
  assumes "tunnel_user cb" and "in_phase p c" and "run_callback cb r bs c = (Ret u, c')"
  shows "in_phase p c' \<and> c_data c' = c_data c \<and> c_ctrl c' = c_ctrl c"
proof -
  let ?c = "c\<lparr>c_trace := EvCallback r bs # c_trace c\<rparr>"
  have "c_tcp ?c \<noteq> None" using assms(2) by (auto simp: in_phase_def)
  with assms(1) obtain a where "cb r bs ?c = (Ret (), ?c\<lparr>c_app := a\<rparr>)" unfolding tunnel_user_def by blast
  with assms(2,3) show ?thesis by (auto simp: run_callback_def split: if_splits)
qed

section \<open>Every operation refines a step\<close>

lemma bind_phase:
  assumes "in_phase Off c" and "bind_socket os cfg us k c = (Ret st, c')"
  shows "in_phase Off c' \<or> in_phase Live c'"
  using assms
  by (auto simp: bind_socket_def on_trace_eq upd_data_def in_phase_def split: option.splits)

lemma init_phase:
  assumes "in_phase p c" and "ossl_quic_init lib os c = (Ret st, c')"
  shows "\<exists>q. phase_step KInit p q \<and> in_phase q c'"
proof (cases "p = Off")
  case False
  with assms have "in_phase p c'"
    by (auto simp: ossl_quic_init_def in_phase_def split: if_splits option.splits)
  then show ?thesis by (auto simp: phase_step_simps)
next
  case True
  have prep: "in_phase Off c' \<or> in_phase Live c'"
    if "prepare_context lib srv f d (bind_socket os cfg us k) c = (Ret st, c')" "c_data c = Some d" for srv f d cfg us k
  proof -
    have ph: "in_phase Off (c\<lparr>c_data := Some (d\<lparr>qd_ctx := x\<rparr>)\<rparr>)" for x
      using assms(1) True that(2) by (auto simp: in_phase_def)
    have "in_phase Off c' \<or> (\<exists>x t. bind_socket os cfg us k (c\<lparr>c_data := Some (d\<lparr>qd_ctx := x\<rparr>), c_trace := t\<rparr>) = (Ret st, c'))"
      using that(1) ph by (auto simp: prepare_context_def on_trace_eq Let_def chain_Ret_iff split_beta split: if_splits)
    then show ?thesis using bind_phase [of _ os cfg us k st c'] ph by (metis in_phase_frame(1))
  qed
  have "in_phase Off c' \<or> in_phase Live c'"
    using assms True prep
    by (auto simp: ossl_quic_init_def elim!: in_phaseE split: if_splits option.splits list.splits)
  with True show ?thesis by (auto simp: phase_step_simps)
qed

lemma pre_connect_phase: "in_phase p c \<Longrightarrow> ossl_quic_pre_connect lib os c = (Ret st, c') \<Longrightarrow> in_phase p c'"
  by (auto simp: ossl_quic_pre_connect_def pre_connect_client_def pre_connect_server_def on_trace_eq Let_def in_phase_def
      split: option.splits if_splits)

lemma handshake_phase: "in_phase p c \<Longrightarrow> handshake lib m c = (Ret ok, c') \<Longrightarrow> in_phase p c'"
  by (auto simp: handshake_def with_data_def on_trace_eq in_phase_def split: option.splits if_splits)

lemma finish_connect_phase:
  assumes "tunnel_user cb" and "in_phase p c" and "finish_connect lib cb c = (Ret st, c')"
  shows "in_phase p c' \<or> p = Ended \<and> in_phase Live c'"
proof -
  obtain d where d: "c_data c = Some d" using assms(2) by (rule in_phaseE)
  let ?c = "c\<lparr>c_trace := snd (SSL_set_blocking_mode lib (qd_conn d) 0 (c_trace c))\<rparr>"
  have "c' = ?c \<or> (\<exists>u c1. run_callback cb OSSL_QUIC_UDP_CONNECTED [] ?c = (Ret u, c1) \<and> c' = upd_data (\<lambda>d. d\<lparr>qd_closed := 0\<rparr>) c1)"
    using assms(3) d by (auto simp: finish_connect_def with_data_def on_trace_eq chain_Ret_iff split: if_splits)
  moreover have "in_phase p (upd_data (\<lambda>d. d\<lparr>qd_closed := 0\<rparr>) c1) \<or> p = Ended \<and> in_phase Live (upd_data (\<lambda>d. d\<lparr>qd_closed := 0\<rparr>) c1)"
    if "in_phase p c1" for c1 using that by (cases p) (auto simp: in_phase_def upd_data_def)
  ultimately show ?thesis using assms(2) callback_phase [OF assms(1), of p ?c] by auto
qed

lemma connect_phase:
  assumes "tunnel_user cb" and "in_phase p c" and "ossl_quic_connect lib os cb c = (Ret st, c')"
  shows "\<exists>q. phase_step KConnect p q \<and> in_phase q c'"
proof -
  obtain r c1 m ok c2 where "ossl_quic_pre_connect lib os c = (Ret r, c1)" "handshake lib m c1 = (Ret ok, c2)"
    and fin: "(if ok then finish_connect lib cb c2 else (Ret UDP_CONN_ERR, c2)) = (Ret st, c')"
    using assms(2,3) by (auto simp: ossl_quic_connect_def chain_Ret_iff elim!: in_phaseE)
  with assms(2) have "in_phase p c2" by (blast intro: pre_connect_phase handshake_phase)
  with fin finish_connect_phase [OF assms(1) this, of lib st c'] have "in_phase p c' \<or> p = Ended \<and> in_phase Live c'"
    by (auto split: if_splits)
  then show ?thesis by (auto simp: phase_step_simps)
qed

lemma finish_shutdown_phase:
  assumes "in_phase p c" and "finish_shutdown lib os fuel us c = (Ret st, c')"
  shows "in_phase p c'"
proof -
  obtain d where d: "c_data c = Some d" using assms(1) by (rule in_phaseE)
  have loop: "in_phase p (c\<lparr>c_data := Some d1, c_trace := t\<rparr>)"
    if "shutdown_loop lib os fd n fuel d tr = (Ret st, d1, t)" for fd n tr st d1 t
  proof -
    have "qd_closed d1 = qd_closed d" using shutdown_loop_status [OF that] by (auto simp: later_status_def)
    with assms(1) d show ?thesis by (simp add: in_phase_def)
  qed
  show ?thesis
    using assms d loop
    by (auto simp: finish_shutdown_def with_data_def on_trace_eq split: option.splits if_splits prod.splits)
qed

lemma disconnect_phase:
  assumes "tunnel_user cb" and "in_phase p c" and "ossl_quic_disconnect lib os cb fuel c = (Ret st, c')"
  shows "in_phase (if p = Off then Off else Ended) c'"
proof -
  obtain us ts k d where c: "c_udp c = Some us" "c_tcp c = Some ts" "c_ctrl c = Some k" "c_data c = Some d"
    "p = phase_of (cc_init k) (qd_closed d)" using assms(2) by (rule in_phaseE)
  show ?thesis
  proof (cases "p = Live")
    case False
    with assms(2,3) c show ?thesis by (cases p) (auto simp: ossl_quic_disconnect_def in_phase_def split: if_splits)
  next
    case True
    let ?hung = "\<lambda>st1. upd_data (\<lambda>d. (if is_err st1 then d\<lparr>qd_close_status := st1\<rparr> else d)\<lparr>qd_closed := 1\<rparr>)"
    obtain st1 c1 u c3 where "(if qd_conn d \<noteq> None then finish_shutdown lib os fuel us c else (Ret UDP_CONN_ERR, c)) = (Ret st1, c1)"
      and cb: "run_callback cb OSSL_QUIC_UDP_DISCONNECTED [] (?hung st1 c1) = (Ret u, c3)" and c': "c' = c3"
      using assms(3) c True
      by (auto simp: ossl_quic_disconnect_def chain_Ret_iff with_data_def Let_def split: if_splits option.splits)
    then have "in_phase p c1" using assms(2) finish_shutdown_phase by (auto split: if_splits)
    then have "in_phase Ended (?hung st1 c1)" using True by (auto simp: in_phase_def upd_data_def)
    from callback_phase [OF assms(1) this cb] c' True show ?thesis by simp
  qed
qed

lemma release_phase:
  assumes "in_phase p c" and "release os c = (Ret st, c')"
  shows "in_phase Off c'"
  using assms by (auto simp: release_def with_data_def close_sockets_def in_phase_def Let_def split_beta)

lemma deinit_phase:
  assumes "tunnel_user cb" and "in_phase p c" and "ossl_quic_deinit lib os cb fuel c = (Ret st, c')"
  shows "in_phase Off c'"
proof -
  obtain us ts k d where c: "c_udp c = Some us" "c_ctrl c = Some k" "c_data c = Some d"
    "p = phase_of (cc_init k) (qd_closed d)" using assms(2) by (rule in_phaseE)
  then have "c' = c \<and> p = Off \<or> (\<exists>c1. release os c1 = (Ret st, c') \<and> (c1 = c \<or> (\<exists>r. ossl_quic_disconnect lib os cb fuel c = (Ret r, c1))))"
    using assms(3) by (auto simp: ossl_quic_deinit_def chain_Ret_iff split: if_splits)
  then show ?thesis using assms(2) disconnect_phase [OF assms(1,2)] by (blast intro: release_phase)
qed

lemma process_phase:
  assumes "tunnel_user cb" and "in_phase p c" and "ossl_quic_process_events lib os cb fuel c = (Ret st, c')"
  shows "\<exists>q. phase_step KProcess p q \<and> in_phase q c'"
proof -
  obtain d where d: "c_data c = Some d" using assms(2) by (rule in_phaseE)
  obtain b d1 t where r: "record_close_status lib d (snd (SSL_handle_events lib (qd_conn d) (c_trace c))) = (b, d1, t)"
    by (metis prod.exhaust)
  then have "qd_closed d1 = qd_closed d" by (auto dest!: record_close_later simp: later_status_def)
  with assms(2) d have ph: "in_phase p (c\<lparr>c_data := Some d1, c_trace := t\<rparr>)" by (simp add: in_phase_def)
  have "in_phase p c' \<or> ossl_quic_disconnect lib os cb fuel (c\<lparr>c_data := Some d1, c_trace := t\<rparr>) = (Ret st, c')"
    using assms(2,3) d r ph by (auto simp: ossl_quic_process_events_def on_trace_eq Let_def split: if_splits)
  with disconnect_phase [OF assms(1) ph] have "in_phase p c' \<or> in_phase (if p = Off then Off else Ended) c'" by blast
  then show ?thesis by (cases p) (auto simp: phase_step_simps)
qed

lemma stream_phase:
  assumes "tunnel_user cb" and "in_phase p c"
  shows "ossl_quic_udp_send lib cb buf n c = (Ret r, c') \<Longrightarrow> in_phase p c'"
    and "ossl_quic_udp_recv lib cb m nb rn c = (Ret r', c') \<Longrightarrow> in_phase p c'"
  using assms
  by (auto simp: ossl_quic_udp_send_def ossl_quic_udp_recv_def on_trace_eq chain_Ret_iff Let_def
      dest!: callback_phase [OF assms(1), rotated] split: option.splits if_splits)

lemma other_phase:
  assumes "in_phase p c"
  shows "ossl_quic_get_timeout lib tv c = (Ret r, c') \<Longrightarrow> in_phase p c'"
    and "ossl_quic_hole_punching os fuel c = (Ret st, c') \<Longrightarrow> in_phase p c'"
    and "ossl_quic_udp_send_ka c = (Ret st, c') \<Longrightarrow> in_phase p c'"
    and "ossl_quic_pending_data lib c = (Ret n, c') \<Longrightarrow> in_phase p c'"
  using assms
  by (auto simp: ossl_quic_get_timeout_def ossl_quic_hole_punching_def ossl_quic_udp_send_ka_def ossl_quic_pending_data_def
      with_data_def on_trace_eq Let_def split: option.splits if_splits)

lemma drop_result_Ret: "drop_result r = (Ret u, c') \<longleftrightarrow> (\<exists>v. r = (Ret v, c'))"
  by (cases r; cases "fst r") (auto simp: drop_result_def)

lemma call_phase:
  assumes "tunnel_user cb" and "in_phase p c" and "api_step (ossl_quic_api lib os cb fuel) k c = (Ret u, c')"
  shows "\<exists>q. phase_step k p q \<and> in_phase q c'"
proof -
  have stay: "\<exists>q. phase_step k p q \<and> in_phase q c'" if "in_phase p c'" "k \<noteq> KDeinit" "k \<noteq> KDisconnect"
    using that by (auto simp: phase_step_simps)
  show ?thesis
  proof (cases k)
    case KDisconnect
    with assms disconnect_phase [OF assms(1,2), of lib os fuel] show ?thesis
      by (cases p) (auto simp: ossl_quic_api_def udp_conn_disconnect_def drop_result_Ret phase_step_simps)
  next
    case KDeinit
    with assms deinit_phase [OF assms(1,2), of lib os fuel] show ?thesis
      by (auto simp: ossl_quic_api_def udp_conn_deinit_def drop_result_Ret phase_step_simps)
  qed (use assms stay other_phase [OF assms(2)] stream_phase [OF assms(1,2)] init_phase [OF assms(2)]
      connect_phase [OF assms(1,2)] process_phase [OF assms(1,2)] in
      \<open>auto simp: ossl_quic_api_def udp_conn_init_def udp_conn_send_def udp_conn_recv_def drop_result_Ret\<close>)
qed

section \<open>Runs\<close>


definition tunnelled_conn :: "unit quic_conn" where
  "tunnelled_conn = (open_quic_conn (Some 0))\<lparr>c_tcp := Some \<lparr>ts_socket_fd = 4, ts_accepted_sock = 5, ts_reuse = 1,
     ts_local = zero_addr\<rparr>\<rparr>"


end
