(* ===== verification/Ossl_Quic_Tunnel.thy ===== *)
theory Ossl_Quic_Tunnel
  imports Ossl_Quic_Session
begin

text \<open>
  The tunnel program over QUIC, \<open>tests/WebRTC/test_openssl_quic\<close>, from its command line to its exit
  status.
\<close>

section \<open>The program\<close>

definition quic_tunnel_callback :: "unit quic_callback" where
  "quic_tunnel_callback reason data_in conn = (Ret (), conn)"

text \<open>The end of \<open>main\<close>: the connection is released first, then both statuses are judged.\<close>

definition quic_tunnel_finish ::
    "(ossl_quic_config, ossl_quic_data, unit) udp_conn_api \<Rightarrow> udp_conn_status \<Rightarrow> (unit, int) quic_op" where
  "quic_tunnel_finish api status conn =
     chain (udp_conn_deinit api conn) (\<lambda>cleanup_status c1.
       (Ret (if status \<noteq> UDP_CONN_OK \<or> cleanup_status \<noteq> UDP_CONN_OK then 1 else 0), c1))"

definition quic_tunnel_program ::
    "ssl_lib \<Rightarrow> os \<Rightarrow> (byte list \<Rightarrow> 32 word) \<Rightarrow> int \<Rightarrow> nat \<Rightarrow> byte list \<Rightarrow> byte list list
       \<Rightarrow> int outcome \<times> unit quic_conn" where
  "quic_tunnel_program lib os inet_addr last_errno fuel buf argv =
     (let api = ossl_quic_api lib os quic_tunnel_callback fuel
      in program True os inet_addr (run_session os api last_errno fuel buf (quic_tunnel_finish api)) argv
           (quic_globals (Some \<lparr>ts_socket_fd = 0, ts_accepted_sock = 0, ts_reuse = 0, ts_local = zero_addr\<rparr>) ()))"

section \<open>Its run\<close>

interpretation quic_tunnel: quic_user quic_tunnel_callback exact for exact
  by unfold_locales (simp add: quic_tunnel_callback_def)

interpretation quic_tunnel_app: udp_backend "ossl_quic_api lib os quic_tunnel_callback fuel" "quic_fresh exact" "quic_inv exact"
  for lib os fuel exact
  by (rule quic_backend [OF quic_tunnel.quic_user_axioms])

lemma quic_api_deinit: "udp_conn_deinit (ossl_quic_api lib os cb fuel) = ossl_quic_deinit lib os cb fuel"
  by (simp add: fun_eq_iff udp_conn_deinit_def ossl_quic_api_def)

lemma tunnel_session:
  assumes "quic_fresh True c" and "length buf = TCP_MTU_SIZE"
    and "\<And>tr fd n. os_accept os tr fd = Inr n \<Longrightarrow> int n < FD_SETSIZE"
    and "run_session os (ossl_quic_api lib os quic_tunnel_callback fuel) e fuel buf
      (quic_tunnel_finish (ossl_quic_api lib os quic_tunnel_callback fuel)) c = (r, c')"
  shows "r \<noteq> Fault \<and> uses_ok (c_trace c') \<and> (r = Ret 0 \<longrightarrow> in_use (c_trace c') = {})"
proof -
  let ?api = "ossl_quic_api lib os quic_tunnel_callback fuel"
  have finish: "keeps (quic_inv True) (quic_tunnel_finish ?api st c2)" if "quic_inv True c2" for st c2
    using that by (auto simp: quic_tunnel_finish_def quic_api_deinit quic_tunnel.quic_deinit_keeps intro!: keeps_chain)
  have keeps: "keeps (quic_inv True) (r, c')"
    unfolding assms(4) [symmetric]
    by (rule quic_tunnel_app.run_session_keeps)
       (use quic_init_fresh [OF assms(1), of lib os] assms(2,3) finish in \<open>simp_all add: quic_api_init\<close>)
  have "in_use (c_trace c') = {}" if "r = Ret 0"
  proof -
    note success = assms(4) [unfolded that]
    obtain c1 st c2 where run: "ossl_quic_init lib os c = (Ret UDP_CONN_OK, c1)"
      "udp_connection os ?api e fuel buf c1 = (Ret st, c2)" "quic_tunnel_finish ?api st c2 = (Ret 0, c')"
      using success [unfolded run_session_Ret quic_api_init] by blast
    have "keeps (quic_inv True) (Ret st, c2)"
      unfolding run(2) [symmetric] using quic_init_fresh(2) [OF assms(1) run(1)] assms(2,3)
      by (rule quic_tunnel_app.udp_connection_keeps)
    then have inv: "quic_inv True c2" by simp
    have "ossl_quic_deinit lib os quic_tunnel_callback fuel c2 = (Ret UDP_CONN_OK, c')"
      using run(3) by (auto simp: quic_tunnel_finish_def quic_api_deinit chain_Ret_iff split: if_splits)
    with inv show ?thesis by (rule quic_tunnel.deinit_in_use [OF _ TrueI])
  qed
  with keeps show ?thesis by (auto simp: quic_inv_def owns_def sane_def keeps_def)
qed

end
