(* ===== verification/Ossl_Quic_Link.thy ===== *)
theory Ossl_Quic_Link
  imports Ossl_Quic_Phase Ossl_Quic_Tunnel Tunnel_Streams "HOL-Library.Sublist"
begin

text \<open>
  The streams of a QUIC tunnel, read off its trace: what it read from its TCP peer and gave to OpenSSL,
  what OpenSSL gave it and what it wrote to its TCP peer.  One tunnel passes both on unchanged; two
  tunnels, whose OpenSSL carries the stream of one to the other, connect their TCP peers.
\<close>

section \<open>The streams\<close>

fun ssl_writes :: "trace \<Rightarrow> byte list" where
  "ssl_writes [] = []"
| "ssl_writes (EvSsl (Ssl_write_ex p bs (Some n)) # tr) = ssl_writes tr @ take n bs"
| "ssl_writes (_ # tr) = ssl_writes tr"

fun ssl_reads :: "trace \<Rightarrow> byte list" where
  "ssl_reads [] = []"
| "ssl_reads (EvSsl (Ssl_read_ex p n (Some bs)) # tr) = ssl_reads tr @ bs"
| "ssl_reads (_ # tr) = ssl_reads tr"

definition streams :: "trace \<Rightarrow> byte list list \<times> byte list \<times> byte list \<times> byte list" where
  "streams tr = (tcp_reads tr, ssl_writes tr, ssl_reads tr, tcp_writes tr)"

lemma streams_Nil [simp]: "streams [] = ([], [], [], [])"
  by (simp add: streams_def)

lemma streams_calls [simp]:
  "streams (snd (sys_setsockopt os fd opt t)) = streams t" "streams (snd (sys_bind os fd a t)) = streams t"
  "streams (snd (sys_listen os fd n t)) = streams t" "streams (snd (sys_accept os fd t)) = streams t"
  "streams (snd (sys_connect os fd a t)) = streams t" "streams (snd (sys_close os fd t)) = streams t"
  "streams (snd (sys_sendto os fd g a dw t)) = streams t" "streams (snd (sys_clock os t)) = streams t"
  "streams (msleep m t) = streams t" "streams (snd (sys_select_rw os nfds rd wr tv t)) = streams t"
  by (simp_all add: streams_def sys_defs Let_def)

lemma streams_recv3 [simp]: "streams (snd (sys_recv os fd 3 dw t)) = streams t"
  by (cases "os_recv os t fd dw") (simp_all add: streams_def sys_defs Let_def)

lemma streams_ssl [simp]:
  "streams (snd (SSL_CTX_new lib srv t)) = streams t" "streams (snd (SSL_CTX_set lib p x t)) = streams t"
  "streams (SSL_CTX_free p t) = streams t" "streams (SSL_free p t) = streams t"
  "streams (snd (SSL_new lib p t)) = streams t" "streams (snd (SSL_new_listener lib p t)) = streams t"
  "streams (snd (SSL_set_fd lib p fd t)) = streams t" "streams (SSL_set_connect_state p t) = streams t"
  "streams (snd (SSL_listen lib p t)) = streams t" "streams (snd (SSL_set_blocking_mode lib p b t)) = streams t"
  "streams (snd (SSL_connect lib p t)) = streams t" "streams (snd (SSL_accept_connection lib p t)) = streams t"
  "streams (snd (SSL_handle_events lib p t)) = streams t" "streams (snd (SSL_shutdown lib p t)) = streams t"
  "streams (snd (SSL_get_error lib p n t)) = streams t" "streams (snd (SSL_get_conn_close_info lib p t)) = streams t"
  "streams (snd (SSL_get_event_timeout lib p t)) = streams t" "streams (snd (SSL_net_write_desired lib p t)) = streams t"
  "streams (snd (SSL_pending lib p t)) = streams t"
  by (simp_all add: streams_def ssl_defs Let_def split: option.split)

lemma streams_events [simp]:
  "streams (EvCallback r bs # t) = streams t" "streams (EvClock x # t) = streams t" "streams (EvSocket y # t) = streams t"
  "streams (EvSelect n fds tv z # t) = streams t"
  by (simp_all add: streams_def)

section \<open>Steps that leave the streams alone\<close>

lemma punch_streams: "streams (snd (punch os m fd dst fuel t)) = streams t"
proof -
  have "trace_ext punch_event t (snd (punch os m fd dst fuel t))" by (simp add: punch_events)
  then show ?thesis
  proof (induction rule: trace_ext_induct)
    case (step e u)
    then show ?case
    proof (cases e)
      case (EvRecv fd cap dw r)
      with step show ?thesis by (cases r) (auto simp: streams_def)
    qed (auto simp: streams_def)
  qed simp
qed

lemma record_streams:
  "streams (snd (snd (record_close_status lib d t))) = streams t"
  "qd_closed (fst (snd (record_close_status lib d t))) = qd_closed d"
  by (simp_all add: record_close_status_def case_prod_beta split: option.split)

lemma clock_streams [simp]: "streams (snd (quic_monotonic_ms os t)) = streams t"
  by (auto simp: quic_monotonic_ms_def case_prod_beta split: option.split)

lemma failed_streams [simp]: "streams (snd (shutdown_failed lib p r t)) = streams t"
  by (simp add: shutdown_failed_def case_prod_beta)

lemma select_streams [simp]: "streams (snd (shutdown_select lib os fd p tv t)) = streams t"
  by (simp add: shutdown_select_def case_prod_beta split: sum.split)

lemma wait_streams [simp]: "streams (snd (shutdown_wait_step lib os fd dl p t)) = streams t"
  by (simp add: shutdown_wait_step_def case_prod_beta split: option.split)

lemma shutdown_iter_streams:
  "streams (snd (snd (shutdown_iter lib os fd dl d t))) = streams t"
  by (simp add: shutdown_iter_def record_streams case_prod_beta Let_def)

lemma shutdown_loop_streams:
  "streams (snd (snd (shutdown_loop lib os fd dl fuel d t))) = streams t"
  by (induction fuel arbitrary: d t)
     (auto simp: case_prod_beta shutdown_iter_streams split: option.split)

text \<open>Of a step: the streams are the same, and a tunnel stays one.\<close>

definition same :: "'a quic_conn \<Rightarrow> 'a quic_conn \<Rightarrow> bool" where
  "same c c' \<longleftrightarrow> streams (c_trace c') = streams (c_trace c) \<and> (c_tcp c' = None \<longleftrightarrow> c_tcp c = None)"

lemma same_refl [simp]: "same c c"
  by (simp add: same_def)

lemma same_trans: "same a b \<Longrightarrow> same b c \<Longrightarrow> same a c"
  by (simp add: same_def)

lemma same_chain:
  assumes "same c (snd r)" and "\<And>a s. r = (Ret a, s) \<Longrightarrow> same c s \<Longrightarrow> same s (snd (k a s))"
  shows "same c (snd (chain r k))"
  using assms by (cases "(r, k)" rule: chain.cases) (auto intro: same_trans)

lemma same_frame [simp]:
  "same c (c\<lparr>c_trace := t\<rparr>) \<longleftrightarrow> streams t = streams (c_trace c)"
  "same c (c\<lparr>c_trace := t, c_tcp := Some ts\<rparr>) \<longleftrightarrow> streams t = streams (c_trace c) \<and> c_tcp c \<noteq> None"
  "same c (c'\<lparr>c_data := x\<rparr>) \<longleftrightarrow> same c c'" "same c (upd_data f c') \<longleftrightarrow> same c c'" "same c (c'\<lparr>c_ctrl := k\<rparr>) \<longleftrightarrow> same c c'"
  "same c (c\<lparr>c_data := x, c_trace := t\<rparr>) \<longleftrightarrow> streams t = streams (c_trace c)"
  "same (c\<lparr>c_data := x\<rparr>) c' \<longleftrightarrow> same c c'"
  by (auto simp: same_def upd_data_def)

lemma tcp_bind_same: "same c (snd (tcp_bind os e c))"
  by (auto simp: tcp_bind_def tcp_bind_client_def tcp_bind_server_def tcp_bind_close_def on_trace_eq Let_def
      split: option.split sum.split)

lemma hole_punching_same: "same c (snd (ossl_quic_hole_punching os fuel c))"
  by (auto simp: ossl_quic_hole_punching_def on_trace_eq punch_streams split: option.split)

lemma callback_same:
  assumes "tunnel_user cb" and "c_tcp c \<noteq> None"
  shows "same c (snd (run_callback cb r bs c))" and "c_data (snd (run_callback cb r bs c)) = c_data c"
proof -
  let ?c = "c\<lparr>c_trace := EvCallback r bs # c_trace c\<rparr>"
  obtain a where "cb r bs ?c = (Ret (), ?c\<lparr>c_app := a\<rparr>)" using assms unfolding tunnel_user_def by fastforce
  then show "same c (snd (run_callback cb r bs c))" "c_data (snd (run_callback cb r bs c)) = c_data c"
    by (simp_all add: run_callback_def same_def)
qed

lemma pre_connect_same: "same c (snd (ossl_quic_pre_connect lib os c))"
  by (auto simp: ossl_quic_pre_connect_def pre_connect_client_def pre_connect_server_def on_trace_eq same_def Let_def
      split: option.split)

lemma handshake_same: "same c (snd (handshake lib m c))"
  by (auto simp: handshake_def with_data_def on_trace_eq same_def split: option.split)

lemma finish_connect_same:
  assumes "tunnel_user cb" and "c_tcp c \<noteq> None"
  shows "same c (snd (finish_connect lib cb c))"
proof -
  have "same c (snd (chain (run_callback cb r bs (c\<lparr>c_trace := t\<rparr>)) (\<lambda>_ c2. (Ret st, upd_data f c2))))"
    if "streams t = streams (c_trace c)" for r bs t f and st :: udp_conn_status
    by (rule same_chain [OF same_trans [OF _ callback_same(1) [OF assms(1)]]]) (use that assms(2) in simp_all)
  then show ?thesis by (auto simp: finish_connect_def with_data_def on_trace_eq Let_def split: option.split)
qed

lemma connect_same:
  assumes "tunnel_user cb" and "c_tcp c \<noteq> None"
  shows "same c (snd (ossl_quic_connect lib os cb c))"
proof -
  have finish: "same c2 (snd (if ok then finish_connect lib cb c2 else (Ret UDP_CONN_ERR, c2)))" if "c_tcp c2 \<noteq> None" for ok c2
    using finish_connect_same [OF assms(1) that] by simp
  have "same c1 (snd (chain (handshake lib m c1) (\<lambda>ok c2. if ok then finish_connect lib cb c2 else (Ret UDP_CONN_ERR, c2))))"
    if "c_tcp c1 \<noteq> None" for c1 m
    by (rule same_chain [OF handshake_same], rule finish) (use that in \<open>simp add: same_def\<close>)
  then have "same c (snd (chain (ossl_quic_pre_connect lib os c) (\<lambda>_ c1.
      chain (handshake lib m c1) (\<lambda>ok c2. if ok then finish_connect lib cb c2 else (Ret UDP_CONN_ERR, c2)))))" for m
    by (rule same_chain [OF pre_connect_same]) (use assms(2) in \<open>simp add: same_def\<close>)
  then show ?thesis by (simp add: ossl_quic_connect_def split: option.split)
qed

lemma timeout_same: "same c (snd (ossl_quic_get_timeout lib tv c))"
  by (auto simp: ossl_quic_get_timeout_def on_trace_eq split: option.split)

lemma pending_same: "same c (snd (ossl_quic_pending_data lib c))"
  by (auto simp: ossl_quic_pending_data_def with_data_def on_trace_eq split: option.split)

lemma keep_alive_same: "same c (snd (ossl_quic_udp_send_ka c))"
  by (auto simp: ossl_quic_udp_send_ka_def split: option.split)

lemma finish_shutdown_same: "same c (snd (finish_shutdown lib os fuel us c))"
  by (auto simp: finish_shutdown_def with_data_def on_trace_eq case_prod_beta same_def shutdown_loop_streams Let_def
      split: option.split)

lemma disconnect_same:
  assumes "tunnel_user cb" and "c_tcp c \<noteq> None"
  shows "same c (snd (ossl_quic_disconnect lib os cb fuel c))"
proof -
  have "same c1 (snd (chain (run_callback cb r bs (upd_data f c1)) (\<lambda>_. with_data (\<lambda>d c3. (Ret (g d), c3)))))"
    if "same c c1" for c1 r bs f and g :: "ossl_quic_data \<Rightarrow> udp_conn_status"
    by (rule same_chain [OF same_trans [OF _ callback_same(1) [OF assms(1)]]])
       (use that assms(2) in \<open>auto simp: same_def upd_data_def with_data_def split: option.split\<close>)
  then have "same c (snd (chain (if b then finish_shutdown lib os fuel us c else (Ret st, c)) (\<lambda>st c1.
      let c2 = upd_data (f st) c1 in chain (run_callback cb r bs c2) (\<lambda>_. with_data (\<lambda>d c3. (Ret (g d), c3))))))"
    for b us st f r bs and g :: "ossl_quic_data \<Rightarrow> udp_conn_status"
    by (intro same_chain) (auto simp: Let_def finish_shutdown_same)
  then show ?thesis by (auto simp: ossl_quic_disconnect_def split: option.split)
qed

lemma process_same:
  assumes "tunnel_user cb" and "c_tcp c \<noteq> None"
  shows "same c (snd (ossl_quic_process_events lib os cb fuel c))"
proof -
  have "same c (snd (ossl_quic_disconnect lib os cb fuel (c\<lparr>c_data := x, c_trace := t\<rparr>)))"
    if "streams t = streams (c_trace c)" for x t
    by (rule same_trans [OF _ disconnect_same [OF assms(1)]]) (use that assms(2) in simp_all)
  then show ?thesis
    by (auto simp: ossl_quic_process_events_def on_trace_eq record_streams case_prod_beta Let_def split: option.split)
qed

section \<open>The tunnel's invariant\<close>

text \<open>
  \<open>carries\<close>: everything read was passed on; \<open>carried\<close>: what was passed on is the beginning of what was
  read.  The first holds while the session is live, the second always.
\<close>

definition carries :: "trace \<Rightarrow> bool" where
  "carries tr \<longleftrightarrow> ssl_writes tr = concat (tcp_reads tr) \<and> tcp_writes tr = ssl_reads tr"

definition carried :: "trace \<Rightarrow> bool" where
  "carried tr \<longleftrightarrow> prefix (ssl_writes tr) (concat (tcp_reads tr)) \<and> prefix (tcp_writes tr) (ssl_reads tr)"

lemma carries_carried: "carries tr \<Longrightarrow> carried tr"
  by (simp add: carries_def carried_def)

lemma carries_same: "streams t = streams tr \<Longrightarrow> carries t = carries tr" "streams t = streams tr \<Longrightarrow> carried t = carried tr"
  by (simp_all add: streams_def carries_def carried_def)

definition link_inv :: "bool \<Rightarrow> 'a quic_conn \<Rightarrow> bool" where
  "link_inv x c \<longleftrightarrow> quic_inv x c \<and> carried (c_trace c) \<and> (in_phase Live c \<and> carries (c_trace c) \<or> in_phase Ended c)"

definition link_pre :: "bool \<Rightarrow> 'a quic_conn \<Rightarrow> bool" where
  "link_pre x c \<longleftrightarrow> quic_fresh x c \<and> in_phase Live c \<and> carries (c_trace c)"

abbreviation (input) link_weak :: "'a quic_conn \<Rightarrow> bool" where
  "link_weak c \<equiv> carried (c_trace c)"

lemma link_facts:
  assumes "link_inv x c"
  obtains p where "quic_inv x c" "in_phase p c" "p \<noteq> Off" "c_tcp c \<noteq> None" "carried (c_trace c)"
    "p = Live \<longrightarrow> carries (c_trace c)" "p = Live \<or> p = Ended"
  using assms by (auto simp: link_inv_def in_phase_def)

lemma link_pre_inv: "link_pre x c \<Longrightarrow> link_inv x c"
  by (simp add: link_pre_def link_inv_def quic_fresh_def carries_carried)

lemma link_inv_weak: "link_inv x c \<Longrightarrow> carried (c_trace c)"
  by (simp add: link_inv_def)

text \<open>A step that leaves the streams alone, and lets a session live or ends it.\<close>

lemma link_step:
  assumes "link_inv x c" and "same c (snd r)" and "quic_inv x c \<Longrightarrow> keeps (quic_inv x) r"
    and "\<And>v c' p. r = (Ret v, c') \<Longrightarrow> in_phase p c \<Longrightarrow> p \<noteq> Off \<Longrightarrow> in_phase p c' \<or> in_phase Ended c'"
  shows "leaves (link_inv x) link_weak r"
proof -
  obtain p where p: "quic_inv x c" "in_phase p c" "p \<noteq> Off" "carried (c_trace c)" "p = Live \<longrightarrow> carries (c_trace c)"
    "p = Live \<or> p = Ended" using assms(1) by (rule link_facts)
  have "streams (c_trace (snd r)) = streams (c_trace c)" using assms(2) by (simp add: same_def)
  note eq = carries_same [OF this]
  show ?thesis
  proof (rule leavesI)
    show "fst r \<noteq> Fault" and weak: "carried (c_trace (snd r))" using assms(3) [OF p(1)] p(4) eq by (simp_all add: keeps_def)
    fix v c'
    assume r: "r = (Ret v, c')"
    then have "quic_inv x c'" "carried (c_trace c')" using assms(3) [OF p(1)] weak by simp_all
    moreover have "carries (c_trace c')" if "p = Live" using p(5) that eq r by simp
    ultimately show "link_inv x c'" using assms(4) [OF r p(2,3)] p(6) by (auto simp: link_inv_def)
  qed
qed

text \<open>Hanging up ends the session, whatever was not passed on.\<close>

lemma hang_up:
  assumes "quic_user cb x" and "tunnel_user cb" and "quic_inv x c" and "in_phase p c" and "p \<noteq> Off" and "carried (c_trace c)"
  shows "leaves (link_inv x) link_weak (ossl_quic_disconnect lib os cb fuel c)"
proof -
  let ?r = "ossl_quic_disconnect lib os cb fuel c"
  have "c_tcp c \<noteq> None" using assms(4) by (auto simp: in_phase_def)
  then have "same c (snd ?r)" by (rule disconnect_same [OF assms(2)])
  then have "streams (c_trace (snd ?r)) = streams (c_trace c)" by (simp add: same_def)
  then have weak: "carried (c_trace (snd ?r))" using assms(6) carries_same(2) by blast
  have keeps: "keeps (quic_inv x) ?r" using assms(1,3) by (rule quic_user.quic_disconnect_keeps)
  show ?thesis
  proof (rule leavesI)
    show "fst ?r \<noteq> Fault" using keeps by (simp add: keeps_def)
    fix st c'
    assume r: "?r = (Ret st, c')"
    then have "in_phase Ended c'" using disconnect_phase [OF assms(2,4) r] assms(5) by simp
    with keeps weak r show "link_inv x c'" by (simp add: link_inv_def)
  qed (rule weak)
qed

section \<open>Passing bytes on\<close>

text \<open>
  OpenSSL takes a write as a whole or fails, which is what \<open>SSL_write_ex\<close> does unless partial writes
  are enabled.
\<close>

definition whole_writes :: "ssl_lib \<Rightarrow> bool" where
  "whole_writes lib \<longleftrightarrow> (\<forall>tr p bs n. lib_write_ex lib tr p bs = Some n \<longrightarrow> length bs \<le> n)"

text \<open>The user of a QUIC tunnel.\<close>

locale quic_link_user = quic_user cb exact for cb :: "'a quic_callback" and exact +
  assumes is_tunnel_user: "tunnel_user cb"
begin

lemma told:
  assumes "quic_inv exact c" and "in_phase p c"
  obtains c' where "run_callback cb r bs c = (Ret (), c')" and "quic_inv exact c'" and "in_phase p c'"
    and "streams (c_trace c') = streams (c_trace c)"
proof -
  let ?c = "c\<lparr>c_trace := EvCallback r bs # c_trace c\<rparr>"
  have tcp: "c_tcp c \<noteq> None" using assms(2) by (auto simp: in_phase_def)
  then obtain a where "cb r bs ?c = (Ret (), ?c\<lparr>c_app := a\<rparr>)" using is_tunnel_user unfolding tunnel_user_def by fastforce
  moreover have "c_callback c" using assms(1) by (simp add: quic_inv_def quic_frame_def)
  ultimately have run: "run_callback cb r bs c = (Ret (), ?c\<lparr>c_app := a\<rparr>)" by (simp add: run_callback_def)
  show ?thesis
  proof (rule that [OF run])
    show "quic_inv exact (?c\<lparr>c_app := a\<rparr>)" using quic_run_callback_keeps [OF assms(1), of r bs] run by simp
    show "in_phase p (?c\<lparr>c_app := a\<rparr>)" using assms(2) by simp
  qed simp
qed

lemma stream_calls_inv:
  assumes "quic_inv exact c" and "c_data c = Some d"
  shows "quic_inv exact (c\<lparr>c_trace := snd (SSL_write_ex lib (qd_conn d) bs (c_trace c))\<rparr>)"
    and "quic_inv exact (c\<lparr>c_trace := snd (SSL_read_ex lib (qd_conn d) n (c_trace c))\<rparr>)"
  using assms(1) by (rule quic_invE, use assms(2) in \<open>auto intro: quic_inv_trace\<close>)+

lemma send_live:
  assumes "quic_inv exact c" and "in_phase Live c" and "carries tr" and "bs \<noteq> []"
    and "c_trace c = EvRecv fd 1024 dw (Inr (bs, longer)) # tr" and "whole_writes lib"
  obtains st n c' where "ossl_quic_udp_send lib cb bs None c = (Ret (st, n), c')" and "quic_inv exact c'"
    and "in_phase Live c'" and "carried (c_trace c')" and "is_err st \<or> carries (c_trace c')"
proof -
  obtain us k d where c: "c_udp c = Some us" "c_ctrl c = Some k" "c_data c = Some d" "cc_init k \<noteq> 0" "qd_closed d = 0"
    using assms(2) by (auto elim!: in_phaseE)
  obtain r t where r: "SSL_write_ex lib (qd_conn d) bs (c_trace c) = (r, t)" by fastforce
  let ?c = "c\<lparr>c_trace := t\<rparr>"
  have inv: "quic_inv exact ?c" "in_phase Live ?c" using stream_calls_inv(1) [OF assms(1) c(3), where lib = lib and bs = bs] r assms(2) by simp_all
  show ?thesis
  proof (cases "lib_write_ex lib (c_trace c) (qd_conn d) bs")
    case None
    then have "r = None" "t = EvSsl (Ssl_write_ex (qd_conn d) bs None) # c_trace c" using r by (simp_all add: ssl_defs Let_def)
    with c r inv assms(3-5) show ?thesis
      by (intro that [of UDP_CONN_ERR None ?c]) (simp_all add: ossl_quic_udp_send_def on_trace_eq carried_def carries_def)
  next
    case (Some n)
    then have sent: "r = Some (length bs)" "t = EvSsl (Ssl_write_ex (qd_conn d) bs (Some (length bs))) # c_trace c"
      using r assms(6) Some by (auto simp: ssl_defs Let_def min_def whole_writes_def)
    have "carries t" using assms(3-5) by (simp add: sent(2) carries_def)
    obtain c' where c': "run_callback cb OSSL_QUIC_UDP_DATA_SENT bs ?c = (Ret (), c')" "quic_inv exact c'"
      "in_phase Live c'" "streams (c_trace c') = streams (c_trace ?c)" by (rule told [OF inv])
    have "carries (c_trace c')" using carries_same(1) [OF c'(4)] \<open>carries t\<close> by simp
    then show ?thesis
      using c r sent(1) c'(1-3)
      by (intro that [of UDP_CONN_OK None c']) (simp_all add: ossl_quic_udp_send_def on_trace_eq carries_carried)
  qed
qed

lemma tcp_recv_live:
  assumes "quic_inv exact c" and "in_phase Live c" and "carries (c_trace c)" and "whole_writes lib"
  obtains st c' where "tcp_recv os (ossl_quic_api lib os' cb fuel) c = (Ret st, c')" and "quic_inv exact c'"
    and "in_phase Live c'" and "carried (c_trace c')" and "is_err st \<or> carries (c_trace c')"
proof -
  let ?api = "ossl_quic_api lib os' cb fuel"
  obtain us ts k d where c: "c_udp c = Some us" "c_tcp c = Some ts" "c_ctrl c = Some k" "c_data c = Some d"
    "cc_init k \<noteq> 0" "qd_closed d = 0" using assms(2) by (auto elim!: in_phaseE)
  let ?fd = "ts_accepted_sock ts"
  obtain r t where r: "sys_recv os ?fd 1024 False (c_trace c) = (r, t)" by fastforce
  let ?c = "c\<lparr>c_trace := t\<rparr>"
  have "sys_ext (c_trace c) (snd (sys_recv os ?fd 1024 False (c_trace c)))" by simp
  then have inv: "quic_inv exact ?c" "in_phase Live ?c" using quic_inv_ext [OF assms(1)] r assms(2) by simp_all
  have run: "tcp_recv os ?api c = (case r of Inl e \<Rightarrow> (Ret UDP_CONN_ERR, ?c)
      | Inr bs \<Rightarrow> (if bs = [] then (Ret UDP_CONN_ERR, ?c)
                  else chain (ossl_quic_udp_send lib cb bs None ?c) (\<lambda>(st, _) c2. (Ret st, c2))))"
    using c r by (simp add: tcp_recv_def ossl_quic_api_def ossl_quic_is_closed_def on_trace_eq split: sum.split)
  show ?thesis
  proof (cases "os_recv os (c_trace c) ?fd False")
    case (Inl e)
    then have "r = Inl e" "carries t" using r assms(3) by (auto simp: sys_defs Let_def carries_def)
    with run inv show ?thesis by (intro that [of UDP_CONN_ERR ?c]) (simp_all add: carries_carried)
  next
    case (Inr bs)
    then have t: "r = Inr (take 1024 bs)" "t = EvRecv ?fd 1024 False (Inr (take 1024 bs, 1024 < length bs)) # c_trace c"
      using r by (auto simp: sys_defs Let_def)
    show ?thesis
    proof (cases "take 1024 bs = []")
      case True
      then have "carries t" using t(2) assms(3) by (auto simp: carries_def)
      with run t(1) True inv show ?thesis by (intro that [of UDP_CONN_ERR ?c]) (simp_all add: carries_carried)
    next
      case False
      obtain st n c' where "ossl_quic_udp_send lib cb (take 1024 bs) None ?c = (Ret (st, n), c')" "quic_inv exact c'"
        "in_phase Live c'" "carried (c_trace c')" "is_err st \<or> carries (c_trace c')"
        by (rule send_live [OF inv assms(3) False _ assms(4), of ?fd False "1024 < length bs"]) (use t(2) in simp)
      with run t(1) False show ?thesis by (intro that [of st c']) simp_all
    qed
  qed
qed

lemma api_ops:
  "api_disconnect (ossl_quic_api lib os cb fuel) = ossl_quic_disconnect lib os cb fuel"
  "api_is_closed (ossl_quic_api lib os cb fuel) = ossl_quic_is_closed"
  "api_udp_recv (ossl_quic_api lib os cb fuel) = ossl_quic_udp_recv lib cb"
  "api_get_timeout (ossl_quic_api lib os cb fuel) = ossl_quic_get_timeout lib"
  "api_process_events (ossl_quic_api lib os cb fuel) = Some (ossl_quic_process_events lib os cb fuel)"
  "api_pending_data (ossl_quic_api lib os cb fuel) = Some (ossl_quic_pending_data lib)"
  "api_hole_punching (ossl_quic_api lib os cb fuel) = ossl_quic_hole_punching os fuel"
  "api_connect (ossl_quic_api lib os cb fuel) = ossl_quic_connect lib os cb"
  "api_udp_send_ka (ossl_quic_api lib os cb fuel) = ossl_quic_udp_send_ka"
  by (simp_all add: ossl_quic_api_def)

lemmas hang_up_link = hang_up [OF quic_user_axioms is_tunnel_user]

lemma tcp_ready_link:
  assumes "link_inv exact c" and "whole_writes lib"
  shows "leaves (link_inv exact) link_weak (on_tcp_ready os (ossl_quic_api lib os' cb fuel) fd c)"
proof -
  obtain p where p: "quic_inv exact c" "in_phase p c" "p \<noteq> Off" "carried (c_trace c)" "p = Live \<longrightarrow> carries (c_trace c)"
    "p = Live \<or> p = Ended" using assms(1) by (rule link_facts)
  let ?api = "ossl_quic_api lib os' cb fuel"
  have after: "leaves (link_inv exact) link_weak (chain (tcp_recv os ?api c) (\<lambda>st c1.
      if is_err st then chain (api_disconnect ?api c1) (\<lambda>_ c2. (Ret (), c2)) else (Ret (), c1)))"
  proof (cases "p = Live")
    case True
    with p(2,5) have live: "in_phase Live c" "carries (c_trace c)" by simp_all
    obtain st c' where c': "tcp_recv os ?api c = (Ret st, c')" "quic_inv exact c'" "in_phase Live c'"
      "carried (c_trace c')" "is_err st \<or> carries (c_trace c')" by (rule tcp_recv_live [OF p(1) live assms(2)])
    have "leaves (link_inv exact) link_weak (ossl_quic_disconnect lib os' cb fuel c')"
      by (rule hang_up_link [OF c'(2,3) _ c'(4)]) simp
    with c' show ?thesis by (auto simp: link_inv_def api_ops)
  next
    case False
    then have ended: "in_phase Ended c" using p(2,6) by simp
    then have "tcp_recv os ?api c = (Ret UDP_CONN_CLOSED, c)"
      by (auto simp: tcp_recv_def api_ops ossl_quic_is_closed_def elim!: in_phaseE)
    moreover have "leaves (link_inv exact) link_weak (ossl_quic_disconnect lib os' cb fuel c)"
      by (rule hang_up_link [OF p(1) ended _ p(4)]) simp
    ultimately show ?thesis by (auto simp: api_ops)
  qed
  then show ?thesis using assms(1) by (simp add: on_tcp_ready_def)
qed

text \<open>Writing to the TCP peer what was just read from the session.\<close>

lemma sends_streams:
  assumes "trace_ext (\<lambda>e. \<exists>bs r. e = EvSend fd bs r) tr t"
  shows "tcp_reads t = tcp_reads tr \<and> ssl_writes t = ssl_writes tr \<and> ssl_reads t = ssl_reads tr"
  using assms by (induction rule: trace_ext_induct) auto

lemma pass_on:
  assumes "quic_inv exact c" and "in_phase Live c" and "ssl_writes (c_trace c) = concat (tcp_reads (c_trace c))"
    and "ssl_reads (c_trace c) = tcp_writes (c_trace c) @ bs"
  shows "leaves (link_inv exact) link_weak (chain (tcp_send os n bs c) (\<lambda>st c'.
     if is_err st then disconnect_return (ossl_quic_api lib os' cb fuel) st b c' else (Ret (dl, b), c')))"
proof -
  obtain ts where ts: "c_tcp c = Some ts" using assms(2) by (rule in_phaseE)
  obtain r t where r: "tcp_send_loop os (ts_accepted_sock ts) n bs (c_trace c) = (r, t)" by fastforce
  let ?c = "c\<lparr>c_trace := t\<rparr>"
  obtain k where k: "tcp_writes t = tcp_writes (c_trace c) @ take k bs" "r = Ret UDP_CONN_OK \<longrightarrow> length bs \<le> k"
    "r \<noteq> Fault" "\<forall>st. r = Ret st \<longrightarrow> st = UDP_CONN_OK \<or> st = UDP_CONN_ERR"
    using tcp_send_loop_writes [OF r] by blast
  have sends: "trace_ext (\<lambda>e. \<exists>bs r. e = EvSend (ts_accepted_sock ts) bs r) (c_trace c) t"
    using tcp_send_loop_sends [of "ts_accepted_sock ts" "c_trace c" "c_trace c" os n bs] r by simp
  have "sys_ext (c_trace c) (snd (tcp_send_loop os (ts_accepted_sock ts) n bs (c_trace c)))" by simp
  then have inv: "quic_inv exact ?c" "in_phase Live ?c" using quic_inv_ext [OF assms(1)] r assms(2) by simp_all
  have weak: "carried t"
    using sends_streams [OF sends] assms(3,4) k(1) by (simp add: carried_def take_is_prefix)
  have full: "carries t" if "r = Ret UDP_CONN_OK"
    using sends_streams [OF sends] assms(3,4) k(1,2) that by (simp add: carries_def)
  have "leaves (link_inv exact) link_weak (disconnect_return (ossl_quic_api lib os' cb fuel) st b ?c)" for st
    unfolding disconnect_return_def api_ops
    by (rule leaves_chain [OF hang_up_link [OF inv]]) (use weak in simp_all)
  with r k(3,4) weak full inv show ?thesis
    by (cases r) (auto simp: tcp_send_def ts on_trace_eq link_inv_def)
qed

lemma deliver_live:
  assumes "quic_inv exact c" and "in_phase Live c" and "carries (c_trace c)" and "length buf = TCP_MTU_SIZE"
  shows "leaves (link_inv exact) link_weak (deliver os (ossl_quic_api lib os' cb fuel) n buf c)"
proof -
  let ?api = "ossl_quic_api lib os' cb fuel"
  obtain us k d where c: "c_udp c = Some us" "c_tcp c \<noteq> None" "c_ctrl c = Some k" "c_data c = Some d" "cc_init k \<noteq> 0" "qd_closed d = 0"
    using assms(2) by (auto elim!: in_phaseE)
  obtain r t where r: "SSL_read_ex lib (qd_conn d) 1024 (c_trace c) = (r, t)" by fastforce
  let ?c = "c\<lparr>c_trace := t\<rparr>"
  have inv: "quic_inv exact ?c" "in_phase Live ?c" using stream_calls_inv(2) [OF assms(1) c(4), where lib = lib and n = 1024] r assms(2) by simp_all
  have opened: "\<not> closed ?api c'" if "in_phase Live c'" for c'
    using that by (auto simp: closed_def api_ops ossl_quic_is_closed_def elim!: in_phaseE)
  have got: "deliver os ?api n buf c = chain (tcp_send os n (take m b) c') (\<lambda>st c2.
       if is_err st then disconnect_return ?api st b c2 else (Ret (Delivered m, b), c2))"
    if "ossl_quic_udp_recv lib cb (Some buf) 1024 (Some 0) c = (Ret (UDP_CONN_OK, Some b, Some m), c')"
      and "in_phase Live c'" and "m \<le> length b" for b m c'
    using that opened [OF that(2)] by (simp add: deliver_def api_ops Let_def cong: if_cong)
  show ?thesis
  proof (cases "lib_read_ex lib (c_trace c) (qd_conn d) 1024")
    case (Some bs0)
    define bs where "bs = take 1024 bs0"
    have t: "r = Some bs" "t = EvSsl (Ssl_read_ex (qd_conn d) 1024 (Some bs)) # c_trace c" "length bs \<le> length buf"
      using r Some assms(4) by (auto simp: ssl_defs Let_def bs_def)
    obtain c' where c': "run_callback cb OSSL_QUIC_UDP_RECV_DATA bs ?c = (Ret (), c')" "quic_inv exact c'"
      "in_phase Live c'" "streams (c_trace c') = streams (c_trace ?c)" by (rule told [OF inv])
    have "ossl_quic_udp_recv lib cb (Some buf) 1024 (Some 0) c = (Ret (UDP_CONN_OK, Some (overwrite buf bs), Some (length bs)), c')"
      using c r t c'(1) by (simp add: ossl_quic_udp_recv_def on_trace_eq)
    from got [OF this c'(3)] t(3) pass_on [OF c'(2,3), of bs] c'(4) assms(3) t(2) show ?thesis
      by (simp add: streams_def carries_def overwrite_length_ge)
  next
    case None
    then have t: "r = None" "carries t" using r assms(3) by (auto simp: ssl_defs Let_def carries_def)
    obtain e t2 where e: "SSL_get_error lib (qd_conn d) 0 t = (e, t2)" by fastforce
    let ?c2 = "c\<lparr>c_trace := t2\<rparr>"
    have t2: "carries t2" using streams_ssl(15) [of lib "qd_conn d" 0 t] e t(2) carries_same(1) [of t2 t] by simp
    let ?st = "if e = SSL_ERROR_WANT_READ \<or> e = SSL_ERROR_WANT_WRITE then UDP_CONN_OK else UDP_CONN_ERR"
    have run: "ossl_quic_udp_recv lib cb (Some buf) 1024 (Some 0) c = (Ret (?st, Some buf, Some 0), ?c2)"
      using c r t(1) e by (simp add: ossl_quic_udp_recv_def on_trace_eq)
    have inv2: "quic_inv exact ?c2" "in_phase Live ?c2"
      using quic_udp_recv_keeps [OF assms(1), of 1024 buf lib "Some 0"] run assms(2,4) by simp_all
    show ?thesis
    proof (cases "?st = UDP_CONN_OK")
      case True
      then have "deliver os ?api n buf c = chain (tcp_send os n [] ?c2) (\<lambda>st c2.
          if is_err st then disconnect_return ?api st buf c2 else (Ret (Delivered 0, buf), c2))"
        using got [of buf 0 ?c2] run inv2(2) by simp
      with pass_on [OF inv2, of "[]"] t2 show ?thesis by (simp add: carries_def)
    next
      case False
      then have "deliver os ?api n buf c = disconnect_return ?api UDP_CONN_ERR buf ?c2"
        using run opened [OF inv2(2)] by (auto simp: deliver_def api_ops split: if_splits)
      moreover have "leaves (link_inv exact) link_weak (disconnect_return ?api UDP_CONN_ERR buf ?c2)"
        unfolding disconnect_return_def api_ops
        by (rule leaves_chain [OF hang_up_link [OF inv2]]) (use t2 in \<open>simp_all add: carries_carried\<close>)
      ultimately show ?thesis by simp
    qed
  qed
qed

lemma deliver_link:
  assumes "link_inv exact c" and "length buf = TCP_MTU_SIZE"
  shows "leaves (link_inv exact) link_weak (deliver os (ossl_quic_api lib os' cb fuel) n buf c)"
proof -
  obtain p where p: "quic_inv exact c" "in_phase p c" "p = Live \<longrightarrow> carries (c_trace c)" "p = Live \<or> p = Ended"
    using assms(1) by (rule link_facts)
  show ?thesis
  proof (cases "p = Live")
    case True
    with p(2,3) have live: "in_phase Live c" "carries (c_trace c)" by simp_all
    show ?thesis by (rule deliver_live [OF p(1) live assms(2)])
  next
    case False
    with p(2,4) have "ossl_quic_udp_recv lib cb (Some buf) 1024 (Some 0) c = (Ret (UDP_CONN_CLOSED, Some buf, Some 0), c)"
      "closed (ossl_quic_api lib os' cb fuel) c"
      by (auto simp: ossl_quic_udp_recv_def closed_def api_ops ossl_quic_is_closed_def elim!: in_phaseE)
    with assms(1) show ?thesis by (simp add: deliver_def api_ops)
  qed
qed

lemma wait_streams_ext: "trace_ext wait_event tr t \<Longrightarrow> streams t = streams tr"
  by (induction rule: trace_ext_induct) (auto simp: wait_event_def is_EvClock_def is_EvSelect_def)

lemma link_trace:
  "link_inv exact c \<Longrightarrow> sys_ext (c_trace c) t \<Longrightarrow> streams t = streams (c_trace c) \<Longrightarrow> link_inv exact (c\<lparr>c_trace := t\<rparr>)"
  using carries_same [of t "c_trace c"] by (auto simp: link_inv_def quic_inv_ext)

lemma link_reads: "link_inv exact c \<Longrightarrow> link_inv exact (set_read_fds fds c)"
  by (auto simp: link_inv_def quic_inv_reads set_read_fds_def in_phase_def split: option.split)

lemma bind_link:
  fixes c :: "'a quic_conn"
  assumes "link_pre exact c" and "\<And>tr fd n. os_accept os tr fd = Inr n \<Longrightarrow> int n < FD_SETSIZE"
  shows "leaves (link_pre exact) link_weak (tcp_bind os e c)"
proof (rule leavesI)
  have "quic_fresh exact c" using assms(1) by (simp add: link_pre_def)
  then have keeps: "keeps (quic_fresh exact) (tcp_bind os e c)"
    by (rule udp_backend.keeps_tcp_bind [OF quic_backend [OF quic_user_axioms]]) (rule assms(2))
  have same: "streams (c_trace (snd (tcp_bind os e c))) = streams (c_trace c)"
    using tcp_bind_same [of c os e] by (simp add: same_def)
  show "fst (tcp_bind os e c) \<noteq> Fault" using keeps by (simp add: keeps_def)
  show "carried (c_trace (snd (tcp_bind os e c)))"
    using carries_same(2) [OF same] assms(1) by (simp add: link_pre_def carries_carried)
  fix st c'
  assume run: "tcp_bind os e c = (Ret st, c')"
  have "c_udp c' = c_udp c \<and> c_ctrl c' = c_ctrl c \<and> c_data c' = c_data c"
    using run by (auto simp: tcp_bind_def tcp_bind_client_def tcp_bind_server_def tcp_bind_close_def on_trace_eq Let_def
        split: option.splits sum.splits if_splits)
  with run keeps carries_same(1) [OF same] assms(1) tcp_bind_same [of c os e] show "link_pre exact c'"
    by (auto simp: link_pre_def in_phase_def same_def)
qed

text \<open>The operations of the table that leave the streams alone.\<close>

lemma link_steps:
  assumes "link_inv exact c"
  shows "leaves (link_inv exact) link_weak (ossl_quic_get_timeout lib tv c)"
    and "leaves (link_inv exact) link_weak (ossl_quic_process_events lib os cb fuel c)"
    and "leaves (link_inv exact) link_weak (ossl_quic_pending_data lib c)"
    and "leaves (link_inv exact) link_weak (ossl_quic_udp_send_ka c)"
    and "leaves (link_inv exact) link_weak (ossl_quic_disconnect lib os cb fuel c)"
proof -
  have tcp: "c_tcp c \<noteq> None" using assms by (auto simp: link_inv_def in_phase_def)
  show "leaves (link_inv exact) link_weak (ossl_quic_get_timeout lib tv c)"
    by (rule link_step [OF assms timeout_same quic_get_timeout_keeps]) (blast dest: other_phase)+
  show "leaves (link_inv exact) link_weak (ossl_quic_pending_data lib c)"
    by (rule link_step [OF assms pending_same quic_pending_data_keeps]) (blast dest: other_phase)+
  show "leaves (link_inv exact) link_weak (ossl_quic_udp_send_ka c)"
    by (rule link_step [OF assms keep_alive_same quic_send_ka_keeps]) (blast dest: other_phase)+
  show "leaves (link_inv exact) link_weak (ossl_quic_process_events lib os cb fuel c)"
  proof (rule link_step [OF assms process_same [OF is_tunnel_user tcp] quic_process_events_keeps])
    fix st c' p
    assume "ossl_quic_process_events lib os cb fuel c = (Ret st, c')" "in_phase p c" "p \<noteq> Off"
    then show "in_phase p c' \<or> in_phase Ended c'"
      using process_phase [OF is_tunnel_user, of p c lib os fuel st c'] by (auto simp: phase_step_simps)
  qed
  show "leaves (link_inv exact) link_weak (ossl_quic_disconnect lib os cb fuel c)"
  proof (rule link_step [OF assms disconnect_same [OF is_tunnel_user tcp] quic_disconnect_keeps])
    fix st c' p
    assume "ossl_quic_disconnect lib os cb fuel c = (Ret st, c')" "in_phase p c" "p \<noteq> Off"
    then show "in_phase p c' \<or> in_phase Ended c'"
      using disconnect_phase [OF is_tunnel_user, of p c lib os fuel st c'] by simp
  qed
qed

text \<open>Hole punching and connecting, while nothing was passed on yet.\<close>

lemma link_setup:
  assumes "link_pre exact c"
  shows "leaves (link_pre exact) link_weak (ossl_quic_hole_punching os fuel c)"
    and "leaves (link_inv exact) link_weak (ossl_quic_connect lib os cb c)"
proof -
  have c: "quic_fresh exact c" "in_phase Live c" "carries (c_trace c)" "c_tcp c \<noteq> None" "quic_inv exact c"
    "exact \<longrightarrow> unconnected c"
    using assms by (auto simp: link_pre_def quic_fresh_def in_phase_def)
  show "leaves (link_pre exact) link_weak (ossl_quic_hole_punching os fuel c)"
  proof (rule leavesI)
    let ?r = "ossl_quic_hole_punching os fuel c"
    have keeps: "keeps (quic_inv exact) ?r" by (rule quic_hole_punching_keeps [OF c(5)])
    then show "fst ?r \<noteq> Fault" by (simp add: keeps_def)
    have "streams (c_trace (snd ?r)) = streams (c_trace c)" using hole_punching_same [of c os fuel] by (simp add: same_def)
    note eq = carries_same [OF this]
    show "carried (c_trace (snd ?r))" using c(3) eq by (simp add: carries_carried)
    fix st c'
    assume run: "?r = (Ret st, c')"
    then have "in_phase Live c'" using other_phase(2) [OF c(2)] by blast
    moreover have "c_data c' = c_data c" using quic_hole_punching_data [of os fuel c] run by simp
    ultimately show "link_pre exact c'"
      using keeps eq c(3,6) run by (simp add: link_pre_def quic_fresh_def unconnected_def)
  qed
  show "leaves (link_inv exact) link_weak (ossl_quic_connect lib os cb c)"
  proof (rule link_step [OF link_pre_inv [OF assms] connect_same [OF is_tunnel_user c(4)] quic_connect_keeps [OF _ c(6)]])
    fix st c' p
    assume "ossl_quic_connect lib os cb c = (Ret st, c')" "in_phase p c" "p \<noteq> Off"
    then show "in_phase p c' \<or> in_phase Ended c'"
      using connect_phase [OF is_tunnel_user, of p c lib os st c'] c(2) by (auto simp: phase_step_simps in_phase_def)
  qed
qed

lemma link_loop:
  assumes "whole_writes lib"
  shows "connection_loop (ossl_quic_api lib os cb fuel) (link_pre exact) (link_inv exact) link_weak"
proof -
  note backend = quic_backend [OF quic_user_axioms]
  show ?thesis
  proof unfold_locales
    show "link_inv exact c \<Longrightarrow> fds_ok c \<and> c_udp c \<noteq> None" for c :: "'a quic_conn"
      using quic_inv_fds [of exact c] by (auto simp: link_inv_def)
    show "link_inv exact c \<Longrightarrow> trace_ext wait_event (c_trace c) t \<Longrightarrow> link_inv exact (c\<lparr>c_trace := t\<rparr>)"
      for c :: "'a quic_conn" and t by (rule link_trace [OF _ wait_ext_sys wait_streams_ext])
    show "length buf' = TCP_MTU_SIZE"
      if "link_inv exact c" and "length buf = TCP_MTU_SIZE"
        and "deliver os' (ossl_quic_api lib os cb fuel) n buf c = (Ret (dl, buf'), c')" for os' n buf dl buf' c c'
      using udp_backend.keeps_deliver [OF backend, of c buf os' lib os fuel n] that unfolding link_inv_def by blast
  qed (auto simp: api_ops link_steps link_setup tcp_ready_link [OF _ assms] deliver_link bind_link
        intro: link_reads link_inv_weak [OF link_pre_inv] link_inv_weak)
qed

text \<open>A run of the main loop.\<close>

lemma run_link:
  assumes "link_pre exact c" and "whole_writes lib" and "length buf = TCP_MTU_SIZE"
    and "\<And>tr fd n. os_accept os tr fd = Inr n \<Longrightarrow> int n < FD_SETSIZE"
  shows "leaves (link_inv exact) link_weak (udp_connection os (ossl_quic_api lib os cb fuel) e fuel' buf c)"
  by (rule connection_loop.udp_connection_leaves [OF link_loop [OF assms(2)] assms(1) link_pre_inv _ assms(3)])
     (use assms(4) in auto)

end

section \<open>The program\<close>

lemma streams_chain:
  assumes "streams (snd r) = streams t" and "\<And>a s. streams (snd (k a s)) = streams s"
  shows "streams (snd (chain r k)) = streams t"
  using assms by (cases "(r, k)" rule: chain.cases) auto

lemma apply_streams: "streams (snd (apply_tls13_ciphersuites lib os ctx cfg t)) = streams t"
  by (simp add: apply_tls13_ciphersuites_def Let_def case_prod_beta split: option.split outcome.split)

lemma context_streams:
  "streams (snd (client_context lib os cfg ctx t)) = streams t"
  "streams (snd (server_context lib os cfg cert key ctx t)) = streams t"
  by (auto simp: client_context_def server_context_def Let_def case_prod_beta intro!: streams_chain apply_streams [THEN trans])

lemma bind_same: "same c (snd (bind_socket os cfg us k c))"
  by (auto simp: bind_socket_def on_trace_eq same_def upd_data_def split: option.split)

lemma prepare_same:
  assumes "\<And>p t. streams (snd (f p t)) = streams t" and "\<And>c. same c (snd (k c))"
  shows "same c (snd (prepare_context lib srv f d k c))"
proof -
  have "same c (snd (chain (on_trace (f p) (c\<lparr>c_data := x, c_trace := t\<rparr>)) (\<lambda>ok c3. if ok then k c3 else (Ret UDP_CONN_ERR, c3))))"
    if "streams t = streams (c_trace c)" for p x t
    by (rule same_chain) (use that assms in \<open>auto simp: on_trace_eq\<close>)
  then show ?thesis by (auto simp: prepare_context_def on_trace_eq renew_ctx_def Let_def)
qed

lemma init_same: "same c (snd (ossl_quic_init lib os c))"
  by (auto simp: ossl_quic_init_def context_streams bind_same intro!: prepare_same split: option.split)

lemma bind_live:
  assumes "bind_socket os cfg us k c = (Ret UDP_CONN_OK, c')" and "c_udp c \<noteq> None" and "c_tcp c \<noteq> None" and "c_data c \<noteq> None"
  shows "in_phase Live c'"
  using assms by (auto simp: bind_socket_def on_trace_eq upd_data_def in_phase_def split: option.splits)

lemma prepare_live:
  assumes "prepare_context lib srv f d (bind_socket os cfg us k) c = (Ret UDP_CONN_OK, c')" and "c_udp c \<noteq> None" and "c_tcp c \<noteq> None"
  shows "in_phase Live c'"
proof -
  obtain x t where "bind_socket os cfg us k (c\<lparr>c_data := Some x, c_trace := t\<rparr>) = (Ret UDP_CONN_OK, c')"
    using assms(1) by (auto simp: prepare_context_def on_trace_eq Let_def chain_Ret_iff split: if_splits)
  from bind_live [OF this] assms(2,3) show ?thesis by simp
qed

lemma init_live:
  assumes "ossl_quic_init lib os c = (Ret UDP_CONN_OK, c')" and "c_tcp c \<noteq> None"
  shows "in_phase Live c'"
  using assms by (auto simp: ossl_quic_init_def intro: prepare_live split: option.splits if_splits)

lemma close_streams [simp]: "streams (snd (close_fd os fd t)) = streams t"
  by (simp add: close_fd_def)

lemma release_same: "same c (snd (release os c))"
  by (auto simp: release_def with_data_def close_sockets_def free_objects_def same_def Let_def case_prod_beta split: option.split)

lemma deinit_same:
  assumes "tunnel_user cb" and "c_tcp c \<noteq> None"
  shows "same c (snd (ossl_quic_deinit lib os cb fuel c))"
  using disconnect_same [OF assms]
  by (auto simp: ossl_quic_deinit_def release_same intro!: same_chain split: option.split)

interpretation quic_tunnel_link: quic_link_user quic_tunnel_callback exact for exact
  by unfold_locales (auto simp: tunnel_user_def quic_tunnel_callback_def intro: exI [of _ "c_app c" for c])

lemma session_link:
  assumes "quic_fresh True c" and "c_tcp c \<noteq> None" and "carries (c_trace c)" and "whole_writes lib"
    and "length buf = TCP_MTU_SIZE" and "\<And>tr fd n. os_accept os tr fd = Inr n \<Longrightarrow> int n < FD_SETSIZE"
  shows "carried (c_trace (snd (run_session os (ossl_quic_api lib os quic_tunnel_callback fuel) e fuel buf
     (quic_tunnel_finish (ossl_quic_api lib os quic_tunnel_callback fuel)) c)))"
proof -
  let ?api = "ossl_quic_api lib os quic_tunnel_callback fuel"
  have init: "leaves link_weak link_weak (ossl_quic_init lib os c)"
  proof (rule leavesI)
    have "streams (c_trace (snd (ossl_quic_init lib os c))) = streams (c_trace c)"
      using init_same [of c lib os] by (simp add: same_def)
    then show "carried (c_trace (snd (ossl_quic_init lib os c)))"
      using carries_same(2) assms(3) by (blast intro: carries_carried)
    then show "carried (c_trace c1)" if "ossl_quic_init lib os c = (Ret st, c1)" for st c1 using that by simp
  qed (use quic_init_fresh(1) [OF assms(1), of lib os] in \<open>simp add: keeps_def\<close>)
  have finish: "leaves link_weak link_weak (quic_tunnel_finish ?api st c2)" if "link_inv True c2" for st c2
  proof -
    have "quic_inv True c2" "c_tcp c2 \<noteq> None" "carried (c_trace c2)" using that by (auto elim: link_facts)
    note c2 = this
    let ?r = "ossl_quic_deinit lib os quic_tunnel_callback fuel c2"
    have "streams (c_trace (snd ?r)) = streams (c_trace c2)"
      using deinit_same [OF quic_tunnel_link.is_tunnel_user c2(2), of lib os fuel] by (simp add: same_def)
    then have "carried (c_trace (snd ?r))" using carries_same(2) c2(3) by blast
    then have "leaves link_weak link_weak ?r"
      using quic_tunnel.quic_deinit_keeps [OF c2(1), of lib os fuel] by (intro leavesI) (auto simp: keeps_def)
    then show ?thesis unfolding quic_tunnel_finish_def quic_api_deinit by (rule leaves_chain) simp
  qed
  have body: "leaves link_weak link_weak (chain (udp_connection os ?api e fuel buf c1) (quic_tunnel_finish ?api))"
    if "ossl_quic_init lib os c = (Ret UDP_CONN_OK, c1)" for c1
  proof (rule leaves_chain [OF quic_tunnel_link.run_link])
    have "streams (c_trace c1) = streams (c_trace c)" using init_same [of c lib os] that by (simp add: same_def)
    note eq = carries_same(1) [OF this]
    show "link_pre True c1"
      using quic_init_fresh(2) [OF assms(1) that] init_live [OF that assms(2)] eq assms(3) by (simp add: link_pre_def)
  qed (use assms(4-6) finish in blast)+
  have "leaves link_weak link_weak (run_session os ?api e fuel buf (quic_tunnel_finish ?api) c)"
    unfolding run_session_def quic_api_init by (rule leaves_chain [OF init]) (use body in auto)
  then have "keeps link_weak (run_session os ?api e fuel buf (quic_tunnel_finish ?api) c)"
    by (rule leaves_keeps)
  then show ?thesis by (simp add: keeps_def)
qed

lemma program_link:
  assumes "usage True argv \<noteq> Fault" and "small_sockets os" and "whole_writes lib" and "length buf = TCP_MTU_SIZE"
    and "\<forall>tr fd n. os_accept os tr fd = Inr n \<longrightarrow> int n < FD_SETSIZE"
  shows "carried (c_trace (snd (quic_tunnel_program lib os inet_addr e fuel buf argv)))"
proof -
  have sockets: "streams t = ([], [], [], [])" if "trace_ext is_EvSocket [] t" for t
    using that by (induction rule: trace_ext_induct) (auto simp: is_EvSocket_def)
  show ?thesis
    unfolding quic_tunnel_program_def Let_def
  proof (rule quic_program_rule [OF assms(1,2), where P = "\<lambda>r. carried (c_trace (snd r))"])
    show "carried (c_trace (snd (Exited 1, c1)))" if "trace_ext is_EvSocket [] (c_trace c1)" for c1 :: "unit quic_conn"
      using sockets [OF that] by (simp add: streams_def carried_def)
    show "carried (c_trace (snd (run_session os (ossl_quic_api lib os quic_tunnel_callback fuel) e fuel buf
        (quic_tunnel_finish (ossl_quic_api lib os quic_tunnel_callback fuel)) c1)))"
      if "quic_fresh True c1" and "trace_ext is_EvSocket [] (c_trace c1)" and "True \<longrightarrow> c_tcp c1 \<noteq> None" for c1
      using sockets [OF that(2)] that assms(3-5) by (intro session_link) (auto simp: streams_def carries_def)
  qed simp
qed


section \<open>Two tunnels\<close>

text \<open>
  C2. Two tunnel programs over QUIC, from their command lines on: if OpenSSL carries the stream of one to
  the other, so that what the one reads from its session is the beginning of what the other wrote to
  its own, then the bytes one program writes to its TCP peer are the beginning of those the other read
  from its own, in order, without gaps and unchanged.  This holds at every moment of both runs and for
  every behaviour of the two systems, provided that a write to OpenSSL succeeds as a whole or fails.
\<close>

theorem quic_tunnel_stream:
  assumes "usage True argvA \<noteq> Fault" and "small_sockets osA" and "whole_writes libA" and "length bufA = TCP_MTU_SIZE"
    and "\<forall>tr fd n. os_accept osA tr fd = Inr n \<longrightarrow> int n < FD_SETSIZE"
    and "a = c_trace (snd (quic_tunnel_program libA osA inetA eA fuelA bufA argvA))"
    and "usage True argvB \<noteq> Fault" and "small_sockets osB" and "whole_writes libB" and "length bufB = TCP_MTU_SIZE"
    and "\<forall>tr fd n. os_accept osB tr fd = Inr n \<longrightarrow> int n < FD_SETSIZE"
    and "b = c_trace (snd (quic_tunnel_program libB osB inetB eB fuelB bufB argvB))"
    and "prefix (ssl_reads b) (ssl_writes a)"
  shows "prefix (tcp_writes b) (concat (tcp_reads a))"
proof -
  have "prefix (tcp_writes b) (ssl_reads b)" using program_link [OF assms(7-11)] by (simp add: assms(12) carried_def)
  also note assms(13)
  also have "prefix (ssl_writes a) (concat (tcp_reads a))" using program_link [OF assms(1-5)] by (simp add: assms(6) carried_def)
  finally show ?thesis .
qed

text \<open>
  A client whose TCP peer keeps writing three bytes, and a server whose OpenSSL reads these bytes once.
\<close>

definition probing_lib :: ssl_lib where
  "probing_lib = answering_lib\<lparr>lib_read_ex := (\<lambda>tr p n. if count_reads tr = 0 then Some probe else None)\<rparr>"

definition client_args :: "byte list list" where
  "client_args = map ascii [''test_openssl_quic'', ''-c'', ''22'', ''10.0.0.20'']"

definition server_args :: "byte list list" where
  "server_args = map ascii [''test_openssl_quic'', ''-s'', ''22'', ''10.0.0.30'']"

definition tunnel_a :: trace where
  "tunnel_a = c_trace (snd (quic_tunnel_program answering_lib answering_os (\<lambda>host. 7) 0 3 (replicate 1024 0) client_args))"

definition tunnel_b :: trace where
  "tunnel_b = c_trace (snd (quic_tunnel_program probing_lib answering_os (\<lambda>host. 7) 0 3 (replicate 1024 0) server_args))"

lemma demo_tunnels:
  "usage True client_args \<noteq> Fault" "usage True server_args \<noteq> Fault"
  "prefix (ssl_reads tunnel_b) (ssl_writes tunnel_a)" "tcp_writes tunnel_b = probe"
  "ssl_writes tunnel_a \<noteq> []"
  by code_simp+

lemma demo_libs: "whole_writes answering_lib" "whole_writes probing_lib"
  by (simp_all add: whole_writes_def answering_lib_def probing_lib_def)

lemma answering_fds:
  "small_sockets answering_os" "\<forall>tr fd n. os_accept answering_os tr fd = Inr n \<longrightarrow> int n < FD_SETSIZE"
  by (simp_all add: small_sockets_def answering_os_def)


theorem quic_tunnel_stream_witness:
  "prefix (tcp_writes tunnel_b) (concat (tcp_reads tunnel_a)) \<and> tcp_writes tunnel_b = probe"
  using quic_tunnel_stream [OF demo_tunnels(1) answering_fds(1) demo_libs(1) _ answering_fds(2) tunnel_a_def
      demo_tunnels(2) answering_fds(1) demo_libs(2) _ answering_fds(2) tunnel_b_def demo_tunnels(3)] demo_tunnels(4)
  by simp

end
