(* ===== verification/Peer.thy ===== *)
theory Peer
  imports Chownat
begin

text \<open>
  What the stand-alone programs \<open>src/chownat/C/chownat_client.c\<close> and \<open>chownat_server.c\<close> share: the
  numbered store of sent packets, the transmission and retransmission of data, the descriptor set,
  and the static buffers of the control messages.  The wire format is the one of the backend that was
  derived from them; the array bound \<open>size\<close> of each program is an argument.
\<close>

section \<open>State\<close>

text \<open>
  The surroundings of a program: the system, what \<open>select\<close> leaves of its timeout (the system may
  overwrite it), the UDP socket, the address of the other side, and the fuel of loops without bound.
  Both programs store a zero behind a static array of four bytes; \<open>ev_slack\<close> says that the memory
  there is not used by anything else, so that the store has no effect.  Without slack it is undefined
  behaviour, as the C standard has it.
\<close>

record env =
  ev_os :: os
  ev_left :: "trace \<Rightarrow> timeval"
  ev_slack :: bool
  ev_fd :: int
  ev_dst :: sockaddr_in
  ev_fuel :: nat

record peer =
  pr_buffer :: "byte list list"
  pr_sizes :: "nat list"
  pr_id :: int
  pr_expected :: int
  pr_sock :: int
  pr_fds :: "int list"
  pr_bye :: "byte list"
  pr_hello :: "byte list"
  pr_trace :: trace

type_synonym ('x, 'r) peer_op = "'x peer_scheme \<Rightarrow> 'r outcome \<times> 'x peer_scheme"

definition on_sys :: "(trace \<Rightarrow> 'r \<times> trace) \<Rightarrow> 'x peer_scheme \<Rightarrow> 'r \<times> 'x peer_scheme" where
  "on_sys f c = (let (r, t) = f (pr_trace c) in (r, c\<lparr>pr_trace := t\<rparr>))"

lemma on_sys_eq: "on_sys f c = (fst (f (pr_trace c)), c\<lparr>pr_trace := snd (f (pr_trace c))\<rparr>)"
  by (simp add: on_sys_def split_beta)

section \<open>Shared steps\<close>

definition to_remote :: "env \<Rightarrow> byte list \<Rightarrow> 'x peer_scheme \<Rightarrow> (errno + nat) \<times> 'x peer_scheme" where
  "to_remote e bs = on_sys (sys_sendto (ev_os e) (ev_fd e) bs (ev_dst e) False)"

definition close_sock :: "env \<Rightarrow> 'x peer_scheme \<Rightarrow> 'x peer_scheme" where
  "close_sock e c = (snd (on_sys (sys_close (ev_os e) (pr_sock c)) c))\<lparr>pr_sock := -1\<rparr>"

text \<open>\<open>FD_ZERO\<close> and \<open>FD_SET\<close> of both sockets, the TCP socket only if there is one.\<close>

definition watch :: "env \<Rightarrow> ('x, unit) peer_op" where
  "watch e c =
     (let fds = ev_fd e # (if pr_sock c \<noteq> -1 then [pr_sock c] else [])
      in if list_all fd_set_ok fds then (Ret (), c\<lparr>pr_fds := fds\<rparr>) else (Fault, c))"

definition wait_ready :: "env \<Rightarrow> timeval \<Rightarrow> 'x peer_scheme \<Rightarrow> (errno + int list) \<times> 'x peer_scheme" where
  "wait_ready e tv c = on_sys (sys_select (ev_os e) (max (ev_fd e) (pr_sock c) + 1) (pr_fds c) (Some tv)) c"

text \<open>
  The bytes \<open>read\<close> from TCP are stored under the current number and sent in a data packet; both arrays
  hold \<open>sz\<close> bytes, and the packet needs three more than the bytes read.
\<close>

definition send_data :: "nat \<Rightarrow> (int \<Rightarrow> int) \<Rightarrow> env \<Rightarrow> byte list \<Rightarrow> ('x, unit) peer_op" where
  "send_data sz nxt e bs c =
     (if pr_id c < 0 \<or> int (length (pr_buffer c)) \<le> pr_id c \<or> sz < 3 + length bs then (Fault, c)
      else let i = nat (pr_id c);
               c1 = c\<lparr>pr_buffer := (pr_buffer c)[i := overwrite (pr_buffer c ! i) bs],
                      pr_sizes := (pr_sizes c)[i := length bs], pr_id := nxt (pr_id c)\<rparr>
           in (Ret (), snd (to_remote e (data_packet (word_of_int (pr_id c)) bs) c1)))"

text \<open>
  The answer to a request: \<open>for (uint8_t i = got; i < id; i++)\<close>, each stored packet with all of its
  bytes, built in an array of \<open>cap\<close> bytes.
\<close>

fun resend :: "nat \<Rightarrow> env \<Rightarrow> nat \<Rightarrow> byte \<Rightarrow> ('x, unit) peer_op" where
  "resend cap e 0 i c = (NoFuel, c)"
| "resend cap e (Suc fuel) i c =
     (if \<not> uint i < pr_id c then (Ret (), c)
      else if length (pr_sizes c) \<le> unat i \<or> length (pr_buffer c) \<le> unat i \<or>
              cap < 3 + pr_sizes c ! unat i then (Fault, c)
      else resend cap e fuel (i + 1)
             (snd (to_remote e (data_packet i (take (pr_sizes c ! unat i) (pr_buffer c ! unat i))) c)))"

text \<open>
  \<open>recv\<close> of three bytes into a static array, which keeps its bytes from call to call; a failing
  \<open>recv\<close> is not noticed.
\<close>

definition recv_bye :: "env \<Rightarrow> 'x peer_scheme \<Rightarrow> 'x peer_scheme" where
  "recv_bye e c =
     (case on_sys (sys_recv (ev_os e) (ev_fd e) 3 False) c of
        (Inl err, c1) \<Rightarrow> c1
      | (Inr bs, c1) \<Rightarrow> c1\<lparr>pr_bye := overwrite (pr_bye c1) bs\<rparr>)"

definition recv_hello :: "env \<Rightarrow> ('x, unit) peer_op" where
  "recv_hello e c =
     (let c1 = (case on_sys (sys_recv (ev_os e) (ev_fd e) 3 False) c of
                  (Inl err, c1) \<Rightarrow> c1
                | (Inr bs, c1) \<Rightarrow> c1\<lparr>pr_hello := overwrite (pr_hello c1) bs\<rparr>)
      in if ev_slack e then (Ret (), c1) else (Fault, c1))"

section \<open>The static memory at the start\<close>

definition fresh_peer :: "nat \<Rightarrow> trace \<Rightarrow> peer" where
  "fresh_peer sz tr = \<lparr>pr_buffer = replicate 256 (replicate sz 0), pr_sizes = replicate 256 0, pr_id = 0,
     pr_expected = 0, pr_sock = -1, pr_fds = [], pr_bye = replicate 3 0, pr_hello = replicate 4 0, pr_trace = tr\<rparr>"

section \<open>Well-formed state\<close>

text \<open>
  The arrays have their bounds, every stored packet fits the array it is sent from, the number fits
  one byte, and the TCP descriptor fits a descriptor set and is not the UDP socket \<open>fd\<close>.
\<close>

definition peer_wf :: "nat \<Rightarrow> int \<Rightarrow> 'x peer_scheme \<Rightarrow> bool" where
  "peer_wf sz fd c \<longleftrightarrow> length (pr_buffer c) = 256 \<and> length (pr_sizes c) = 256 \<and>
     (\<forall>n \<in> set (pr_sizes c). 3 + n \<le> sz) \<and> 0 \<le> pr_id c \<and> pr_id c < 256 \<and> -1 \<le> pr_sock c \<and> pr_sock c < FD_SETSIZE \<and>
     pr_sock c \<noteq> fd \<and> 0 \<le> fd"

lemma peer_wf_fresh: "3 \<le> sz \<Longrightarrow> 0 \<le> fd \<Longrightarrow> peer_wf sz fd (fresh_peer sz tr)"
  by (simp add: peer_wf_def fresh_peer_def)

lemma peer_wf_sock:
  "peer_wf sz fd c \<Longrightarrow> 0 \<le> s \<Longrightarrow> s < FD_SETSIZE \<Longrightarrow> s \<noteq> fd \<Longrightarrow> peer_wf sz fd (c\<lparr>pr_sock := s\<rparr>)"
  by (simp add: peer_wf_def)

lemma peer_wf_frame [simp]:
  "peer_wf sz fd (c\<lparr>pr_trace := t\<rparr>) = peer_wf sz fd c" "peer_wf sz fd (c\<lparr>pr_fds := f\<rparr>) = peer_wf sz fd c"
  "peer_wf sz fd (c\<lparr>pr_bye := b\<rparr>) = peer_wf sz fd c" "peer_wf sz fd (c\<lparr>pr_hello := b\<rparr>) = peer_wf sz fd c"
  "peer_wf sz fd (c\<lparr>pr_expected := n\<rparr>) = peer_wf sz fd c"
  by (simp_all add: peer_wf_def)

lemma to_remote_eq: "to_remote e bs c =
    (fst (sys_sendto (ev_os e) (ev_fd e) bs (ev_dst e) False (pr_trace c)),
     c\<lparr>pr_trace := snd (sys_sendto (ev_os e) (ev_fd e) bs (ev_dst e) False (pr_trace c))\<rparr>)"
  by (simp add: to_remote_def on_sys_eq)

lemma peer_wf_steps [simp]:
  "peer_wf sz fd c \<Longrightarrow> peer_wf sz fd (snd (to_remote e bs c))" "peer_wf sz fd c \<Longrightarrow> peer_wf sz fd (snd (on_sys f c))"
  "peer_wf sz fd c \<Longrightarrow> peer_wf sz fd (snd (wait_ready e tv c))" "peer_wf sz fd c \<Longrightarrow> peer_wf sz fd (recv_bye e c)"
  "peer_wf sz fd c \<Longrightarrow> peer_wf sz fd (c\<lparr>pr_id := 0\<rparr>)" "peer_wf sz fd c \<Longrightarrow> peer_wf sz fd (close_sock e c)"
  by (auto simp: to_remote_eq on_sys_eq wait_ready_def recv_bye_def split: sum.split)
     (simp_all add: peer_wf_def close_sock_def on_sys_eq)

lemma watch_keeps:
  "peer_wf sz fd c \<Longrightarrow> fd_set_ok (ev_fd e) \<Longrightarrow> keeps (peer_wf sz fd) (watch e c)"
  by (auto simp: watch_def Let_def) (auto simp: peer_wf_def fd_set_ok_def)

lemma recv_hello_keeps: "peer_wf sz fd c \<Longrightarrow> ev_slack e \<Longrightarrow> keeps (peer_wf sz fd) (recv_hello e c)"
  by (simp add: recv_hello_def on_sys_eq Let_def split: sum.split)

lemma send_data_keeps:
  assumes "peer_wf sz fd c" and "3 + length bs \<le> sz" and "\<And>n. 0 \<le> n \<Longrightarrow> n < 256 \<Longrightarrow> 0 \<le> nxt n \<and> nxt n < 256"
  shows "keeps (peer_wf sz fd) (send_data sz nxt e bs c)"
proof -
  have "\<forall>n \<in> set ((pr_sizes c)[i := length bs]). 3 + n \<le> sz" for i
    using assms(1,2) by (intro set_update_le) (auto simp: peer_wf_def)
  then show ?thesis using assms by (auto simp: send_data_def Let_def to_remote_eq peer_wf_def)
qed

lemma resend_keeps:
  assumes "sz \<le> cap"
  shows "peer_wf sz fd c \<Longrightarrow> keeps (peer_wf sz fd) (resend cap e fuel i c)"
proof (induction fuel arbitrary: i c)
  case (Suc fuel)
  have i: "unat i < 256" using unsigned_less [of i] by simp
  then have le: "3 + pr_sizes c ! unat i \<le> sz" using Suc.prems by (simp add: peer_wf_def)
  have "length (pr_buffer c) = 256" "length (pr_sizes c) = 256" using Suc.prems by (simp_all add: peer_wf_def)
  with Suc i le assms show ?case by simp
qed simp

text \<open>
  What the rest needs: nothing is read from TCP that does not fit a packet, reading TCP does not fail,
  and new descriptors, those after the first \<open>socket\<close>, fit a descriptor set and are new.
\<close>

definition tcp_fits :: "nat \<Rightarrow> env \<Rightarrow> bool" where
  "tcp_fits sz e \<longleftrightarrow> fd_set_ok (ev_fd e) \<and> ev_slack e \<and>
     (\<forall>tr fd. fd \<noteq> ev_fd e \<longrightarrow> (\<exists>bs. os_recv (ev_os e) tr fd False = Inr bs \<and> 3 + length bs \<le> sz)) \<and>
     (\<forall>tr n. tr \<noteq> [] \<longrightarrow> os_socket (ev_os e) tr = Inr n \<longrightarrow> int n < FD_SETSIZE \<and> int n \<noteq> ev_fd e) \<and>
     (\<forall>tr fd n. os_accept (ev_os e) tr fd = Inr n \<longrightarrow> int n < FD_SETSIZE \<and> int n \<noteq> ev_fd e)"

lemma tcp_fitsE:
  assumes "tcp_fits sz e" and "fd \<noteq> ev_fd e"
  obtains bs where "fst (sys_recv (ev_os e) fd sz False tr) = Inr bs" "3 + length bs \<le> sz"
proof -
  from assms obtain bs where "os_recv (ev_os e) tr fd False = Inr bs" "3 + length bs \<le> sz"
    unfolding tcp_fits_def by blast
  then show thesis by (intro that [of bs]) (simp_all add: sys_defs Let_def)
qed

end
