(* ===== verification/Peer_Client.thy ===== *)
theory Peer_Client
  imports Peer
begin

text \<open>
  The stand-alone client \<open>src/chownat/C/chownat_client.c\<close>: it accepts local TCP connections one after
  the other, connects to the other side for each of them, and passes data in both directions until
  one side closes.  Addresses and ports are numbers; their byte order is not modelled.
\<close>

abbreviation (input) client_size :: nat where "client_size \<equiv> 4096"

record client = peer +
  cl_closed :: bool

type_synonym 'r client_op = "client \<Rightarrow> 'r outcome \<times> client"

section \<open>Connecting and disconnecting\<close>

fun client_connect :: "env \<Rightarrow> nat \<Rightarrow> unit client_op" where
  "client_connect e 0 c = (NoFuel, c)"
| "client_connect e (Suc fuel) c =
     chain (recv_hello e (snd (to_remote e msg01 c))) (\<lambda>_ c1.
       if strcmp_eq (pr_hello c1) (msg03 @ [0]) then (Ret (), snd (to_remote e msg03 c1))
       else client_connect e fuel c1)"

fun client_await_bye :: "env \<Rightarrow> nat \<Rightarrow> unit client_op" where
  "client_await_bye e 0 c = (NoFuel, c)"
| "client_await_bye e (Suc fuel) c =
     (let c1 = recv_bye e c
      in if strncmp_eq 3 (pr_bye c1) (msg02 @ [0]) then (Ret (), snd (to_remote e msg02 c1))
         else client_await_bye e fuel c1)"

definition client_disconnect :: "env \<Rightarrow> unit client_op" where
  "client_disconnect e c = client_await_bye e (ev_fuel e) (snd (to_remote e msg02 c))"

text \<open>A session ends: the numbering is reset, the other side told, the TCP connection closed.\<close>

definition client_end :: "env \<Rightarrow> unit client_op" where
  "client_end e c =
     chain (client_disconnect e (c\<lparr>pr_id := 0, pr_expected := 0\<rparr>)) (\<lambda>_ c1.
       (Ret (), (close_sock e c1)\<lparr>cl_closed := True\<rparr>))"

section \<open>A session\<close>

text \<open>
  The TCP connection is readable.  A failing \<open>read\<close> returns -1, which \<open>memcpy\<close> takes for a size.
\<close>

definition client_tcp :: "env \<Rightarrow> unit client_op" where
  "client_tcp e c =
     (case on_sys (sys_recv (ev_os e) (pr_sock c) client_size False) c of
        (Inl err, c1) \<Rightarrow> (Fault, c1)
      | (Inr bs, c1) \<Rightarrow>
          (if bs = [] then client_end e c1 else send_data client_size next_seq e bs c1))"

text \<open>The number after a delivered packet.\<close>

definition client_next_expected :: "int \<Rightarrow> int" where
  "client_next_expected n = (if n + 1 = 255 then 0 else n + 1)"

definition client_data :: "env \<Rightarrow> byte list \<Rightarrow> unit client_op" where
  "client_data e msg c =
     (if msg ! 2 \<noteq> word_of_int (pr_expected c)
      then (Ret (), snd (to_remote e (request_packet (word_of_int (pr_expected c))) c))
      else case on_sys (sys_send (ev_os e) (pr_sock c) (drop 3 msg)) c of
             (Inl err, c1) \<Rightarrow> (Exited (errno_code err), c1)
           | (Inr n, c1) \<Rightarrow> (Ret (), c1\<lparr>pr_expected := client_next_expected (pr_expected c1)\<rparr>))"

text \<open>A datagram; the descriptor set is rebuilt only where the code jumps to the next \<open>select\<close>.\<close>

definition client_packet :: "env \<Rightarrow> byte list \<Rightarrow> unit client_op" where
  "client_packet e msg c =
     (if length msg < 3 then watch e c
      else if strncmp_eq 3 msg (msg02 @ [0]) then client_end e c
      else if strncmp_eq 3 msg (msg03 @ [0]) then watch e c
      else if strncmp_eq 2 msg (msg08 @ [0]) then resend client_size e (ev_fuel e) (msg ! 2) c
      else if strncmp_eq 2 msg (msg09 @ [0]) then client_data e msg c
      else (Ret (), c))"

definition client_udp :: "env \<Rightarrow> unit client_op" where
  "client_udp e c =
     (case on_sys (sys_recv (ev_os e) (ev_fd e) (client_size - 3) False) c of
        (Inl err, c1) \<Rightarrow> (Exited (errno_code err), c1)
      | (Inr msg, c1) \<Rightarrow> client_packet e msg c1)"

definition client_step :: "env \<Rightarrow> unit client_op" where
  "client_step e c =
     (if pr_sock c \<noteq> -1 \<and> pr_sock c \<in> set (pr_fds c) then client_tcp e c
      else if ev_fd e \<in> set (pr_fds c) then client_udp e c
      else (Ret (), c))"

text \<open>The inner loop: until \<open>select\<close> times out, with whatever timeout and set it left.\<close>

fun client_select :: "env \<Rightarrow> nat \<Rightarrow> timeval \<Rightarrow> unit client_op" where
  "client_select e 0 tv c = (NoFuel, c)"
| "client_select e (Suc fuel) tv c =
     (case wait_ready e tv c of
        (Inl err, c1) \<Rightarrow> (Exited (errno_code err), c1)
      | (Inr ready, c1) \<Rightarrow>
          (if ready = [] then (Ret (), c1)
           else chain (client_step e (c1\<lparr>pr_fds := ready\<rparr>)) (\<lambda>_ c2.
                  client_select e fuel (ev_left e (pr_trace c1)) c2)))"

text \<open>A round of the session: one millisecond of waiting, then the keep-alive, an empty datagram.\<close>

definition client_round :: "env \<Rightarrow> unit client_op" where
  "client_round e c =
     chain (watch e c) (\<lambda>_ c1.
       chain (client_select e (ev_fuel e) \<lparr>tv_sec = 0, tv_usec = 1000\<rparr> c1) (\<lambda>_ c2.
         case to_remote e [] c2 of
           (Inl err, c3) \<Rightarrow> (Exited (errno_code err), c3)
         | (Inr n, c3) \<Rightarrow> (Ret (), c3)))"

fun client_session :: "env \<Rightarrow> nat \<Rightarrow> unit client_op" where
  "client_session e 0 c = (NoFuel, c)"
| "client_session e (Suc fuel) c =
     (if cl_closed c then (Ret (), c)
      else chain (client_round e c) (\<lambda>_ c1. client_session e fuel c1))"

section \<open>The program\<close>

text \<open>The local listening socket; every failure ends the program.\<close>

definition client_bind :: "os \<Rightarrow> sockaddr_in \<Rightarrow> trace \<Rightarrow> int outcome \<times> trace" where
  "client_bind os local tr =
     (case sys_socket os tr of
        (Inl e, tr1) \<Rightarrow> (Exited 1, tr1)
      | (Inr waitcli, tr1) \<Rightarrow>
          (case sys_setsockopt os waitcli (SO_REUSEADDR 1) tr1 of
             (Some e, tr2) \<Rightarrow> (Exited 1, snd (sys_close os waitcli tr2))
           | (None, tr2) \<Rightarrow>
               (case sys_bind os waitcli local tr2 of
                  (Some e, tr3) \<Rightarrow> (Exited 1, snd (sys_close os waitcli tr3))
                | (None, tr3) \<Rightarrow>
                    (case sys_listen os waitcli 20 tr3 of
                       (Some e, tr4) \<Rightarrow> (Exited 1, snd (sys_close os waitcli tr4))
                     | (None, tr4) \<Rightarrow> (Ret waitcli, tr4)))))"

fun client_accept :: "env \<Rightarrow> int \<Rightarrow> nat \<Rightarrow> unit client_op" where
  "client_accept e waitcli 0 c = (NoFuel, c)"
| "client_accept e waitcli (Suc fuel) c =
     (case on_sys (sys_accept (ev_os e) waitcli) c of
        (Inl err, c1) \<Rightarrow> (Ret (), c1)
      | (Inr sock, c1) \<Rightarrow>
          chain (client_connect e (ev_fuel e) (c1\<lparr>pr_sock := sock\<rparr>)) (\<lambda>_ c2.
            chain (client_session e (ev_fuel e) (c2\<lparr>cl_closed := False, pr_id := 0, pr_expected := 0\<rparr>)) (\<lambda>_ c3.
              client_accept e waitcli fuel c3)))"

definition client_env :: "os \<Rightarrow> (trace \<Rightarrow> timeval) \<Rightarrow> bool \<Rightarrow> nat \<Rightarrow> int \<Rightarrow> env" where
  "client_env os left slack fuel fd = \<lparr>ev_os = os, ev_left = left, ev_slack = slack, ev_fd = fd,
     ev_dst = \<lparr>sin_family = AF_INET, sin_addr = 0x0A00001E, sin_port = 2222\<rparr>, ev_fuel = fuel\<rparr>"

definition fresh_client :: "trace \<Rightarrow> client" where
  "fresh_client tr = peer.extend (fresh_peer client_size tr) \<lparr>cl_closed = False\<rparr>"

text \<open>The accept loop and the end of \<open>main\<close>.\<close>

definition client_run :: "env \<Rightarrow> int \<Rightarrow> nat \<Rightarrow> trace \<Rightarrow> int outcome \<times> trace" where
  "client_run e waitcli fuel tr =
     (case client_accept e waitcli fuel (fresh_client tr) of
        (Ret u, c) \<Rightarrow> (Ret 0, snd (sys_close (ev_os e) (ev_fd e) (snd (sys_close (ev_os e) waitcli (pr_trace c)))))
      | (Exited n, c) \<Rightarrow> (Exited n, pr_trace c)
      | (Fault, c) \<Rightarrow> (Fault, pr_trace c)
      | (NoFuel, c) \<Rightarrow> (NoFuel, pr_trace c))"

definition client_main :: "os \<Rightarrow> (trace \<Rightarrow> timeval) \<Rightarrow> bool \<Rightarrow> nat \<Rightarrow> int outcome \<times> trace" where
  "client_main os left slack fuel =
     (case sys_socket os [] of
        (Inl err, tr1) \<Rightarrow> (Exited (errno_code err), tr1)
      | (Inr fd, tr1) \<Rightarrow>
          (case sys_bind os fd \<lparr>sin_family = AF_INET, sin_addr = 0, sin_port = 2222\<rparr> tr1 of
             (Some err, tr2) \<Rightarrow> (Exited (errno_code err), tr2)
           | (None, tr2) \<Rightarrow>
               chain (client_bind os \<lparr>sin_family = AF_INET, sin_addr = 0x7F000001, sin_port = 44444\<rparr> tr2) (\<lambda>waitcli tr3.
                 client_run (client_env os left slack fuel fd) waitcli fuel tr3)))"

section \<open>Invariant\<close>

lemma store_seq_range: "0 \<le> n \<Longrightarrow> n < 256 \<Longrightarrow> 0 \<le> next_seq n \<and> next_seq n < 256"
  by (auto simp: next_seq_def)

lemma peer_wf_closed [simp]: "peer_wf sz fd (c\<lparr>cl_closed := b\<rparr>) = peer_wf sz fd c"
  by (simp add: peer_wf_def)

lemma peer_wf_extend: "3 \<le> sz \<Longrightarrow> 0 \<le> fd \<Longrightarrow> peer_wf sz fd (peer.extend (fresh_peer sz tr) x)"
  by (simp add: peer_wf_def fresh_peer_def peer.defs)

lemma peer_wf_fresh_client: "0 \<le> fd \<Longrightarrow> peer_wf client_size fd (fresh_client tr)"
  unfolding fresh_client_def by (rule peer_wf_extend) simp_all

lemma client_await_bye_keeps: "peer_wf sz fd c \<Longrightarrow> keeps (peer_wf sz fd) (client_await_bye e fuel c)"
  by (induction fuel arbitrary: c) (auto simp: Let_def)

lemma client_end_keeps: "peer_wf sz fd c \<Longrightarrow> keeps (peer_wf sz fd) (client_end e c)"
  by (auto simp: client_end_def client_disconnect_def intro!: keeps_chain client_await_bye_keeps)

lemma client_connect_keeps: "peer_wf sz fd c \<Longrightarrow> ev_slack e \<Longrightarrow> keeps (peer_wf sz fd) (client_connect e fuel c)"
  by (induction fuel arbitrary: c) (auto intro!: keeps_chain recv_hello_keeps)

lemma client_data_keeps: "peer_wf sz fd c \<Longrightarrow> keeps (peer_wf sz fd) (client_data e msg c)"
  by (simp add: client_data_def on_sys_eq split: sum.split)

lemma client_packet_keeps:
  "peer_wf client_size fd c \<Longrightarrow> fd_set_ok (ev_fd e) \<Longrightarrow> keeps (peer_wf client_size fd) (client_packet e msg c)"
  by (simp add: client_packet_def watch_keeps client_end_keeps resend_keeps client_data_keeps)

lemma client_step_keeps:
  assumes "peer_wf client_size (ev_fd e) c" and "tcp_fits client_size e"
  shows "keeps (peer_wf client_size (ev_fd e)) (client_step e c)"
proof -
  have "pr_sock c \<noteq> ev_fd e" using assms(1) by (simp add: peer_wf_def)
  with assms(2) obtain bs where "fst (sys_recv (ev_os e) (pr_sock c) client_size False (pr_trace c)) = Inr bs"
    "3 + length bs \<le> client_size" by (rule tcp_fitsE)
  then have "keeps (peer_wf client_size (ev_fd e)) (client_tcp e c)"
    using assms by (simp add: client_tcp_def on_sys_eq client_end_keeps send_data_keeps store_seq_range)
  moreover have "keeps (peer_wf client_size (ev_fd e)) (client_udp e c)"
    using assms by (simp add: client_udp_def on_sys_eq client_packet_keeps tcp_fits_def split: sum.split)
  ultimately show ?thesis using assms(1) by (simp add: client_step_def)
qed

lemma client_select_keeps:
  assumes "tcp_fits client_size e"
  shows "peer_wf client_size (ev_fd e) c \<Longrightarrow> keeps (peer_wf client_size (ev_fd e)) (client_select e fuel tv c)"
proof (induction fuel arbitrary: tv c)
  case (Suc fuel)
  then have "peer_wf client_size (ev_fd e) (snd (wait_ready e tv c))" by simp
  then show ?case
    using Suc.IH client_step_keeps [OF _ assms] by (auto split: prod.split sum.split)
qed simp

lemma client_session_keeps:
  assumes "tcp_fits client_size e"
  shows "peer_wf client_size (ev_fd e) c \<Longrightarrow> keeps (peer_wf client_size (ev_fd e)) (client_session e fuel c)"
proof (induction fuel arbitrary: c)
  case (Suc fuel)
  have "keeps (peer_wf client_size (ev_fd e)) (client_round e c)"
    using Suc.prems assms
    by (auto simp: client_round_def to_remote_eq tcp_fits_def split: sum.split
        intro!: keeps_chain watch_keeps client_select_keeps)
  with Suc show ?case by (auto intro!: keeps_chain)
qed simp

lemma client_accept_keeps:
  assumes "tcp_fits client_size e"
  shows "peer_wf client_size (ev_fd e) c \<Longrightarrow> keeps (peer_wf client_size (ev_fd e)) (client_accept e waitcli fuel c)"
proof (induction fuel arbitrary: c)
  case (Suc fuel)
  show ?case
  proof (cases "os_accept (ev_os e) (pr_trace c) waitcli")
    case (Inl err)
    with Suc.prems show ?thesis by (simp add: on_sys_eq sys_accept_def Let_def)
  next
    case (Inr n)
    then have "int n < FD_SETSIZE" "int n \<noteq> ev_fd e" "ev_slack e" using assms unfolding tcp_fits_def by blast+
    then have wf: "peer_wf client_size (ev_fd e) (c\<lparr>pr_trace := t, pr_sock := int n\<rparr>)" for t
      using Suc.prems by (simp add: peer_wf_def)
    let ?c = "c\<lparr>pr_trace := EvAccept waitcli (Inr (int n)) # pr_trace c, pr_sock := int n\<rparr>"
    have "keeps (peer_wf client_size (ev_fd e)) (chain (client_connect e (ev_fuel e) ?c) (\<lambda>_ c2.
        chain (client_session e (ev_fuel e) (c2\<lparr>cl_closed := False, pr_id := 0, pr_expected := 0\<rparr>)) (\<lambda>_ c3.
          client_accept e waitcli fuel c3)))"
      using Suc.IH client_session_keeps [OF assms] client_connect_keeps [OF wf \<open>ev_slack e\<close>]
      by (intro keeps_chain) auto
    with Inr show ?thesis by (simp add: on_sys_eq sys_accept_def Let_def)
  qed
qed simp

end
