(* ===== verification/Peer_Server.thy ===== *)
theory Peer_Server
  imports Peer
begin

text \<open>
  The stand-alone server \<open>src/chownat/C/chownat_server.c\<close>: it waits for the control messages of the
  client, connects to a local TCP service when the client asks, and passes data in both directions.
\<close>

abbreviation (input) server_size :: nat where "server_size \<equiv> 1024"

section \<open>Connecting and disconnecting\<close>

text \<open>
  Waiting for the answer to \<open>02\<close> with \<open>select\<close>, on the set and with the timeout the call before left:
  an error or a timeout ends the loop as well.
\<close>

fun server_await_bye :: "env \<Rightarrow> nat \<Rightarrow> timeval \<Rightarrow> int list \<Rightarrow> (unit, unit) peer_op" where
  "server_await_bye e 0 tv fds c = (NoFuel, c)"
| "server_await_bye e (Suc fuel) tv fds c =
     (case on_sys (sys_select (ev_os e) (ev_fd e + 1) fds (Some tv)) c of
        (Inl err, c1) \<Rightarrow> (Ret (), c1)
      | (Inr ready, c1) \<Rightarrow>
          (if ready = [] then (Ret (), c1)
           else let c2 = recv_bye e c1
                in if strncmp_eq 3 (pr_bye c2) (msg02 @ [0]) then (Ret (), snd (to_remote e msg02 c2))
                   else server_await_bye e fuel (ev_left e (pr_trace c1)) ready c2))"

definition server_disconnect :: "env \<Rightarrow> (unit, unit) peer_op" where
  "server_disconnect e c =
     (let c1 = snd (to_remote e msg02 c)
      in if \<not> fd_set_ok (ev_fd e) then (Fault, c1)
         else server_await_bye e (ev_fuel e) \<lparr>tv_sec = 2, tv_usec = 0\<rparr> [ev_fd e] c1)"

fun server_handshake :: "env \<Rightarrow> nat \<Rightarrow> (unit, unit) peer_op" where
  "server_handshake e 0 c = (NoFuel, c)"
| "server_handshake e (Suc fuel) c =
     chain (recv_hello e (snd (to_remote e msg03 c))) (\<lambda>_ c1.
       if strcmp_eq (pr_hello c1) (msg03 @ [0]) then (Ret (), c1) else server_handshake e fuel c1)"

text \<open>After the handshake: a new connection to the local service replaces the old one.\<close>

definition server_open :: "env \<Rightarrow> sockaddr_in \<Rightarrow> (unit, unit) peer_op" where
  "server_open e local c =
     (case on_sys (sys_socket (ev_os e)) (close_sock e c) of
        (Inl err, c1) \<Rightarrow> (Exited (errno_code err), c1)
      | (Inr sock, c1) \<Rightarrow>
          (case on_sys (sys_connect (ev_os e) sock local) (c1\<lparr>pr_sock := sock\<rparr>) of
             (Some err, c2) \<Rightarrow> (Exited (errno_code err), c2)
           | (None, c2) \<Rightarrow> (Ret (), c2)))"

section \<open>The steps\<close>

text \<open>\<open>id\<close> is a \<open>uint8_t\<close>.\<close>

definition server_next_id :: "int \<Rightarrow> int" where
  "server_next_id n = uint (word_of_int (n + 1) :: byte)"

definition server_next_expected :: "int \<Rightarrow> int" where
  "server_next_expected n = (if n + 1 = 256 then 0 else n + 1)"

definition server_tcp :: "env \<Rightarrow> (unit, unit) peer_op" where
  "server_tcp e c =
     (case on_sys (sys_recv (ev_os e) (pr_sock c) server_size False) c of
        (Inl err, c1) \<Rightarrow> (Fault, c1)
      | (Inr bs, c1) \<Rightarrow>
          (if bs = []
           then chain (server_disconnect e (c1\<lparr>pr_id := 0, pr_expected := 0\<rparr>)) (\<lambda>_ c2. (Ret (), close_sock e c2))
           else send_data server_size server_next_id e bs c1))"

definition server_data :: "env \<Rightarrow> byte list \<Rightarrow> (unit, unit) peer_op" where
  "server_data e msg c =
     (if uint (msg ! 2) \<noteq> pr_expected c
      then (Ret (), snd (to_remote e (request_packet (word_of_int (pr_expected c))) c))
      else case on_sys (sys_send (ev_os e) (pr_sock c) (drop 3 msg)) c of
             (Inl err, c1) \<Rightarrow> (Exited (errno_code err), c1)
           | (Inr n, c1) \<Rightarrow> (Ret (), c1\<lparr>pr_expected := server_next_expected (pr_expected c1)\<rparr>))"

text \<open>
  A datagram.  An empty one counts as the end of the session, which the client's keep-alive is; a
  message the server does not know ends the program.
\<close>

definition server_packet :: "env \<Rightarrow> sockaddr_in \<Rightarrow> byte list \<Rightarrow> (unit, unit) peer_op" where
  "server_packet e local msg c =
     (if msg = []
      then chain (server_disconnect e (c\<lparr>pr_id := 0, pr_expected := 0\<rparr>)) (\<lambda>_ c1. (Ret (), close_sock e c1))
      else if length msg < 3 then (Ret (), c)
      else if strncmp_eq 3 msg (msg01 @ [0])
      then chain (server_handshake e (ev_fuel e) c) (\<lambda>_ c1. server_open e local c1)
      else if strncmp_eq 3 msg (msg02 @ [0])
      then chain (server_disconnect e (c\<lparr>pr_id := 0, pr_expected := 0\<rparr>)) (\<lambda>_ c1.
             (Ret (), close_sock e (snd (to_remote e msg02 c1))))
      else if strncmp_eq 3 msg (msg03 @ [0]) then (Ret (), snd (to_remote e msg03 c))
      else if strncmp_eq 2 msg (msg08 @ [0]) then resend (server_size + 3) e (ev_fuel e) (msg ! 2) c
      else if strncmp_eq 2 msg (msg09 @ [0]) then server_data e msg c
      else (Exited 1, c))"

definition server_udp :: "env \<Rightarrow> sockaddr_in \<Rightarrow> (unit, unit) peer_op" where
  "server_udp e local c =
     (case on_sys (sys_recv (ev_os e) (ev_fd e) server_size False) c of
        (Inl err, c1) \<Rightarrow> (Exited (errno_code err), c1)
      | (Inr msg, c1) \<Rightarrow> server_packet e local msg c1)"

text \<open>
  After \<open>select\<close>: both sockets are looked at in the same step, then the descriptor set is rebuilt, on
  every path.
\<close>

definition server_step :: "env \<Rightarrow> sockaddr_in \<Rightarrow> (unit, unit) peer_op" where
  "server_step e local c =
     chain (if pr_sock c \<noteq> -1 \<and> pr_sock c \<in> set (pr_fds c) then server_tcp e c else (Ret (), c)) (\<lambda>_ c1.
       chain (if ev_fd e \<in> set (pr_fds c1) then server_udp e local c1 else (Ret (), c1)) (\<lambda>_ c2.
         watch e c2))"

fun server_select :: "env \<Rightarrow> sockaddr_in \<Rightarrow> nat \<Rightarrow> timeval \<Rightarrow> (unit, unit) peer_op" where
  "server_select e local 0 tv c = (NoFuel, c)"
| "server_select e local (Suc fuel) tv c =
     (case wait_ready e tv c of
        (Inl err, c1) \<Rightarrow> (Exited (errno_code err), c1)
      | (Inr ready, c1) \<Rightarrow>
          (if ready = [] then (Ret (), c1)
           else chain (server_step e local (c1\<lparr>pr_fds := ready\<rparr>)) (\<lambda>_ c2.
                  server_select e local fuel (ev_left e (pr_trace c1)) c2)))"

section \<open>The program\<close>

definition server_round :: "env \<Rightarrow> sockaddr_in \<Rightarrow> (unit, unit) peer_op" where
  "server_round e local c =
     chain (watch e c) (\<lambda>_ c1.
       chain (server_select e local (ev_fuel e) \<lparr>tv_sec = 5, tv_usec = 0\<rparr> c1) (\<lambda>_ c2.
         case to_remote e msg_ka c2 of
           (Inl err, c3) \<Rightarrow> (Exited (errno_code err), c3)
         | (Inr n, c3) \<Rightarrow> (Ret (), c3)))"

fun server_loop :: "env \<Rightarrow> sockaddr_in \<Rightarrow> nat \<Rightarrow> (unit, unit) peer_op" where
  "server_loop e local 0 c = (NoFuel, c)"
| "server_loop e local (Suc fuel) c = chain (server_round e local c) (\<lambda>_ c1. server_loop e local fuel c1)"

definition server_env :: "os \<Rightarrow> (trace \<Rightarrow> timeval) \<Rightarrow> bool \<Rightarrow> nat \<Rightarrow> int \<Rightarrow> env" where
  "server_env os left slack fuel fd = \<lparr>ev_os = os, ev_left = left, ev_slack = slack, ev_fd = fd,
     ev_dst = \<lparr>sin_family = AF_INET, sin_addr = 0x0A000014, sin_port = 2222\<rparr>, ev_fuel = fuel\<rparr>"

definition server_local :: sockaddr_in where
  "server_local = \<lparr>sin_family = AF_INET, sin_addr = 0x7F000001, sin_port = 22\<rparr>"

definition server_main :: "os \<Rightarrow> (trace \<Rightarrow> timeval) \<Rightarrow> bool \<Rightarrow> nat \<Rightarrow> unit outcome \<times> peer" where
  "server_main os left slack fuel =
     (case sys_socket os [] of
        (Inl err, tr1) \<Rightarrow> (Exited (errno_code err), fresh_peer server_size tr1)
      | (Inr fd, tr1) \<Rightarrow>
          (case sys_bind os fd \<lparr>sin_family = AF_INET, sin_addr = 0, sin_port = 2222\<rparr> tr1 of
             (Some err, tr2) \<Rightarrow> (Exited (errno_code err), fresh_peer server_size tr2)
           | (None, tr2) \<Rightarrow>
               server_loop (server_env os left slack fuel fd) server_local fuel (fresh_peer server_size tr2)))"

section \<open>Invariant\<close>

lemma server_next_id_range: "0 \<le> server_next_id n \<and> server_next_id n < 256"
  using uint_range_size [of "word_of_int (n + 1) :: byte"] by (simp add: server_next_id_def word_size)

lemma server_await_bye_keeps: "peer_wf sz fd c \<Longrightarrow> keeps (peer_wf sz fd) (server_await_bye e fuel tv fds c)"
  by (induction fuel arbitrary: tv fds c) (auto simp: on_sys_eq Let_def split: sum.split)

lemma server_disconnect_keeps:
  "peer_wf sz fd c \<Longrightarrow> fd_set_ok (ev_fd e) \<Longrightarrow> keeps (peer_wf sz fd) (server_disconnect e c)"
  by (simp add: server_disconnect_def Let_def server_await_bye_keeps)

lemma server_handshake_keeps: "peer_wf sz fd c \<Longrightarrow> ev_slack e \<Longrightarrow> keeps (peer_wf sz fd) (server_handshake e fuel c)"
  by (induction fuel arbitrary: c) (auto intro!: keeps_chain recv_hello_keeps)

lemma server_open_keeps:
  assumes "peer_wf sz (ev_fd e) c" and "tcp_fits sz e"
  shows "keeps (peer_wf sz (ev_fd e)) (server_open e local c)"
proof -
  let ?c = "close_sock e c"
  have wf: "peer_wf sz (ev_fd e) ?c" using assms(1) by simp
  show ?thesis
  proof (cases "os_socket (ev_os e) (pr_trace ?c)")
    case (Inl err)
    with wf show ?thesis by (simp add: server_open_def on_sys_eq sys_socket_def Let_def)
  next
    case (Inr n)
    moreover have "pr_trace ?c \<noteq> []" by (simp add: close_sock_def on_sys_eq sys_close_def Let_def)
    ultimately have "int n < FD_SETSIZE" "int n \<noteq> ev_fd e" using assms(2) unfolding tcp_fits_def by blast+
    with wf have "peer_wf sz (ev_fd e) (?c\<lparr>pr_sock := int n\<rparr>)" by (simp add: peer_wf_sock)
    with Inr show ?thesis by (simp add: server_open_def on_sys_eq sys_socket_def Let_def split: option.split)
  qed
qed

lemma server_data_keeps: "peer_wf sz fd c \<Longrightarrow> keeps (peer_wf sz fd) (server_data e msg c)"
  by (simp add: server_data_def on_sys_eq split: sum.split)

lemma server_packet_keeps:
  assumes "peer_wf server_size (ev_fd e) c" and "tcp_fits server_size e"
  shows "keeps (peer_wf server_size (ev_fd e)) (server_packet e local msg c)"
proof -
  have ok: "fd_set_ok (ev_fd e)" "ev_slack e" using assms(2) by (simp_all add: tcp_fits_def)
  have bye: "keeps (peer_wf server_size (ev_fd e)) (chain (server_disconnect e (c\<lparr>pr_id := 0, pr_expected := 0\<rparr>)) k)"
    if "\<And>c1. peer_wf server_size (ev_fd e) c1 \<Longrightarrow> keeps (peer_wf server_size (ev_fd e)) (k () c1)" for k
    using assms(1) ok that by (auto intro!: keeps_chain server_disconnect_keeps)
  have hello: "keeps (peer_wf server_size (ev_fd e)) (chain (server_handshake e (ev_fuel e) c) (\<lambda>_ c1. server_open e local c1))"
    using assms ok by (auto intro!: keeps_chain server_handshake_keeps server_open_keeps)
  show ?thesis
    using assms(1) by (simp add: server_packet_def bye hello resend_keeps server_data_keeps)
qed

lemma server_step_keeps:
  assumes "peer_wf server_size (ev_fd e) c" and "tcp_fits server_size e"
  shows "keeps (peer_wf server_size (ev_fd e)) (server_step e local c)"
proof -
  have "pr_sock c \<noteq> ev_fd e" using assms(1) by (simp add: peer_wf_def)
  with assms(2) obtain bs where "fst (sys_recv (ev_os e) (pr_sock c) server_size False (pr_trace c)) = Inr bs"
    "3 + length bs \<le> server_size" by (rule tcp_fitsE)
  then have tcp: "keeps (peer_wf server_size (ev_fd e)) (server_tcp e c)"
    using assms
    by (auto simp: server_tcp_def on_sys_eq send_data_keeps server_next_id_range tcp_fits_def
        intro!: keeps_chain server_disconnect_keeps)
  have udp: "keeps (peer_wf server_size (ev_fd e)) (server_udp e local c1)" if "peer_wf server_size (ev_fd e) c1" for c1
    using assms(2) that by (simp add: server_udp_def on_sys_eq server_packet_keeps split: sum.split)
  have "fd_set_ok (ev_fd e)" using assms(2) by (simp add: tcp_fits_def)
  then show ?thesis
    using assms(1) tcp udp by (auto simp: server_step_def intro!: keeps_chain watch_keeps)
qed

lemma server_select_keeps:
  assumes "tcp_fits server_size e"
  shows "peer_wf server_size (ev_fd e) c \<Longrightarrow> keeps (peer_wf server_size (ev_fd e)) (server_select e local fuel tv c)"
proof (induction fuel arbitrary: tv c)
  case (Suc fuel)
  then have "peer_wf server_size (ev_fd e) (snd (wait_ready e tv c))" by simp
  then show ?case
    using Suc.IH server_step_keeps [OF _ assms] by (auto split: prod.split sum.split)
qed simp

lemma server_loop_keeps:
  assumes "tcp_fits server_size e"
  shows "peer_wf server_size (ev_fd e) c \<Longrightarrow> keeps (peer_wf server_size (ev_fd e)) (server_loop e local fuel c)"
proof (induction fuel arbitrary: c)
  case (Suc fuel)
  have "keeps (peer_wf server_size (ev_fd e)) (server_round e local c)"
    using Suc.prems assms
    by (auto simp: server_round_def to_remote_eq tcp_fits_def split: sum.split
        intro!: keeps_chain watch_keeps server_select_keeps)
  with Suc show ?case by (auto intro!: keeps_chain)
qed simp

end
