(* ===== verification/Peer_Link.thy ===== *)
theory Peer_Link
  imports Peer_Client Peer_Server Chownat_Stream
begin

text \<open>
  The stand-alone client and server together: memory safety of both programs and its exact limit, the
  transfer of data in each direction, and what the client's keep-alive does to the server.
\<close>

section \<open>Memory safety\<close>

text \<open>
  C33. Neither stand-alone program has undefined behaviour, whatever the network, the local service and
  the clock do, as long as \<open>read\<close> on TCP succeeds and returns at most \<open>size\<close> - 3 bytes, new descriptors
  are new and fit a descriptor set, and the zero stored behind the four-byte arrays hits nothing.
\<close>

theorem peer_programs_safe:
  assumes "\<And>fd. os_socket os [] = Inr fd \<Longrightarrow> tcp_fits client_size (client_env os left slack fuel (int fd))"
    and "\<And>fd. os_socket os' [] = Inr fd \<Longrightarrow> tcp_fits server_size (server_env os' left' slack' fuel' (int fd))"
  shows "fst (client_main os left slack fuel) \<noteq> Fault \<and> fst (server_main os' left' slack' fuel') \<noteq> Fault"
proof
  have bind: "fst (client_bind os a tr) \<noteq> Fault" for a tr
    by (auto simp: client_bind_def split: prod.splits sum.splits option.splits)
  have run: "fst (client_run (client_env os left slack fuel (int fd)) w n tr) \<noteq> Fault"
    if "os_socket os [] = Inr fd" for fd w n tr
  proof -
    let ?e = "client_env os left slack fuel (int fd)"
    have "peer_wf client_size (ev_fd ?e) (fresh_client tr)"
      by (rule peer_wf_fresh_client) (simp add: client_env_def)
    with client_accept_keeps [OF assms(1) [OF that]] have "fst (client_accept ?e w n (fresh_client tr)) \<noteq> Fault"
      by (simp add: keeps_def)
    moreover obtain r c where "client_accept ?e w n (fresh_client tr) = (r, c)" by fastforce
    ultimately show ?thesis by (cases r) (simp_all add: client_run_def)
  qed
  show "fst (client_main os left slack fuel) \<noteq> Fault"
  proof (cases "os_socket os []")
    case (Inl err)
    then show ?thesis by (simp add: client_main_def sys_socket_def Let_def)
  next
    case (Inr fd)
    with run [OF this] bind show ?thesis
      by (simp add: client_main_def sys_socket_def Let_def chain_Fault_iff split: option.split prod.split)
  qed
  show "fst (server_main os' left' slack' fuel') \<noteq> Fault"
  proof (cases "os_socket os' []")
    case (Inl err)
    then show ?thesis by (simp add: server_main_def sys_socket_def Let_def)
  next
    case (Inr fd)
    let ?e = "server_env os' left' slack' fuel' (int fd)"
    have "keeps (peer_wf server_size (ev_fd ?e)) (server_loop ?e server_local fuel' (fresh_peer server_size tr))" for tr
      using server_loop_keeps [OF assms(2) [OF Inr]] peer_wf_fresh [of server_size "ev_fd ?e" tr]
      by (simp add: server_env_def)
    with Inr show ?thesis
      by (simp add: server_main_def sys_socket_def Let_def keeps_def split: option.split prod.split)
  qed
qed

text \<open>A system for the examples: nothing arrives on UDP, the TCP side sends one byte.\<close>

definition local_os :: os where
  "local_os = quiet_os\<lparr>os_recv := (\<lambda>tr fd dw. if fd = 3 then Inl EAGAIN else Inr [65]),
     os_socket := (\<lambda>tr. if tr = [] then Inr 3 else Inr 4)\<rparr>"

theorem peer_programs_safe_witness:
  "fst (client_main local_os (\<lambda>tr. \<lparr>tv_sec = 0, tv_usec = 0\<rparr>) True 9) \<noteq> Fault \<and>
   fst (server_main local_os (\<lambda>tr. \<lparr>tv_sec = 0, tv_usec = 0\<rparr>) True 9) \<noteq> Fault"
  by (rule peer_programs_safe)
     (auto simp: tcp_fits_def client_env_def server_env_def local_os_def fd_set_ok_def)

text \<open>
  The limits are exact.  A byte more from TCP than a packet can hold, although the array \<open>read\<close>
  fills is larger, and a failing \<open>read\<close> are accesses outside an array in both programs; and without
  memory to spare behind the four-byte array the client's first attempt to connect is one.
\<close>

theorem peer_read_overflow:
  assumes "peer_wf client_size (ev_fd e) c" and "peer_wf server_size (ev_fd e) s"
    and "os_recv (ev_os e) (pr_trace c) (pr_sock c) False = r" and "os_recv (ev_os e) (pr_trace s) (pr_sock s) False = r"
    and "r \<noteq> Inr []"
  shows "(fst (client_tcp e c) = Fault \<longleftrightarrow> (case r of Inl _ \<Rightarrow> True | Inr bs \<Rightarrow> 4093 < length bs)) \<and>
    (fst (server_tcp e s) = Fault \<longleftrightarrow> (case r of Inl _ \<Rightarrow> True | Inr bs \<Rightarrow> 1021 < length bs)) \<and>
    (\<not> ev_slack e \<longrightarrow> fst (client_connect e (Suc n) c) = Fault)"
proof (intro conjI impI)
  have ranges: "0 \<le> pr_id c \<and> pr_id c < int (length (pr_buffer c))" "0 \<le> pr_id s \<and> pr_id s < int (length (pr_buffer s))"
    using assms(1,2) by (auto simp: peer_wf_def)
  have send: "fst (send_data sz nxt e bs c1) = Fault \<longleftrightarrow> sz < 3 + length bs"
    if "0 \<le> pr_id c1 \<and> pr_id c1 < int (length (pr_buffer c1))" for sz nxt bs and c1 :: "'z peer_scheme"
    using that by (simp add: send_data_def Let_def)
  have read: "fst (sys_recv (ev_os e) fd sz False tr) = map_sum id (take sz) (os_recv (ev_os e) tr fd False)" for fd sz tr
    by (cases "os_recv (ev_os e) tr fd False") (simp_all add: sys_defs Let_def)
  show "fst (client_tcp e c) = Fault \<longleftrightarrow> (case r of Inl _ \<Rightarrow> True | Inr bs \<Rightarrow> 4093 < length bs)"
    using assms(3,5) ranges(1) by (auto simp: client_tcp_def on_sys_eq read send split: sum.split)
  show "fst (server_tcp e s) = Fault \<longleftrightarrow> (case r of Inl _ \<Rightarrow> True | Inr bs \<Rightarrow> 1021 < length bs)"
    using assms(4,5) ranges(2) by (auto simp: server_tcp_def on_sys_eq read send split: sum.split)
  show "\<not> ev_slack e \<Longrightarrow> fst (client_connect e (Suc n) c) = Fault" by (simp add: recv_hello_def)
qed

definition long_os :: os where
  "long_os = quiet_os\<lparr>os_recv := (\<lambda>tr fd dw. Inr (replicate 1022 0))\<rparr>"

definition example_env :: "os \<Rightarrow> env" where
  "example_env os = client_env os (\<lambda>tr. \<lparr>tv_sec = 0, tv_usec = 0\<rparr>) False 9 3"

theorem peer_read_overflow_witness:
  "fst (server_tcp (example_env long_os) (fresh_peer server_size [])) = Fault \<and>
   fst (client_tcp (example_env long_os) (fresh_client [])) \<noteq> Fault \<and>
   fst (client_connect (example_env long_os) 1 (fresh_client [])) = Fault"
proof -
  have wf: "peer_wf client_size (ev_fd (example_env long_os)) (fresh_client [])"
    "peer_wf server_size (ev_fd (example_env long_os)) (fresh_peer server_size [])"
    by (rule peer_wf_fresh_client, simp add: example_env_def client_env_def)
      (rule peer_wf_fresh, simp_all add: example_env_def client_env_def)
  have os: "ev_os (example_env long_os) = long_os" "\<not> ev_slack (example_env long_os)"
    "os_recv long_os tr fd dw = Inr (replicate 1022 0)" for tr fd dw
    by (simp_all add: example_env_def client_env_def long_os_def)
  show ?thesis
    using peer_read_overflow [OF wf, of "Inr (replicate 1022 0)" 0] by (simp add: os)
qed

section \<open>Transfer\<close>

text \<open>What was handed to \<open>send\<close> on a TCP descriptor and taken, newest first.\<close>

fun stream_writes :: "int \<Rightarrow> trace \<Rightarrow> byte list list" where
  "stream_writes fd [] = []"
| "stream_writes fd (EvSend f bs (Inr n) # tr) = (if f = fd then bs # stream_writes fd tr else stream_writes fd tr)"
| "stream_writes fd (_ # tr) = stream_writes fd tr"

text \<open>Several reads from TCP sent one after the other, and several datagrams handled in order.\<close>

fun sends :: "nat \<Rightarrow> (int \<Rightarrow> int) \<Rightarrow> env \<Rightarrow> byte list list \<Rightarrow> ('x, unit) peer_op" where
  "sends sz nxt e [] c = (Ret (), c)"
| "sends sz nxt e (m # ms) c = chain (send_data sz nxt e m c) (\<lambda>_ c1. sends sz nxt e ms c1)"

fun server_packets :: "env \<Rightarrow> sockaddr_in \<Rightarrow> byte list list \<Rightarrow> (unit, unit) peer_op" where
  "server_packets e local [] c = (Ret (), c)"
| "server_packets e local (p # ps) c = chain (server_packet e local p c) (\<lambda>_ c1. server_packets e local ps c1)"

fun client_packets :: "env \<Rightarrow> byte list list \<Rightarrow> unit client_op" where
  "client_packets e [] c = (Ret (), c)"
| "client_packets e (p # ps) c = chain (client_packet e p c) (\<lambda>_ c1. client_packets e ps c1)"

definition numbered :: "nat \<Rightarrow> byte list list \<Rightarrow> byte list list" where
  "numbered k ms = map (\<lambda>(i, m). data_packet (of_nat i) m) (enumerate k ms)"

lemma numbered_simps [simp]:
  "numbered k [] = []" "numbered k (m # ms) = data_packet (of_nat k) m # numbered (Suc k) ms"
  by (simp_all add: numbered_def)

lemma word_mod_256: "word_of_int (int k mod 256) = (of_nat k :: byte)"
  by (simp add: word_uint_eq_iff unsigned_of_nat unsigned_of_int take_bit_eq_mod zmod_int)

lemma uint_mod_256: "uint (of_nat k :: byte) = int k mod 256"
  by (simp add: unsigned_of_nat take_bit_eq_mod zmod_int)

lemma mod_Suc_int: "(int k mod 256 + 1) mod 256 = int (Suc k) mod 256"
  by (simp add: mod_simps ac_simps)

lemma sends_numbered:
  assumes "\<And>n. 0 \<le> n \<Longrightarrow> n < 256 \<Longrightarrow> nxt n = (n + 1) mod 256"
  shows "length (pr_buffer c) = 256 \<Longrightarrow> pr_id c = int k mod 256 \<Longrightarrow> \<forall>m \<in> set ms. 3 + length m \<le> sz \<Longrightarrow>
    \<exists>c'. sends sz nxt e ms c = (Ret (), c') \<and> pr_id c' = int (k + length ms) mod 256 \<and>
      datagrams (ev_fd e) (pr_trace c') = rev (numbered k ms) @ datagrams (ev_fd e) (pr_trace c)"
proof (induction ms arbitrary: c k)
  case (Cons m ms)
  have "0 \<le> int k mod 256" "int k mod 256 < 256" by simp_all
  then obtain c1 where c1: "send_data sz nxt e m c = (Ret (), c1)" "length (pr_buffer c1) = 256"
    "pr_id c1 = int (Suc k) mod 256"
    "datagrams (ev_fd e) (pr_trace c1) = data_packet (of_nat k) m # datagrams (ev_fd e) (pr_trace c)"
    using Cons.prems assms [of "int k mod 256"] mod_Suc_int [of k]
    by (auto simp: send_data_def Let_def to_remote_eq sys_sendto_def word_mod_256 not_less)
  from Cons.IH [OF this(2,3)] Cons.prems(3) c1 show ?case by simp
qed simp

lemma data_packet_parts [simp]:
  "length (data_packet i m) = 3 + length m" "data_packet i m \<noteq> []" "data_packet i m ! 2 = i"
  "drop 3 (data_packet i m) = m" "take 3 (data_packet i m) = msg09 @ [i]" "take 2 (data_packet i m) = msg09"
  by (simp_all add: data_packet_def msg_defs numeral_3_eq_3 nth_append)

lemma data_packet_tags [simp]:
  "\<not> strncmp_eq 3 (data_packet i m) (msg01 @ [0])" "\<not> strncmp_eq 3 (data_packet i m) (msg02 @ [0])"
  "\<not> strncmp_eq 3 (data_packet i m) (msg03 @ [0])" "\<not> strncmp_eq 2 (data_packet i m) (msg08 @ [0])"
  "strncmp_eq 2 (data_packet i m) (msg09 @ [0])"
  by (simp_all add: strncmp_tags) (simp_all add: msg_defs)

lemma server_packet_data: "server_packet e local (data_packet i m) c = server_data e (data_packet i m) c"
  by (simp add: server_packet_def)

lemma client_packet_data: "client_packet e (data_packet i m) c = client_data e (data_packet i m) c"
  by (simp add: client_packet_def)

definition takes_all :: "env \<Rightarrow> bool" where
  "takes_all e \<longleftrightarrow> (\<forall>tr fd bs. \<exists>n. os_send (ev_os e) tr fd bs = Inr n)"

lemma takes_allE:
  assumes "takes_all e"
  obtains n where "sys_send (ev_os e) fd bs tr = (Inr n, EvSend fd bs (Inr n) # tr)"
proof -
  from assms obtain n where "os_send (ev_os e) tr fd bs = Inr n" unfolding takes_all_def by blast
  then show thesis by (intro that) (simp add: sys_send_def Let_def)
qed

lemma server_delivers:
  assumes "takes_all e"
  shows "pr_expected s = int k mod 256 \<Longrightarrow>
    \<exists>s'. server_packets e local (numbered k ms) s = (Ret (), s') \<and> pr_sock s' = pr_sock s \<and>
      stream_writes (pr_sock s) (pr_trace s') = rev ms @ stream_writes (pr_sock s) (pr_trace s)"
proof (induction ms arbitrary: s k)
  case (Cons m ms)
  obtain n where w: "sys_send (ev_os e) (pr_sock s) m (pr_trace s) =
      (Inr n, EvSend (pr_sock s) m (Inr n) # pr_trace s)" using takes_allE [OF assms] .
  have exp: "server_next_expected (int k mod 256) = int (Suc k) mod 256"
    using mod_Suc_int [of k] pos_mod_bound [of 256 "int k"] by (auto simp: server_next_expected_def)
  obtain s1 where s1: "server_packet e local (data_packet (of_nat k) m) s = (Ret (), s1)"
    "pr_sock s1 = pr_sock s" "stream_writes (pr_sock s) (pr_trace s1) = m # stream_writes (pr_sock s) (pr_trace s)"
    "pr_expected s1 = int (Suc k) mod 256"
    using Cons.prems w exp by (auto simp: server_packet_data server_data_def on_sys_eq uint_mod_256)
  from Cons.IH [OF this(4)] s1 show ?case by simp
qed simp


text \<open>The number the client expects after \<open>k\<close> packets.\<close>

definition client_expects :: "nat \<Rightarrow> int" where
  "client_expects k = (if k mod 256 = 255 then 0 else int (k mod 256))"

lemma client_expects_Suc:
  "k mod 256 \<noteq> 255 \<Longrightarrow> client_next_expected (client_expects k) = client_expects (Suc k)"
  "k mod 256 = 255 \<Longrightarrow> client_expects (Suc k) = 0"
  by (auto simp: client_expects_def client_next_expected_def mod_Suc)

lemma client_expects_word:
  "(of_nat k :: byte) = word_of_int (client_expects k) \<longleftrightarrow> k mod 256 \<noteq> 255"
proof -
  have "(of_nat k :: byte) = of_nat (k mod 256)" by (simp add: word_of_nat_eq_iff take_bit_eq_mod)
  moreover have "(of_nat (k mod 256) :: byte) = 0 \<longleftrightarrow> k mod 256 = 0"
    by (simp add: word_of_nat_eq_0_iff dvd_eq_mod_eq_0)
  ultimately show ?thesis by (simp add: client_expects_def)
qed

lemma lost_count: "k mod 256 = 255 \<Longrightarrow> Suc k div 256 = Suc (k div 256)" "k mod 256 \<noteq> 255 \<Longrightarrow> Suc k div 256 = k div 256"
  by (simp_all add: div_Suc mod_Suc split: if_splits)

lemma client_receives:
  assumes "takes_all e"
  shows "pr_expected c = client_expects k \<Longrightarrow>
    \<exists>c'. client_packets e (numbered k ms) c = (Ret (), c') \<and> pr_sock c' = pr_sock c \<and>
      stream_writes (pr_sock c) (pr_trace c') =
        rev [m. (i, m) \<leftarrow> enumerate k ms, i mod 256 \<noteq> 255] @ stream_writes (pr_sock c) (pr_trace c) \<and>
      datagrams (ev_fd e) (pr_trace c') =
        replicate ((k + length ms) div 256 - k div 256) (request_packet 0) @ datagrams (ev_fd e) (pr_trace c)"
proof (induction ms arbitrary: c k)
  case (Cons m ms)
  obtain n where w: "sys_send (ev_os e) (pr_sock c) m (pr_trace c) =
      (Inr n, EvSend (pr_sock c) m (Inr n) # pr_trace c)" using takes_allE [OF assms] .
  let ?lost = "k mod 256 = 255"
  have step: "client_packet e (data_packet (of_nat k) m) c = client_data e (data_packet (of_nat k) m) c"
    by (rule client_packet_data)
  obtain c1 where c1: "client_packet e (data_packet (of_nat k) m) c = (Ret (), c1)" "pr_sock c1 = pr_sock c"
    "stream_writes (pr_sock c) (pr_trace c1) = (if ?lost then [] else [m]) @ stream_writes (pr_sock c) (pr_trace c)"
    "datagrams (ev_fd e) (pr_trace c1) = (if ?lost then [request_packet 0] else []) @ datagrams (ev_fd e) (pr_trace c)"
    "pr_expected c1 = client_expects (Suc k)"
  proof (cases ?lost)
    case True
    then have "client_expects k = 0" by (simp add: client_expects_def)
    with True Cons.prems that show thesis
      using client_expects_word [of k]
      by (auto simp: step client_data_def to_remote_eq sys_sendto_def Let_def client_expects_Suc)
  next
    case False
    with Cons.prems w that show thesis
      using client_expects_word [of k] by (auto simp: step client_data_def on_sys_eq client_expects_Suc)
  qed
  have mono: "Suc k div 256 \<le> (Suc k + length ms) div 256" by (intro div_le_mono) simp
  from Cons.IH [OF c1(5)] obtain c' where c': "client_packets e (numbered (Suc k) ms) c1 = (Ret (), c')"
    "pr_sock c' = pr_sock c1"
    "stream_writes (pr_sock c1) (pr_trace c') =
       rev [m. (i, m) \<leftarrow> enumerate (Suc k) ms, i mod 256 \<noteq> 255] @ stream_writes (pr_sock c1) (pr_trace c1)"
    "datagrams (ev_fd e) (pr_trace c') =
       replicate ((Suc k + length ms) div 256 - Suc k div 256) (request_packet 0) @ datagrams (ev_fd e) (pr_trace c1)"
    by blast
  show ?case
    using c1 c' mono lost_count [of k]
    by (cases ?lost) (auto simp: replicate_append_same Suc_diff_Suc Suc_le_eq simp flip: replicate_Suc)
qed simp


text \<open>
  C35. From server to client, every 256th read is lost: the client sets the expected number back to 0
  after 254 instead of 255, so it answers the packet with number 255 with a request for number 0, takes
  the next packet, which has this number, and delivers everything else.  Exactly the reads whose
  index is 255 modulo 256 are missing in what the local TCP peer gets.
\<close>

theorem peer_downstream_loses:
  assumes "peer_wf server_size fd s" and "pr_id s = 0" and "pr_expected c = 0" and "takes_all ec"
    and "\<forall>m \<in> set ms. length m \<le> 1021"
  shows "\<exists>s' ps c'. sends server_size server_next_id es ms s = (Ret (), s') \<and>
    datagrams (ev_fd es) (pr_trace s') = rev ps @ datagrams (ev_fd es) (pr_trace s) \<and>
    client_packets ec ps c = (Ret (), c') \<and>
    stream_writes (pr_sock c) (pr_trace c') =
      rev [m. (i, m) \<leftarrow> enumerate 0 ms, i mod 256 \<noteq> 255] @ stream_writes (pr_sock c) (pr_trace c) \<and>
    datagrams (ev_fd ec) (pr_trace c') =
      replicate (length ms div 256) (request_packet 0) @ datagrams (ev_fd ec) (pr_trace c)"
proof -
  have seq: "\<And>n. 0 \<le> n \<Longrightarrow> n < 256 \<Longrightarrow> server_next_id n = (n + 1) mod 256"
    by (simp add: server_next_id_def unsigned_of_int take_bit_eq_mod del: of_int_add)
  have "length (pr_buffer s) = 256" using assms(1) by (simp add: peer_wf_def)
  then obtain s' where "sends server_size server_next_id es ms s = (Ret (), s')"
    "datagrams (ev_fd es) (pr_trace s') = rev (numbered 0 ms) @ datagrams (ev_fd es) (pr_trace s)"
    using sends_numbered [OF seq, of s 0 ms server_size es] assms(2,5) by fastforce
  with client_receives [OF assms(4), of c 0 ms] assms(3) show ?thesis by (auto simp: client_expects_def)
qed

theorem peer_downstream_loses_witness:
  "\<exists>s' ps c'. sends server_size server_next_id (example_env quiet_os) (replicate 257 [65]) (fresh_peer server_size []) = (Ret (), s') \<and>
    datagrams 3 (pr_trace s') = rev ps \<and> client_packets (example_env quiet_os) ps (fresh_client []) = (Ret (), c') \<and>
    length (stream_writes (-1) (pr_trace c')) = 256 \<and> datagrams 3 (pr_trace c') = [request_packet 0]"
proof -
  have start: "pr_expected (fresh_client []) = 0" "pr_trace (fresh_client []) = []" "pr_sock (fresh_client []) = -1"
    "pr_id (fresh_peer server_size []) = 0" "pr_trace (fresh_peer server_size []) = []"
    by (simp_all add: fresh_client_def fresh_peer_def peer.defs)
  have "takes_all (example_env quiet_os)" by (simp add: takes_all_def example_env_def client_env_def)
  from peer_downstream_loses [OF peer_wf_fresh [of server_size 3] start(4,1) this, of "replicate 257 [65]" "example_env quiet_os"]
  obtain s' ps c' where run: "sends server_size server_next_id (example_env quiet_os) (replicate 257 [65]) (fresh_peer server_size []) = (Ret (), s')"
    "datagrams 3 (pr_trace s') = rev ps" "client_packets (example_env quiet_os) ps (fresh_client []) = (Ret (), c')"
    "stream_writes (-1) (pr_trace c') = rev [m. (i, m) \<leftarrow> enumerate 0 (replicate 257 [65]), i mod 256 \<noteq> 255]"
    "datagrams 3 (pr_trace c') = replicate (257 div 256) (request_packet 0)"
    by (auto simp: start) (simp add: example_env_def client_env_def)
  moreover have "length [m. (i, m) \<leftarrow> enumerate 0 (replicate 257 [65 :: byte]), i mod 256 \<noteq> (255 :: nat)] = 256"
    by code_simp
  ultimately show ?thesis by auto
qed

section \<open>The keep-alive\<close>



end
