(* ===== verification/Spec2Isabelle.thy ===== *)
theory Spec2Isabelle
  imports Transport_Spec Chownat_Tunnel Chownat_Programs Ossl_Quic_Session Ossl_Quic_Tls Ossl_Quic_Stream Ossl_Quic_Punch
    Ossl_Quic_Link Peer_Link Utils
begin

text \<open>
  A verification library for a peer-to-peer UDP connection written in C: one connection object
  (\<open>udp_conn_t\<close>) with a table of operations, one main loop that tunnels a local TCP connection through
  it, and two backends for the table, CHOWNAT (a small reliable protocol of its own) and QUIC (on top
  of OpenSSL).  Beside them stand the two programs the CHOWNAT backend was derived from.  Paths below
  are relative to \<open>src/source\<close>, but for those programs.

  The program and its theories

  \<^item> \<open>Prelude\<close>: bytes, the outcome of a C function (a value, \<open>exit\<close>, undefined behaviour or fuel that
    ran out), its sequencing \<open>chain\<close>, and buffers that are written within their bounds.
  \<^item> \<open>Posix\<close>: the system calls as an oracle.  A record \<open>os\<close> answers each call by a function of the
    history; every call appends an event to the trace, newest first.  \<open>Openssl_Calls\<close> and \<open>Openssl\<close> do
    the same for the OpenSSL library, a parameter \<open>lib\<close>, and say which objects a trace has in use.
    \<open>msleep\<close> of \<open>common/utils/src/utils.c\<close> is in \<open>Posix\<close>, the reading of the command line (\<open>usage\<close>) in
    \<open>Utils\<close>.
  \<^item> \<open>Conn\<close>: the connection object of \<open>udp_conn/inc/udp_conn.h\<close>, a record with the sessions, the control
    block, configuration, data and application memory behind its pointers (\<open>None\<close> is a null
    pointer), the trace, and the table of operations with its wrappers.  \<open>Api_Calls\<close>: sequences of
    calls through a table.
  \<^item> \<open>Udp_Transport\<close>, \<open>Transport_Spec\<close>: \<open>udp_conn/src/udp_transport.c\<close>, the transport of datagrams; a
    contract for operation tables (locale \<open>transport_ops\<close>), ownership of descriptors.
  \<^item> \<open>Udp_Conn\<close>, \<open>Conn_Spec\<close>: \<open>udp_conn/src/udp_conn.c\<close>, the TCP tunnel and \<open>udp_connection\<close>; what holds
    for every backend, and the contract of a backend (locale \<open>udp_backend\<close>) that carries an invariant
    through the whole loop; locale \<open>connection_loop\<close> does so for a property of which only a weaker one
    is left when the loop ends.  \<open>Tunnel_Streams\<close>: what a trace reads from and writes to TCP.
  \<^item> \<open>Program\<close>: what the \<open>main\<close> functions under \<open>tests/WebRTC\<close> share, from the command line to the
    session that is run and released.
  \<^item> \<open>Chownat\<close>: \<open>chownat/src/chownat.c\<close>, every operation.  \<open>Chownat_Inv\<close> (memory safety, locale
    \<open>chownat_user\<close> for the callback), \<open>Chownat_Control\<close>, \<open>Chownat_Close\<close>, \<open>Chownat_Lifecycle\<close>
    (initialisation, hole punching, disconnecting), \<open>Chownat_Stream\<close>, \<open>Chownat_Delivery\<close> (numbering,
    retransmission, delivery), \<open>Chownat_App\<close> (the callback of \<open>tests/WebRTC/test_chownat_udp\<close>),
    \<open>Chownat_Session\<close>, \<open>Chownat_Tunnel\<close> (the main loop with this backend), \<open>Chownat_Trace\<close>,
    \<open>Chownat_Link\<close> (what the trace of a tunnel says of its sender and its receiver, throughout a run),
    \<open>Chownat_Network\<close> (two runs joined by a network), \<open>Chownat_Programs\<close> (the programs \<open>test_chownat\<close>,
    \<open>test_chownat_udp\<close> and \<open>test_chownat_udp_close\<close>).
  \<^item> \<open>Ossl_Quic\<close>: \<open>ossl_quic/src/ossl_quic.c\<close>, every operation.  \<open>Ossl_Quic_Inv\<close> (the objects of a
    connection are in use and all different; locale \<open>quic_user\<close> for the callback), \<open>Ossl_Quic_Tls\<close>
    (cipher suites), \<open>Ossl_Quic_Shutdown\<close> (the shutdown loop, disconnecting), \<open>Ossl_Quic_Stream\<close>
    (sending, receiving, connecting), \<open>Ossl_Quic_Punch\<close> (hole punching), \<open>Ossl_Quic_App\<close> (the contract of
    the main loop and the application of \<open>tests/WebRTC/test_openssl_quic_udp\<close>), \<open>Ossl_Quic_Session\<close>
    (the whole program, arbitrary sequences of calls, release), \<open>Ossl_Quic_Phase\<close> (the life of a
    connection as a state machine with a step relation, which every operation refines), \<open>Ossl_Quic_Tunnel\<close>
    (the program \<open>test_openssl_quic\<close>), \<open>Ossl_Quic_Link\<close> (its streams, and two of these programs joined).
  \<^item> \<open>Peer\<close>, \<open>Peer_Client\<close>, \<open>Peer_Server\<close>: the stand-alone programs \<open>src/chownat/C/chownat_client.c\<close> and
    \<open>chownat_server.c\<close>, with what they share in \<open>Peer\<close>; \<open>Peer_Link\<close>: their memory safety, the transfer
    of data in both directions, and the effect of the keep-alive.

  How the code is modelled

  \<^item> A function of the code is a function from the connection to an outcome and the connection it
    leaves.  Bytes and sequence numbers have their width; descriptors and times are integers, sizes
    natural numbers.  An access outside an array is the outcome \<open>Fault\<close>; the theorems on memory
    safety say that it does not occur.
  \<^item> A user callback is a parameter.  Backends call it with the trace extended by an event, so the
    order of callbacks and calls can be stated.
  \<^item> Loops without a bound in the source have fuel; \<open>NoFuel\<close> is a loop that has not ended yet.  Where
    the code returns, a theorem says so for a stated amount: \<open>silent_peer_disconnected\<close> (the threshold
    plus two rounds), \<open>quic_shutdown_returns\<close> (the readings of the clock until the deadline),
    \<open>chownat_server_punching_returns\<close> (the datagrams that arrive).  Where it need not return, a theorem says that
    no amount is enough: \<open>chownat_bye_flood_never_returns\<close>, \<open>quic_punching_silent\<close>.
  \<^item> The stand-alone programs store a byte behind a static array.  Whether the memory there is free is
    an argument (\<open>ev_slack\<close>) of their model, what \<open>select\<close> leaves of its timeout another (\<open>ev_left\<close>).
  \<^item> The depth of nested callbacks is bounded in the same way; two levels are enough for the finite
    tests, one for the tunnel programs.

  What the theorems show

  \<^item> Safety: no undefined behaviour and a preserved invariant for each backend under arbitrary
    sequences of calls and for the whole program over it, for every behaviour of system, OpenSSL and
    peer; no descriptor leaked by the transport; no OpenSSL object used after it was freed, freed
    twice or leaked by the QUIC program.
  \<^item> End to end: two tunnel programs, from their command lines on, joined by a network (CHOWNAT) or by
    OpenSSL (QUIC), connect their TCP peers: \<open>chownat_programs_stream\<close>, \<open>quic_tunnel_stream\<close>.  The
    hypotheses are on the network and on OpenSSL only: no packet a round of numbers late; a stream is
    carried in order, and \<open>SSL_write_ex\<close> writes all or nothing.
  \<^item> Refinement: the CHOWNAT receiver refines one that counts without bound, the QUIC operations refine
    a machine of three phases.
  \<^item> Function: CHOWNAT delivers in order and without duplicates, its numbering, store and
    retransmission, both disconnects, both handshakes; the tunnel passes bytes unchanged; QUIC cipher
    suites, receive results, terminal disconnect and complete release; the transport's round trip.
  \<^item> Defects of the code, proved as what it does: truncated and missing retransmissions, loops that a
    peer can keep alive, descriptors closed twice, a QUIC session that reopens when its callback
    disconnects, back-pressure that ends a QUIC session, and in the stand-alone programs a keep-alive
    that hangs up, every 256th message lost in one direction, and the exact limit of the reads they
    survive.

  Not modelled

  \<^item> Debug output, \<open>print_sockaddr_in\<close>, \<open>inet_addr\<close> (a parameter), the tests outside \<open>tests/WebRTC\<close>, and
    the disabled blocks (\<open>#if 0\<close>) of \<open>ossl_quic.c\<close>.
  \<^item> \<open>udp_conn_stream.h\<close> (declarations only) and \<open>quic_like\<close> (commented out or empty).
  \<^item> Byte order and layout of structures, and signals.
\<close>

end
